(* ===== verification/Prelude.thy ===== *)
theory Prelude
  imports Main "HOL-Library.Option_ord" "HOL-Library.Monad_Syntax"
begin

text \<open>
  What the components share: the collections of rewrite rules that the component theories
  fill (\<open>state_simps\<close> for accessors and updates, \<open>cmp_simps\<close> for comparisons), Rust's
  \<open>Ordering\<close> and comparison functions, 64-bit saturating and checked arithmetic, and
  \<open>binary_search_by\<close> of a slice.  A Rust panic (\<open>unwrap\<close> of a \<open>None\<close>,
  \<open>unreachable!\<close>, \<open>assert!\<close>) is the value \<^const>\<open>None\<close> of an option result;
  \<open>debug_assert!\<close> is not compiled into a release build and is no branch of the model.
\<close>

named_theorems state_simps \<open>accessors and updates of the model's state\<close>
named_theorems cmp_simps \<open>comparison functions as order relations\<close>

section \<open>Comparisons\<close>

datatype ordering = Less | Equal | Greater

definition cmp :: "'a::linorder \<Rightarrow> 'a \<Rightarrow> ordering" where
  "cmp a b = (if a < b then Less else if a = b then Equal else Greater)"

fun reverse_ordering :: "ordering \<Rightarrow> ordering" where
  "reverse_ordering Less = Greater"
| "reverse_ordering Equal = Equal"
| "reverse_ordering Greater = Less"

text \<open>The operators \<open>>=\<close> and \<open>>\<close> that Rust derives from \<open>partial_cmp\<close>.\<close>

definition is_ge :: "ordering option \<Rightarrow> bool" where
  "is_ge r \<longleftrightarrow> r = Some Greater \<or> r = Some Equal"

definition is_gt :: "ordering option \<Rightarrow> bool" where
  "is_gt r \<longleftrightarrow> r = Some Greater"

lemma cmp_eq_iff [cmp_simps]:
  "cmp a b = Less \<longleftrightarrow> a < b"
  "cmp a b = Equal \<longleftrightarrow> a = b"
  "cmp a b = Greater \<longleftrightarrow> b < a"
  by (auto simp: cmp_def)

lemma cmp_refl [simp]: "cmp a a = Equal"
  by (simp add: cmp_def)

lemma cmp_swap: "cmp b a = reverse_ordering (cmp a b)"
  by (auto simp: cmp_def)

lemma reverse_ordering_eq_iff [cmp_simps]:
  "reverse_ordering r = Less \<longleftrightarrow> r = Greater"
  "reverse_ordering r = Equal \<longleftrightarrow> r = Equal"
  "reverse_ordering r = Greater \<longleftrightarrow> r = Less"
  by (cases r; simp)+

section \<open>64-bit arithmetic\<close>

definition u64_max :: nat where
  "u64_max = 2 ^ 64 - 1"

definition saturating_add :: "nat \<Rightarrow> nat \<Rightarrow> nat" where
  "saturating_add a b = min (a + b) u64_max"

definition checked_add :: "nat \<Rightarrow> nat \<Rightarrow> nat option" where
  "checked_add a b = (if a + b \<le> u64_max then Some (a + b) else None)"

definition wrapping_add :: "nat \<Rightarrow> nat \<Rightarrow> nat" where
  "wrapping_add a b = (a + b) mod 2 ^ 64"

definition wrapping_sub :: "nat \<Rightarrow> nat \<Rightarrow> nat" where
  "wrapping_sub a b = (a + 2 ^ 64 - b) mod 2 ^ 64"

lemma u64_max_less [simp]: "n \<le> u64_max \<longleftrightarrow> n < 2 ^ 64"
  by (auto simp: u64_max_def)

lemma wrapping_add_small: "a + b < 2 ^ 64 \<Longrightarrow> wrapping_add a b = a + b"
  by (simp add: wrapping_add_def)

lemma wrapping_sub_small:
  assumes "b \<le> a" "a < 2 ^ 64"
  shows "wrapping_sub a b = a - b"
proof -
  from assms have "a + 2 ^ 64 - b = (a - b) + 2 ^ 64" by simp
  then have "wrapping_sub a b = (a - b) mod 2 ^ 64" by (simp only: wrapping_sub_def mod_add_self2)
  then show ?thesis using assms by simp
qed

section \<open>Slices\<close>

text \<open>
  \<open>slice::binary_search_by\<close> on a slice sorted by the key: \<open>Inr i\<close> is \<open>Ok(i)\<close>, the
  position of an element with the key, \<open>Inl i\<close> is \<open>Err(i)\<close>, the position at which such
  an element would be inserted.
\<close>

definition binary_search_by_key :: "('a \<Rightarrow> 'k::linorder) \<Rightarrow> 'a list \<Rightarrow> 'k \<Rightarrow> nat + nat" where
  "binary_search_by_key key xs k =
     (let i = length (takeWhile (\<lambda>x. key x < k) xs)
      in if i < length xs \<and> key (xs ! i) = k then Inr i else Inl i)"

lemma takeWhile_sorted_length:
  assumes "sorted (map key xs)" "i = length (takeWhile (\<lambda>x. key x < (k::'k::linorder)) xs)"
  shows "\<And>j. j < i \<Longrightarrow> key (xs ! j) < k" "\<And>j. i \<le> j \<Longrightarrow> j < length xs \<Longrightarrow> k \<le> key (xs ! j)"
    "i \<le> length xs"
proof -
  show "i \<le> length xs" using assms(2) by (simp add: length_takeWhile_le)
  fix j
  show "j < i \<Longrightarrow> key (xs ! j) < k"
    using assms(2) by (metis nth_mem set_takeWhileD takeWhile_nth)
  assume "i \<le> j" "j < length xs"
  then have "\<not> key (xs ! i) < k" using assms(2) nth_length_takeWhile[of "\<lambda>x. key x < k" xs] by simp
  moreover have "key (xs ! i) \<le> key (xs ! j)"
    using assms(1) \<open>i \<le> j\<close> \<open>j < length xs\<close> by (auto simp: sorted_iff_nth_mono)
  ultimately show "k \<le> key (xs ! j)" by simp
qed

lemma binary_search_Inr:
  assumes "binary_search_by_key key xs k = Inr i"
  shows "i < length xs" "key (xs ! i) = k"
  using assms by (auto simp: binary_search_by_key_def Let_def split: if_splits)

lemma binary_search_not_found:
  assumes "sorted (map key xs)" "binary_search_by_key key xs k = Inl i"
  shows "i \<le> length xs" "\<And>j. j < i \<Longrightarrow> key (xs ! j) < k"
    "\<And>j. i \<le> j \<Longrightarrow> j < length xs \<Longrightarrow> k < key (xs ! j)"
proof -
  have i: "i = length (takeWhile (\<lambda>x. key x < k) xs)" and ne: "i < length xs \<longrightarrow> key (xs ! i) \<noteq> k"
    using assms(2) by (auto simp: binary_search_by_key_def Let_def split: if_splits)
  note props = takeWhile_sorted_length[OF assms(1) i]
  show "i \<le> length xs" using props(3) .
  fix j
  show "j < i \<Longrightarrow> key (xs ! j) < k" using props(1) .
  assume j: "i \<le> j" "j < length xs"
  then have "k < key (xs ! i)" using props(2)[of i] ne by (simp add: less_le)
  also have "\<dots> \<le> key (xs ! j)" using assms(1) j by (auto simp: sorted_iff_nth_mono)
  finally show "k < key (xs ! j)" .
qed

section \<open>Lists\<close>

definition last_opt :: "'a list \<Rightarrow> 'a option" where
  "last_opt xs = (if xs = [] then None else Some (last xs))"

definition first_opt :: "'a list \<Rightarrow> 'a option" where
  "first_opt xs = (case xs of [] \<Rightarrow> None | x # _ \<Rightarrow> Some x)"

lemma last_opt_simps [simp]:
  "last_opt [] = None"
  "last_opt (xs @ [x]) = Some x"
  "xs \<noteq> [] \<Longrightarrow> last_opt xs = Some (last xs)"
  by (simp_all add: last_opt_def)

lemma first_opt_simps [simp]:
  "first_opt [] = None"
  "first_opt (x # xs) = Some x"
  by (simp_all add: first_opt_def)

end
