(* ===== verification/Vote.thy ===== *)
theory Vote
  imports Prelude
begin

text \<open>
  Leader ids and votes (\<open>openraft/src/vote\<close>).  The trait \<open>RaftLeaderId\<close> is the
  record \<open>leader_id_ops\<close>; its two implementations, \<open>leader_id_adv\<close> (any number of leaders
  in a term) and \<open>leader_id_std\<close> (one leader in a term), are \<open>adv_ops\<close> and
  \<open>std_ops\<close>.  The locale \<open>raft_leader_id\<close> states what the trait promises, and the
  lemmas on the order of votes are proved from it once, for both modes.
\<close>

section \<open>The trait of leader ids\<close>

record ('t, 'n, 'l, 'c) leader_id_ops =
  lid_new :: "'t \<Rightarrow> 'n \<Rightarrow> 'l"
  lid_term :: "'l \<Rightarrow> 't"
  lid_node_id :: "'l \<Rightarrow> 'n"
  lid_to_committed :: "'l \<Rightarrow> 'c"
  lid_partial_cmp :: "'l \<Rightarrow> 'l \<Rightarrow> ordering option"
  lid_totally_ordered :: bool

definition lid_cmp_std ::
  "('l \<Rightarrow> 't::linorder) \<Rightarrow> ('l \<Rightarrow> 'n) \<Rightarrow> 'l \<Rightarrow> 'l \<Rightarrow> ordering option" where
  "lid_cmp_std term node_id a b =
     (case cmp (term a) (term b) of
        Equal \<Rightarrow> if node_id a = node_id b then Some Equal else None
      | c \<Rightarrow> Some c)"

definition lid_cmp_adv ::
  "('l \<Rightarrow> 't::linorder) \<Rightarrow> ('l \<Rightarrow> 'n::linorder) \<Rightarrow> 'l \<Rightarrow> 'l \<Rightarrow> ordering option" where
  "lid_cmp_adv term node_id a b =
     Some (case cmp (term a) (term b) of
             Equal \<Rightarrow> cmp (node_id a) (node_id b)
           | c \<Rightarrow> c)"

section \<open>Leader ids that allow several leaders in a term\<close>

datatype ('t, 'n) leader_id_adv = LeaderIdAdv (adv_term: 't) (adv_node_id: 'n)

instantiation leader_id_adv :: (linorder, linorder) linorder
begin

definition less_eq_leader_id_adv :: "('a, 'b) leader_id_adv \<Rightarrow> ('a, 'b) leader_id_adv \<Rightarrow> bool" where
  "a \<le> b \<longleftrightarrow> adv_term a < adv_term b \<or> (adv_term a = adv_term b \<and> adv_node_id a \<le> adv_node_id b)"

definition less_leader_id_adv :: "('a, 'b) leader_id_adv \<Rightarrow> ('a, 'b) leader_id_adv \<Rightarrow> bool" where
  "a < b \<longleftrightarrow> adv_term a < adv_term b \<or> (adv_term a = adv_term b \<and> adv_node_id a < adv_node_id b)"

instance
  by standard (auto simp: less_eq_leader_id_adv_def less_leader_id_adv_def leader_id_adv.expand)

end

definition adv_to_committed :: "('t, 'n) leader_id_adv \<Rightarrow> ('t, 'n) leader_id_adv" where
  "adv_to_committed l = l"

definition adv_ops ::
  "('t::linorder, 'n::linorder, ('t, 'n) leader_id_adv, ('t, 'n) leader_id_adv) leader_id_ops" where
  "adv_ops =
     \<lparr> lid_new = LeaderIdAdv, lid_term = adv_term, lid_node_id = adv_node_id,
       lid_to_committed = adv_to_committed,
       lid_partial_cmp = lid_cmp_adv adv_term adv_node_id,
       lid_totally_ordered = True \<rparr>"

section \<open>Leader ids with one leader in a term\<close>

datatype ('t, 'n) leader_id_std = LeaderIdStd (std_term: 't) (voted_for: 'n)

datatype 't committed_leader_id = CommittedLeaderId (cl_term: 't)

instantiation committed_leader_id :: (linorder) linorder
begin

definition less_eq_committed_leader_id :: "'a committed_leader_id \<Rightarrow> 'a committed_leader_id \<Rightarrow> bool" where
  "a \<le> b \<longleftrightarrow> cl_term a \<le> cl_term b"

definition less_committed_leader_id :: "'a committed_leader_id \<Rightarrow> 'a committed_leader_id \<Rightarrow> bool" where
  "a < b \<longleftrightarrow> cl_term a < cl_term b"

instance
  by standard
    (auto simp: less_eq_committed_leader_id_def less_committed_leader_id_def committed_leader_id.expand)

end

definition std_to_committed :: "('t, 'n) leader_id_std \<Rightarrow> 't committed_leader_id" where
  "std_to_committed l = CommittedLeaderId (std_term l)"

definition std_ops ::
  "('t::linorder, 'n, ('t, 'n) leader_id_std, 't committed_leader_id) leader_id_ops" where
  "std_ops =
     \<lparr> lid_new = LeaderIdStd, lid_term = std_term, lid_node_id = voted_for,
       lid_to_committed = std_to_committed,
       lid_partial_cmp = lid_cmp_std std_term voted_for,
       lid_totally_ordered = False \<rparr>"

text \<open>A leader id of this mode compared with a committed one, and the reverse comparison.\<close>

definition std_cmp_committed ::
  "('t::linorder, 'n) leader_id_std \<Rightarrow> 't committed_leader_id \<Rightarrow> ordering option" where
  "std_cmp_committed l c =
     (if std_term l = cl_term c then Some Less else Some (cmp (std_term l) (cl_term c)))"

definition committed_cmp_std ::
  "'t::linorder committed_leader_id \<Rightarrow> ('t, 'n) leader_id_std \<Rightarrow> ordering option" where
  "committed_cmp_std c l =
     (if cl_term c = std_term l then Some Greater else Some (cmp (cl_term c) (std_term l)))"

section \<open>Votes\<close>

record 'l vote =
  v_leader_id :: 'l
  v_committed :: bool

datatype 'l committed_vote = CommittedVote (cv_leader_id: 'l)

datatype 'l uncommitted_vote = UncommittedVote (uv_leader_id: 'l)

datatype 'l vote_status = Committed "'l committed_vote" | Pending "'l uncommitted_vote"

definition vote_partial_cmp ::
  "('t, 'n, 'l, 'c) leader_id_ops \<Rightarrow> 'l vote \<Rightarrow> 'l vote \<Rightarrow> ordering option" where
  "vote_partial_cmp L a b =
     (case lid_partial_cmp L (v_leader_id a) (v_leader_id b) of
        Some Equal \<Rightarrow> Some (cmp (v_committed a) (v_committed b))
      | None \<Rightarrow>
          (case (v_committed a, v_committed b) of
             (False, False) \<Rightarrow> None
           | (True, False) \<Rightarrow> Some Greater
           | (False, True) \<Rightarrow> Some Less
           | (True, True) \<Rightarrow> None)
      | c \<Rightarrow> c)"

definition vote_ge :: "('t, 'n, 'l, 'c) leader_id_ops \<Rightarrow> 'l vote \<Rightarrow> 'l vote \<Rightarrow> bool" where
  "vote_ge L a b = is_ge (vote_partial_cmp L a b)"

definition vote_gt :: "('t, 'n, 'l, 'c) leader_id_ops \<Rightarrow> 'l vote \<Rightarrow> 'l vote \<Rightarrow> bool" where
  "vote_gt L a b = is_gt (vote_partial_cmp L a b)"

definition vote_new :: "('t, 'n, 'l, 'c) leader_id_ops \<Rightarrow> 't \<Rightarrow> 'n \<Rightarrow> 'l vote" where
  "vote_new L t n = \<lparr> v_leader_id = lid_new L t n, v_committed = False \<rparr>"

definition vote_new_committed :: "('t, 'n, 'l, 'c) leader_id_ops \<Rightarrow> 't \<Rightarrow> 'n \<Rightarrow> 'l vote" where
  "vote_new_committed L t n = \<lparr> v_leader_id = lid_new L t n, v_committed = True \<rparr>"

definition vote_new_with_default_term ::
  "('t::zero, 'n, 'l, 'c) leader_id_ops \<Rightarrow> 'n \<Rightarrow> 'l vote" where
  "vote_new_with_default_term L n = \<lparr> v_leader_id = lid_new L 0 n, v_committed = False \<rparr>"

definition vote_term :: "('t, 'n, 'l, 'c) leader_id_ops \<Rightarrow> 'l vote \<Rightarrow> 't" where
  "vote_term L v = lid_term L (v_leader_id v)"

definition leader_node_id :: "('t, 'n, 'l, 'c) leader_id_ops \<Rightarrow> 'l vote \<Rightarrow> 'n" where
  "leader_node_id L v = lid_node_id L (v_leader_id v)"

definition to_committed :: "'l vote \<Rightarrow> 'l committed_vote" where
  "to_committed v = CommittedVote (v_leader_id v)"

definition to_non_committed :: "'l vote \<Rightarrow> 'l uncommitted_vote" where
  "to_non_committed v = UncommittedVote (v_leader_id v)"

definition into_vote_status :: "'l vote \<Rightarrow> 'l vote_status" where
  "into_vote_status v =
     (if v_committed v then Committed (to_committed v) else Pending (to_non_committed v))"

definition try_to_committed :: "'l vote \<Rightarrow> 'l committed_vote option" where
  "try_to_committed v = (if v_committed v then Some (to_committed v) else None)"

definition try_to_committed_leader_id ::
  "('t, 'n, 'l, 'c) leader_id_ops \<Rightarrow> 'l vote \<Rightarrow> 'c option" where
  "try_to_committed_leader_id L v =
     (if v_committed v then Some (lid_to_committed L (v_leader_id v)) else None)"

definition is_same_leader :: "('t, 'n, 'l, 'c) leader_id_ops \<Rightarrow> 'l vote \<Rightarrow> 'c \<Rightarrow> bool" where
  "is_same_leader L v c \<longleftrightarrow> lid_to_committed L (v_leader_id v) = c"

definition committed_into_vote :: "'l committed_vote \<Rightarrow> 'l vote" where
  "committed_into_vote cv = \<lparr> v_leader_id = cv_leader_id cv, v_committed = True \<rparr>"

definition uncommitted_into_vote :: "'l uncommitted_vote \<Rightarrow> 'l vote" where
  "uncommitted_into_vote uv = \<lparr> v_leader_id = uv_leader_id uv, v_committed = False \<rparr>"

definition cv_committed_leader_id ::
  "('t, 'n, 'l, 'c) leader_id_ops \<Rightarrow> 'l committed_vote \<Rightarrow> 'c" where
  "cv_committed_leader_id L cv = lid_to_committed L (cv_leader_id cv)"

text \<open>\<open>Ord for CommittedVote\<close> unwraps the partial comparison: \<^const>\<open>None\<close> is its panic.\<close>

definition committed_vote_cmp ::
  "('t, 'n, 'l, 'c) leader_id_ops \<Rightarrow> 'l committed_vote \<Rightarrow> 'l committed_vote \<Rightarrow> ordering option" where
  "committed_vote_cmp L a b =
     vote_partial_cmp L \<lparr> v_leader_id = cv_leader_id a, v_committed = True \<rparr>
                        \<lparr> v_leader_id = cv_leader_id b, v_committed = True \<rparr>"

section \<open>What the trait promises\<close>

locale raft_leader_id =
  fixes L :: "('t::linorder, 'n, 'l, 'c::linorder) leader_id_ops"
  assumes cmp_Equal_iff: "lid_partial_cmp L a b = Some Equal \<longleftrightarrow> a = b"
    and cmp_converse: "lid_partial_cmp L b a = map_option reverse_ordering (lid_partial_cmp L a b)"
    and cmp_Less_trans:
      "lid_partial_cmp L a b = Some Less \<Longrightarrow> lid_partial_cmp L b c = Some Less \<Longrightarrow>
       lid_partial_cmp L a c = Some Less"
    and cmp_None_Less:
      "lid_partial_cmp L a b = None \<Longrightarrow> lid_partial_cmp L b c = Some Less \<Longrightarrow>
       lid_partial_cmp L a c = Some Less"
    and cmp_Less_None:
      "lid_partial_cmp L a b = Some Less \<Longrightarrow> lid_partial_cmp L b c = None \<Longrightarrow>
       lid_partial_cmp L a c = Some Less"
    and new_accessors: "lid_term L (lid_new L t n) = t" "lid_node_id L (lid_new L t n) = n"
    and term_less: "lid_term L a < lid_term L b \<Longrightarrow> lid_partial_cmp L a b = Some Less"
    and committed_less_iff:
      "lid_to_committed L a < lid_to_committed L b \<longleftrightarrow> lid_partial_cmp L a b = Some Less"
    and total: "lid_totally_ordered L \<Longrightarrow> lid_partial_cmp L a b \<noteq> None"
begin

lemma cmp_Greater_iff: "lid_partial_cmp L a b = Some Greater \<longleftrightarrow> lid_partial_cmp L b a = Some Less"
  by (subst cmp_converse) (auto simp: cmp_simps)

lemma cmp_None_sym: "lid_partial_cmp L a b = None \<longleftrightarrow> lid_partial_cmp L b a = None"
  by (subst cmp_converse) auto

lemma cmp_refl_Equal [simp]: "lid_partial_cmp L a a = Some Equal"
  by (simp add: cmp_Equal_iff)

text \<open>Two leader ids have one committed form exactly when they are equal or incomparable.\<close>

lemma committed_eq_iff:
  "lid_to_committed L a = lid_to_committed L b \<longleftrightarrow> a = b \<or> lid_partial_cmp L a b = None"
proof -
  have "lid_to_committed L a = lid_to_committed L b \<longleftrightarrow>
        lid_partial_cmp L a b \<noteq> Some Less \<and> lid_partial_cmp L b a \<noteq> Some Less"
    by (metis committed_less_iff less_irrefl neq_iff)
  also have "\<dots> \<longleftrightarrow> a = b \<or> lid_partial_cmp L a b = None"
  proof (cases "lid_partial_cmp L a b")
    case (Some r)
    then show ?thesis using cmp_Greater_iff[of a b] cmp_Equal_iff[of a b] by (cases r) auto
  qed (use cmp_None_sym[of a b] in auto)
  finally show ?thesis .
qed

lemma vote_cmp_None_iff:
  "vote_partial_cmp L v w = None \<longleftrightarrow>
   lid_partial_cmp L (v_leader_id v) (v_leader_id w) = None \<and> v_committed v = v_committed w"
  by (auto simp: vote_partial_cmp_def split: option.splits ordering.splits bool.splits)

lemma vote_cmp_Less_iff:
  "vote_partial_cmp L v w = Some Less \<longleftrightarrow>
   lid_partial_cmp L (v_leader_id v) (v_leader_id w) = Some Less \<or>
   (\<not> v_committed v \<and> v_committed w \<and>
    (v_leader_id v = v_leader_id w \<or> lid_partial_cmp L (v_leader_id v) (v_leader_id w) = None))"
  by (auto simp: vote_partial_cmp_def cmp_Equal_iff cmp_simps split: option.splits ordering.splits bool.splits)

lemma vote_cmp_Equal_iff: "vote_partial_cmp L v w = Some Equal \<longleftrightarrow> v = w"
  by (cases v; cases w)
    (auto simp: vote_partial_cmp_def cmp_Equal_iff cmp_simps split: option.splits ordering.splits bool.splits)

lemma vote_cmp_refl [simp]: "vote_partial_cmp L v v = Some Equal"
  by (simp add: vote_cmp_Equal_iff)

lemma vote_cmp_Greater_iff: "vote_partial_cmp L v w = Some Greater \<longleftrightarrow> vote_partial_cmp L w v = Some Less"
proof -
  have "vote_partial_cmp L v w = Some Greater \<longleftrightarrow>
     lid_partial_cmp L (v_leader_id v) (v_leader_id w) = Some Greater \<or>
     (\<not> v_committed w \<and> v_committed v \<and>
      (v_leader_id v = v_leader_id w \<or> lid_partial_cmp L (v_leader_id v) (v_leader_id w) = None))"
    by (auto simp: vote_partial_cmp_def cmp_Equal_iff cmp_simps
        split: option.splits ordering.splits bool.splits)
  then show ?thesis
    by (auto simp: vote_cmp_Less_iff cmp_Greater_iff cmp_None_sym)
qed

lemma vote_cmp_Less_trans:
  assumes "vote_partial_cmp L u v = Some Less" "vote_partial_cmp L v w = Some Less"
  shows "vote_partial_cmp L u w = Some Less"
  using assms cmp_Less_trans cmp_None_Less cmp_Less_None unfolding vote_cmp_Less_iff
  by metis

lemma vote_ge_iff: "vote_ge L v w \<longleftrightarrow> v = w \<or> vote_partial_cmp L w v = Some Less"
  by (auto simp: vote_ge_def is_ge_def vote_cmp_Equal_iff vote_cmp_Greater_iff)

lemma vote_gt_iff: "vote_gt L v w \<longleftrightarrow> vote_partial_cmp L w v = Some Less"
  by (auto simp: vote_gt_def is_gt_def vote_cmp_Greater_iff)

lemma vote_ge_refl [simp]: "vote_ge L v v"
  by (simp add: vote_ge_iff)

lemma vote_gt_irrefl [simp]: "\<not> vote_gt L v v"
  by (simp add: vote_gt_iff vote_cmp_Less_iff)

lemma vote_ge_trans: "vote_ge L u v \<Longrightarrow> vote_ge L v w \<Longrightarrow> vote_ge L u w"
  by (auto simp: vote_ge_iff intro: vote_cmp_Less_trans)

lemma vote_ge_antisym: "vote_ge L v w \<Longrightarrow> vote_ge L w v \<Longrightarrow> v = w"
  by (metis vote_ge_iff vote_cmp_Less_trans vote_gt_iff vote_gt_irrefl)

lemma vote_gt_ge: "vote_gt L v w \<longleftrightarrow> vote_ge L v w \<and> v \<noteq> w"
  by (auto simp: vote_ge_iff vote_gt_iff vote_cmp_Less_iff)

lemma vote_ge_not_gt: "vote_ge L v w \<Longrightarrow> \<not> vote_gt L v w \<longleftrightarrow> v = w"
  by (auto simp: vote_gt_ge)

text \<open>A greater vote never has a smaller committed leader id, and a vote of a later term wins.\<close>

lemma vote_ge_committed_leader:
  "vote_ge L v w \<Longrightarrow> lid_to_committed L (v_leader_id w) \<le> lid_to_committed L (v_leader_id v)"
  by (auto simp: vote_ge_iff vote_cmp_Less_iff)
    (metis cmp_None_sym committed_eq_iff committed_less_iff order.order_iff_strict)+

lemma vote_later_term_gt:
  "lid_term L (v_leader_id w) < lid_term L (v_leader_id v) \<Longrightarrow> vote_gt L v w"
  by (simp add: vote_gt_iff vote_cmp_Less_iff term_less)

lemma vote_ge_term:
  "vote_ge L v w \<Longrightarrow> lid_term L (v_leader_id w) \<le> lid_term L (v_leader_id v)"
  using vote_ge_antisym vote_gt_ge vote_later_term_gt by (metis leI)

lemma commit_same_leader_ge:
  "vote_ge L \<lparr> v_leader_id = v_leader_id v, v_committed = True \<rparr> v"
  by (cases v) (auto simp: vote_ge_iff vote_cmp_Less_iff)

lemma committed_vote_cmp_None_iff:
  "committed_vote_cmp L a b = None \<longleftrightarrow> lid_partial_cmp L (cv_leader_id a) (cv_leader_id b) = None"
  by (simp add: committed_vote_cmp_def vote_cmp_None_iff)

end

interpretation adv: raft_leader_id "adv_ops :: ('t::linorder, 'n::linorder, _, _) leader_id_ops"
proof
  fix a b c :: "('t, 'n) leader_id_adv" and t :: 't and n :: 'n
  note [simp] = adv_ops_def lid_cmp_adv_def adv_to_committed_def cmp_def
  show "(lid_partial_cmp adv_ops a b = Some Equal) = (a = b)"
    by (cases a; cases b) auto
  show "lid_partial_cmp adv_ops b a = map_option reverse_ordering (lid_partial_cmp adv_ops a b)"
    by auto
  show "lid_partial_cmp adv_ops a b = Some Less \<Longrightarrow> lid_partial_cmp adv_ops b c = Some Less \<Longrightarrow>
        lid_partial_cmp adv_ops a c = Some Less"
    by (auto split: if_splits)
  show "lid_partial_cmp adv_ops a b = None \<Longrightarrow> lid_partial_cmp adv_ops b c = Some Less \<Longrightarrow>
        lid_partial_cmp adv_ops a c = Some Less"
    by simp
  show "lid_partial_cmp adv_ops a b = Some Less \<Longrightarrow> lid_partial_cmp adv_ops b c = None \<Longrightarrow>
        lid_partial_cmp adv_ops a c = Some Less"
    by simp
  show "lid_term adv_ops (lid_new adv_ops t n) = t" "lid_node_id adv_ops (lid_new adv_ops t n) = n"
    by simp_all
  show "lid_term adv_ops a < lid_term adv_ops b \<Longrightarrow> lid_partial_cmp adv_ops a b = Some Less"
    by simp
  show "(lid_to_committed adv_ops a < lid_to_committed adv_ops b) =
        (lid_partial_cmp adv_ops a b = Some Less)"
    by (auto simp: less_leader_id_adv_def)
  show "lid_totally_ordered adv_ops \<Longrightarrow> lid_partial_cmp adv_ops a b \<noteq> None"
    by simp
qed

interpretation std: raft_leader_id "std_ops :: ('t::linorder, 'n, _, _) leader_id_ops"
proof
  fix a b c :: "('t, 'n) leader_id_std" and t :: 't and n :: 'n
  note [simp] = std_ops_def lid_cmp_std_def std_to_committed_def cmp_def
  show "(lid_partial_cmp std_ops a b = Some Equal) = (a = b)"
    by (cases a; cases b) auto
  show "lid_partial_cmp std_ops b a = map_option reverse_ordering (lid_partial_cmp std_ops a b)"
    by auto
  show "lid_partial_cmp std_ops a b = Some Less \<Longrightarrow> lid_partial_cmp std_ops b c = Some Less \<Longrightarrow>
        lid_partial_cmp std_ops a c = Some Less"
    by (auto split: if_splits)
  show "lid_partial_cmp std_ops a b = None \<Longrightarrow> lid_partial_cmp std_ops b c = Some Less \<Longrightarrow>
        lid_partial_cmp std_ops a c = Some Less"
    by (auto split: if_splits)
  show "lid_partial_cmp std_ops a b = Some Less \<Longrightarrow> lid_partial_cmp std_ops b c = None \<Longrightarrow>
        lid_partial_cmp std_ops a c = Some Less"
    by (auto split: if_splits)
  show "lid_term std_ops (lid_new std_ops t n) = t" "lid_node_id std_ops (lid_new std_ops t n) = n"
    by simp_all
  show "lid_term std_ops a < lid_term std_ops b \<Longrightarrow> lid_partial_cmp std_ops a b = Some Less"
    by simp
  show "(lid_to_committed std_ops a < lid_to_committed std_ops b) =
        (lid_partial_cmp std_ops a b = Some Less)"
    by (auto simp: less_committed_leader_id_def)
  show "lid_totally_ordered std_ops \<Longrightarrow> lid_partial_cmp std_ops a b \<noteq> None"
    by simp
qed

end
