(* ===== verification/LogIds.thy ===== *)
theory LogIds
  imports Prelude
begin

text \<open>
  Log ids (\<open>openraft/src/log_id\<close>, \<open>log_id_range.rs\<close>): the pair of a committed
  leader id and an index, ordered by leader first, its extension methods on options, and the
  half-open range of log ids that a replication request covers.  Indices are natural numbers: a
  log of \<open>2 ^ 64\<close> entries is out of reach, so no operation of the model wraps.  Borrowed
  log ids (\<open>RefLogId\<close>) are the same values.
\<close>

datatype 'c log_id = LogId (clid: 'c) (idx: nat)

instantiation log_id :: (linorder) linorder
begin

definition less_eq_log_id :: "'a log_id \<Rightarrow> 'a log_id \<Rightarrow> bool" where
  "a \<le> b \<longleftrightarrow> clid a < clid b \<or> (clid a = clid b \<and> idx a \<le> idx b)"

definition less_log_id :: "'a log_id \<Rightarrow> 'a log_id \<Rightarrow> bool" where
  "a < b \<longleftrightarrow> clid a < clid b \<or> (clid a = clid b \<and> idx a < idx b)"

instance
  by standard (auto simp: less_eq_log_id_def less_log_id_def log_id.expand)

end

lemma log_id_le_simps [simp]:
  "LogId c i \<le> LogId d j \<longleftrightarrow> c < d \<or> (c = d \<and> i \<le> j)"
  "LogId c i < LogId d j \<longleftrightarrow> c < d \<or> (c = d \<and> i < j)"
  by (simp_all add: less_eq_log_id_def less_log_id_def)

lemma log_id_le_clid: "a \<le> b \<Longrightarrow> clid a \<le> clid b" for a b :: "'c::linorder log_id"
  by (auto simp: less_eq_log_id_def)

definition opt_index :: "'c log_id option \<Rightarrow> nat option" where
  "opt_index x = map_option idx x"

definition next_index :: "'c log_id option \<Rightarrow> nat" where
  "next_index x = (case x of None \<Rightarrow> 0 | Some l \<Rightarrow> idx l + 1)"

definition opt_committed_leader_id :: "'c log_id option \<Rightarrow> 'c option" where
  "opt_committed_leader_id x = map_option clid x"

text \<open>The extension of \<open>Option<u64>\<close>; the outer \<^const>\<open>None\<close> of \<open>prev_index\<close> is its panic.\<close>

definition index_next_index :: "nat option \<Rightarrow> nat" where
  "index_next_index x = (case x of None \<Rightarrow> 0 | Some v \<Rightarrow> v + 1)"

definition prev_index :: "nat option \<Rightarrow> nat option option" where
  "prev_index x = (case x of None \<Rightarrow> None | Some v \<Rightarrow> Some (if v = 0 then None else Some (v - 1)))"

lemma next_index_simps [simp, state_simps]:
  "next_index None = 0"
  "next_index (Some l) = idx l + 1"
  by (simp_all add: next_index_def)

lemma opt_index_simps [simp, state_simps]:
  "opt_index None = None"
  "opt_index (Some l) = Some (idx l)"
  by (simp_all add: opt_index_def)

lemma opt_committed_leader_id_simps [simp, state_simps]:
  "opt_committed_leader_id None = None"
  "opt_committed_leader_id (Some l) = Some (clid l)"
  by (simp_all add: opt_committed_leader_id_def)

lemma prev_of_next_index:
  "prev_index (Some (index_next_index x)) = Some x"
  by (cases x) (simp_all add: prev_index_def index_next_index_def)

section \<open>Ranges of log ids\<close>

record 'c log_id_range =
  r_prev :: "'c log_id option"
  r_last :: "'c log_id option"

definition log_id_range_new :: "'c log_id option \<Rightarrow> 'c log_id option \<Rightarrow> 'c log_id_range" where
  "log_id_range_new prev lst = \<lparr> r_prev = prev, r_last = lst \<rparr>"

definition log_id_range_validate :: "'c::linorder log_id_range \<Rightarrow> bool" where
  "log_id_range_validate r \<longleftrightarrow> r_prev r \<le> r_last r"

lemma log_id_range_new_simps [simp, state_simps]:
  "r_prev (log_id_range_new p l) = p"
  "r_last (log_id_range_new p l) = l"
  by (simp_all add: log_id_range_new_def)

end
