(* ===== verification/LogIdList.thy ===== *)
theory LogIdList
  imports LogIds
begin

text \<open>
  The compact list of log ids that the engine keeps in memory (\<open>engine/log_id_list.rs\<close>,
  \<open>engine/leader_log_ids.rs\<close>, \<open>engine/leader_log_ids_iter.rs\<close>) and the hint that a
  follower derives from it (\<open>raft/message/conflict_hint.rs\<close>).  The list holds the last
  purged log id and the last log id of each leader.  What it stands for is the partial function
  \<open>log_view\<close> from an index to the leader of the entry there; every operation is proved to
  implement its counterpart on that function.
\<close>

section \<open>The list and its operations\<close>

record 'c log_id_list =
  purged :: "'c log_id option"
  key_log_ids :: "'c log_id list"

definition log_id_list_default :: "'c log_id_list" where
  "log_id_list_default = \<lparr> purged = None, key_log_ids = [] \<rparr>"

definition log_id_list_new :: "'c log_id option \<Rightarrow> 'c log_id list \<Rightarrow> 'c log_id_list" where
  "log_id_list_new p ks = \<lparr> purged = p, key_log_ids = ks \<rparr>"

definition push_key_log_id :: "'c log_id list \<Rightarrow> 'c log_id \<Rightarrow> 'c log_id list" where
  "push_key_log_id res log_id =
     (if res \<noteq> [] \<and> clid (last res) = clid log_id
      then butlast res @ [log_id]
      else res @ [log_id])"

text \<open>
  \<open>get_key_log_ids\<close> reads log ids from the storage \<open>sto\<close>, which the application
  implements: \<open>Inl e\<close> is a storage error.  The loop over the recursion stack need not end for
  an arbitrary storage, so it is a partial function.
\<close>

partial_function (option) get_key_log_ids_loop ::
  "(nat \<Rightarrow> 'e + 'c log_id) \<Rightarrow> ('c log_id \<times> 'c log_id) list \<Rightarrow> 'c log_id list \<Rightarrow> ('e + 'c log_id list) option"
  where
  "get_key_log_ids_loop sto stack res =
     (case stack of
        [] \<Rightarrow> Some (Inr res)
      | (fst_id, lst) # stack' \<Rightarrow>
          if clid fst_id = clid lst then
            get_key_log_ids_loop sto stack' (push_key_log_id res lst)
          else if idx fst_id + 1 = idx lst then
            get_key_log_ids_loop sto stack' (push_key_log_id (push_key_log_id res fst_id) lst)
          else
            (case sto ((idx fst_id + idx lst) div 2) of
               Inl e \<Rightarrow> Some (Inl e)
             | Inr mid \<Rightarrow>
                 if clid fst_id = clid mid then
                   get_key_log_ids_loop sto ((mid, lst) # stack') res
                 else
                   get_key_log_ids_loop sto ((fst_id, mid) # (mid, lst) # stack') res))"

definition get_key_log_ids ::
  "(nat \<Rightarrow> 'e + 'c log_id) \<Rightarrow> 'c log_id \<Rightarrow> 'c log_id \<Rightarrow> ('e + 'c log_id list) option" where
  "get_key_log_ids sto fst_id lst = get_key_log_ids_loop sto [(fst_id, lst)] []"

definition first_index :: "'c log_id_list \<Rightarrow> nat" where
  "first_index l = next_index (purged l)"

definition log_last :: "'c log_id_list \<Rightarrow> 'c log_id option" where
  "log_last l = (case last_opt (key_log_ids l) of Some k \<Rightarrow> Some k | None \<Rightarrow> purged l)"

definition log_append :: "'c log_id_list \<Rightarrow> 'c log_id \<Rightarrow> 'c log_id_list" where
  "log_append l new = l \<lparr> key_log_ids := push_key_log_id (key_log_ids l) new \<rparr>"

definition log_extend :: "'c log_id_list \<Rightarrow> 'c log_id list \<Rightarrow> 'c log_id_list" where
  "log_extend l ids = fold (\<lambda>i acc. log_append acc i) ids l"

definition extend_from_same_leader :: "'c log_id_list \<Rightarrow> 'c log_id list \<Rightarrow> 'c log_id_list" where
  "extend_from_same_leader l ids =
     (case ids of
        [] \<Rightarrow> l
      | first # rest \<Rightarrow>
          (let l1 = log_append l first in
           if rest = [] then l1
           else if last rest \<noteq> first then log_append l1 (last rest) else l1))"

definition log_truncate :: "'c log_id_list \<Rightarrow> nat \<Rightarrow> 'c log_id_list" where
  "log_truncate l at =
     (if at = 0 then l \<lparr> key_log_ids := [] \<rparr>
      else
        (let ks = key_log_ids l;
             cut = (\<lambda>i.
               let end_after_truncate = (if i = 0 then first_index l else idx (ks ! (i - 1)) + 1)
               in if at > end_after_truncate
                  then l \<lparr> key_log_ids := take i ks @ [LogId (clid (ks ! i)) (at - 1)] \<rparr>
                  else l \<lparr> key_log_ids := take i ks \<rparr>)
         in case binary_search_by_key idx ks at of
              Inr i \<Rightarrow> cut i
            | Inl i \<Rightarrow> if i = length ks then l else cut i))"

definition log_purge :: "'c log_id_list \<Rightarrow> 'c log_id \<Rightarrow> 'c log_id_list" where
  "log_purge l up_to =
     (let upto_index = idx up_to in
      if upto_index \<ge> next_index (log_last l) then \<lparr> purged = Some up_to, key_log_ids = [] \<rparr>
      else if upto_index < first_index l then l
      else
        (case binary_search_by_key idx (key_log_ids l) upto_index of
           Inr i \<Rightarrow> \<lparr> purged = Some up_to, key_log_ids = drop (i + 1) (key_log_ids l) \<rparr>
         | Inl i \<Rightarrow> \<lparr> purged = Some up_to, key_log_ids = drop i (key_log_ids l) \<rparr>))"

text \<open>\<open>ref_at\<close> and \<open>get\<close>; the \<open>unwrap\<close> of the purged log id cannot fail, see \<open>first_index\<close>.\<close>

definition ref_at :: "'c log_id_list \<Rightarrow> nat \<Rightarrow> 'c log_id option" where
  "ref_at l index =
     (if index < first_index l then
        (case purged l of
           Some p \<Rightarrow> if index = idx p then Some p else None
         | None \<Rightarrow> None)
      else
        (let ks = key_log_ids l;
             within = (\<lambda>i.
               let range_start = (if i = 0 then first_index l else idx (ks ! (i - 1)) + 1)
               in if index < range_start then None else Some (LogId (clid (ks ! i)) index))
         in case binary_search_by_key idx ks index of
              Inr i \<Rightarrow> within i
            | Inl i \<Rightarrow> if i \<ge> length ks then None else within i))"

definition log_get :: "'c log_id_list \<Rightarrow> nat \<Rightarrow> 'c log_id option" where
  "log_get l index = ref_at l index"

definition get_at_or_before :: "'c::linorder log_id_list \<Rightarrow> 'c \<Rightarrow> nat \<Rightarrow> 'c log_id option" where
  "get_at_or_before l leader index =
     do {
       lst \<leftarrow> (case binary_search_by_key clid (key_log_ids l) leader of
                  Inr i \<Rightarrow> Some (key_log_ids l ! i)
                | Inl _ \<Rightarrow> purged l);
       if clid lst \<noteq> leader then None
       else do {
         log_id \<leftarrow> log_get l (min (idx lst) index);
         if clid log_id \<noteq> leader then None else Some log_id
       }
     }"

definition log_first :: "'c log_id_list \<Rightarrow> 'c log_id option" where
  "log_first l = map_option (\<lambda>k. LogId (clid k) (first_index l)) (first_opt (key_log_ids l))"

definition last_committed_leader_id :: "'c log_id_list \<Rightarrow> 'c option" where
  "last_committed_leader_id l = map_option clid (log_last l)"

section \<open>The log ids of one leader\<close>

record 'c leader_log_ids =
  ll_committed_leader_id :: 'c
  ll_first :: nat
  ll_last :: nat

definition leader_log_ids_new :: "'c \<Rightarrow> nat \<Rightarrow> nat \<Rightarrow> 'c leader_log_ids" where
  "leader_log_ids_new c f t = \<lparr> ll_committed_leader_id = c, ll_first = f, ll_last = t \<rparr>"

definition leader_log_ids_new_single :: "'c log_id \<Rightarrow> 'c leader_log_ids" where
  "leader_log_ids_new_single l =
     \<lparr> ll_committed_leader_id = clid l, ll_first = idx l, ll_last = idx l \<rparr>"

definition ll_first_ref :: "'c leader_log_ids \<Rightarrow> 'c log_id" where
  "ll_first_ref r = LogId (ll_committed_leader_id r) (ll_first r)"

definition ll_last_ref :: "'c leader_log_ids \<Rightarrow> 'c log_id" where
  "ll_last_ref r = LogId (ll_committed_leader_id r) (ll_last r)"

definition leader_log_ids_len :: "'c leader_log_ids \<Rightarrow> nat" where
  "leader_log_ids_len r = (if ll_first r > ll_last r then 0 else ll_last r - ll_first r + 1)"

record 'c leader_log_ids_iter =
  it_committed_leader_id :: 'c
  it_start :: nat
  it_end :: nat

definition leader_log_ids_into_iter :: "'c leader_log_ids \<Rightarrow> 'c leader_log_ids_iter" where
  "leader_log_ids_into_iter r =
     \<lparr> it_committed_leader_id = ll_committed_leader_id r, it_start = ll_first r, it_end = ll_last r + 1 \<rparr>"

definition iter_next :: "'c leader_log_ids_iter \<Rightarrow> 'c log_id option \<times> 'c leader_log_ids_iter" where
  "iter_next it =
     (if it_start it \<ge> it_end it then (None, it)
      else (Some (LogId (it_committed_leader_id it) (it_start it)), it \<lparr> it_start := it_start it + 1 \<rparr>))"

definition iter_next_back :: "'c leader_log_ids_iter \<Rightarrow> 'c log_id option \<times> 'c leader_log_ids_iter" where
  "iter_next_back it =
     (if it_start it \<ge> it_end it then (None, it)
      else (Some (LogId (it_committed_leader_id it) (it_end it - 1)), it \<lparr> it_end := it_end it - 1 \<rparr>))"

definition iter_len :: "'c leader_log_ids_iter \<Rightarrow> nat" where
  "iter_len it = (if it_start it \<ge> it_end it then 0 else it_end it - it_start it)"

definition by_last_leader :: "'c log_id_list \<Rightarrow> 'c leader_log_ids option" where
  "by_last_leader l =
     (case log_last l of
        None \<Rightarrow> None
      | Some lst \<Rightarrow>
          (let n = length (key_log_ids l);
               first = (if n = 0 then idx lst
                        else if n = 1 then first_index l
                        else idx (key_log_ids l ! (n - 2)) + 1)
           in Some (leader_log_ids_new (clid lst) first (idx lst))))"

section \<open>The hint of a follower\<close>

definition hint_compare_step ::
  "'c::linorder log_id_list \<Rightarrow> 'c log_id \<Rightarrow> 'c log_id option \<times> nat \<Rightarrow> 'c log_id option \<times> nat" where
  "hint_compare_step list sample acc =
     (case acc of (common, divergence) \<Rightarrow>
       let index = idx sample;
           (common, divergence) =
             (case get_at_or_before list (clid sample) index of
                Some shared \<Rightarrow>
                  (max common (Some shared),
                   if idx shared < index then min divergence (idx shared + 1) else divergence)
              | None \<Rightarrow> (common, divergence))
       in case log_get list index of
            None \<Rightarrow> (common, divergence)
          | Some log_id \<Rightarrow>
              (common, if log_id \<noteq> sample then min divergence index else divergence))"

definition hint_compare ::
  "'c::linorder log_id list \<Rightarrow> 'c log_id_list \<Rightarrow> 'c log_id option \<times> nat" where
  "hint_compare log_ids list =
     fold (hint_compare_step list) log_ids (None, next_index (last_opt log_ids))"

section \<open>What the list stands for\<close>

definition log_view :: "'c log_id_list \<Rightarrow> nat \<Rightarrow> 'c option" where
  "log_view l i =
     (if i < first_index l then None
      else map_option clid (find (\<lambda>k. i \<le> idx k) (key_log_ids l)))"

definition key_before :: "'c::linorder log_id \<Rightarrow> 'c log_id \<Rightarrow> bool" where
  "key_before a b \<longleftrightarrow> idx a < idx b \<and> clid a < clid b"

definition log_wf :: "'c::linorder log_id_list \<Rightarrow> bool" where
  "log_wf l \<longleftrightarrow>
     sorted_wrt key_before (key_log_ids l) \<and>
     (\<forall>k \<in> set (key_log_ids l). first_index l \<le> idx k) \<and>
     (case purged l of None \<Rightarrow> True | Some p \<Rightarrow> \<forall>k \<in> set (key_log_ids l). clid p \<le> clid k)"

lemma first_index_simps [simp, state_simps]:
  "first_index (l \<lparr> key_log_ids := ks \<rparr>) = first_index l"
  "first_index \<lparr> purged = p, key_log_ids = ks \<rparr> = next_index p"
  by (simp_all add: first_index_def)

lemma log_last_simps [simp, state_simps]:
  "log_last (l \<lparr> key_log_ids := ks @ [k] \<rparr>) = Some k"
  "log_last \<lparr> purged = p, key_log_ids = [] \<rparr> = p"
  "key_log_ids l = [] \<Longrightarrow> log_last l = purged l"
  "key_log_ids l \<noteq> [] \<Longrightarrow> log_last l = Some (last (key_log_ids l))"
  by (simp_all add: log_last_def)

lemma log_wf_sorted:
  assumes "log_wf l"
  shows "sorted (map idx (key_log_ids l))" "sorted (map clid (key_log_ids l))"
    "distinct (map clid (key_log_ids l))"
proof -
  have *: "sorted_wrt key_before ks \<Longrightarrow>
      sorted (map idx ks) \<and> sorted (map clid ks) \<and> distinct (map clid ks)" for ks :: "'a log_id list"
    by (induction ks) (auto simp: key_before_def intro: less_imp_le)
  show "sorted (map idx (key_log_ids l))" "sorted (map clid (key_log_ids l))"
    "distinct (map clid (key_log_ids l))"
    using *[of "key_log_ids l"] assms by (auto simp: log_wf_def)
qed

text \<open>The position that a binary search by index finds, and the key there.\<close>

definition key_pos :: "'c log_id list \<Rightarrow> nat \<Rightarrow> nat" where
  "key_pos ks i = length (takeWhile (\<lambda>k. idx k < i) ks)"

lemma key_pos_simps [simp]:
  "key_pos [] i = 0"
  "key_pos (k # ks) i = (if idx k < i then Suc (key_pos ks i) else 0)"
  by (simp_all add: key_pos_def)

lemma binary_search_key_pos:
  "binary_search_by_key idx ks i =
   (if key_pos ks i < length ks \<and> idx (ks ! key_pos ks i) = i then Inr (key_pos ks i) else Inl (key_pos ks i))"
  by (simp add: binary_search_by_key_def key_pos_def Let_def)

lemma find_key_pos:
  "find (\<lambda>k. i \<le> idx k) ks = (if key_pos ks i < length ks then Some (ks ! key_pos ks i) else None)"
  by (induction ks) (auto simp: key_pos_def)

lemma key_pos_take: "take (key_pos ks i) ks = takeWhile (\<lambda>k. idx k < i) ks"
  unfolding key_pos_def by (metis takeWhile_eq_take)

lemma key_pos_before: "j < key_pos ks i \<Longrightarrow> idx (ks ! j) < i"
  unfolding key_pos_def by (metis (mono_tags, lifting) nth_mem set_takeWhileD takeWhile_nth)

lemma key_pos_at: "key_pos ks i < length ks \<Longrightarrow> i \<le> idx (ks ! key_pos ks i)"
  unfolding key_pos_def using nth_length_takeWhile by fastforce

lemma key_pos_le: "key_pos ks i \<le> length ks"
  by (simp add: key_pos_def length_takeWhile_le)

lemma key_pos_last:
  assumes "sorted (map idx ks)" "ks \<noteq> []"
  shows "key_pos ks i < length ks \<longleftrightarrow> i \<le> idx (last ks)"
proof
  assume "i \<le> idx (last ks)"
  show "key_pos ks i < length ks"
  proof (rule ccontr)
    assume "\<not> key_pos ks i < length ks"
    then have "length ks - 1 < key_pos ks i" using assms(2) by (cases ks) auto
    then have "idx (ks ! (length ks - 1)) < i" by (rule key_pos_before)
    then show False using \<open>i \<le> idx (last ks)\<close> assms(2) by (simp add: last_conv_nth)
  qed
next
  assume *: "key_pos ks i < length ks"
  then have "idx (ks ! key_pos ks i) \<le> idx (ks ! (length ks - 1))"
    using assms by (auto simp: sorted_iff_nth_mono)
  then show "i \<le> idx (last ks)"
    using key_pos_at[OF *] assms(2) by (simp add: last_conv_nth)
qed

lemma log_view_key_pos:
  "log_view l i =
   (if first_index l \<le> i \<and> key_pos (key_log_ids l) i < length (key_log_ids l)
    then Some (clid (key_log_ids l ! key_pos (key_log_ids l) i)) else None)"
  by (simp add: log_view_def find_key_pos)

theorem log_view_dom:
  assumes "log_wf l"
  shows "log_view l i \<noteq> None \<longleftrightarrow> first_index l \<le> i \<and> i < next_index (log_last l)"
proof (cases "key_log_ids l = []")
  case True
  then show ?thesis by (simp add: log_view_def first_index_def)
next
  case False
  then show ?thesis
    using key_pos_last[OF log_wf_sorted(1)[OF assms] False, of i]
    by (simp add: log_view_key_pos less_Suc_eq_le)
qed

lemma log_view_mono:
  assumes "log_wf l" "i \<le> j" "log_view l i = Some a" "log_view l j = Some b"
  shows "a \<le> b"
proof -
  let ?ks = "key_log_ids l"
  have i: "key_pos ?ks i < length ?ks" "a = clid (?ks ! key_pos ?ks i)"
    and j: "key_pos ?ks j < length ?ks" "b = clid (?ks ! key_pos ?ks j)"
    using assms(3,4) by (auto simp: log_view_key_pos split: if_splits)
  have "key_pos ?ks i \<le> key_pos ?ks j"
    using key_pos_before[of "key_pos ?ks j" ?ks i] key_pos_at[OF j(1)] assms(2) by fastforce
  then show ?thesis
    using log_wf_sorted(2)[OF assms(1)] i j by (auto simp: sorted_iff_nth_mono)
qed

lemma key_pos_key:
  assumes "sorted_wrt key_before ks" "j < length ks"
  shows "key_pos ks (idx (ks ! j)) = j"
proof (rule antisym)
  show "key_pos ks (idx (ks ! j)) \<le> j"
    using key_pos_before[of j ks "idx (ks ! j)"] by (meson leI less_irrefl)
  show "j \<le> key_pos ks (idx (ks ! j))"
  proof (rule ccontr)
    assume *: "\<not> j \<le> key_pos ks (idx (ks ! j))"
    then have "key_before (ks ! key_pos ks (idx (ks ! j))) (ks ! j)"
      using assms by (auto simp: sorted_wrt_iff_nth_less)
    then show False using key_pos_at[of ks "idx (ks ! j)"] * assms(2) by (auto simp: key_before_def)
  qed
qed

lemma log_view_key:
  assumes "log_wf l" "k \<in> set (key_log_ids l)"
  shows "log_view l (idx k) = Some (clid k)"
proof -
  obtain j where j: "j < length (key_log_ids l)" "k = key_log_ids l ! j"
    using assms(2) by (auto simp: in_set_conv_nth)
  have "key_pos (key_log_ids l) (idx k) = j"
    using key_pos_key[of "key_log_ids l" j] assms(1) j by (simp add: log_wf_def)
  then show ?thesis using assms j by (auto simp: log_view_key_pos log_wf_def)
qed

section \<open>Reading the list\<close>

text \<open>
  \<open>ref_at\<close> is exactly the abstract log, and at the purge boundary the purged log id: the test
  of the range start never fails on a well-formed list.
\<close>

theorem ref_at_view:
  assumes "log_wf l"
  shows "ref_at l i =
    (if i < first_index l
     then (case purged l of Some p \<Rightarrow> if i = idx p then Some p else None | None \<Rightarrow> None)
     else map_option (\<lambda>c. LogId c i) (log_view l i))"
proof (cases "i < first_index l")
  case True
  then show ?thesis by (simp add: ref_at_def)
next
  case False
  let ?ks = "key_log_ids l" and ?p = "key_pos (key_log_ids l) i"
  have start: "\<not> i < (if ?p = 0 then first_index l else idx (?ks ! (?p - 1)) + 1)"
    using False key_pos_before[of "?p - 1" ?ks i] by auto
  show ?thesis
    using False start by (auto simp: ref_at_def log_view_key_pos binary_search_key_pos Let_def key_pos_le not_less)
qed

lemma log_get_clid_idx:
  assumes "log_wf l" "log_get l i = Some x"
  shows "idx x = i"
  using assms by (auto simp: log_get_def ref_at_view split: if_splits option.splits)

lemma log_get_view:
  assumes "log_wf l" "first_index l \<le> i"
  shows "log_get l i = map_option (\<lambda>c. LogId c i) (log_view l i)"
  using assms by (simp add: log_get_def ref_at_view)

lemma log_get_mono:
  assumes "log_wf l" "i \<le> j" "log_get l i = Some a" "log_get l j = Some b"
  shows "clid a \<le> clid b"
proof (cases "i < first_index l")
  case True
  then obtain p where p: "purged l = Some p" "i = idx p" "a = p"
    using assms by (auto simp: log_get_def ref_at_view split: option.splits if_splits)
  show ?thesis
  proof (cases "j < first_index l")
    case True
    then show ?thesis using assms p by (auto simp: log_get_def ref_at_view split: if_splits)
  next
    case False
    then obtain c where "log_view l j = Some c" "b = LogId c j"
      using assms by (auto simp: log_get_view)
    moreover have "clid p \<le> c"
      using calculation(1) assms(1) p(1)
      by (auto simp: log_view_key_pos log_wf_def split: if_splits)
    ultimately show ?thesis using p by simp
  qed
next
  case False
  then show ?thesis using assms log_view_mono[OF assms(1,2)] by (auto simp: log_get_view)
qed

lemma log_get_last:
  assumes "log_wf l" "log_last l = Some x"
  shows "log_get l (idx x) = Some x"
proof (cases "key_log_ids l = []")
  case True
  then show ?thesis using assms by (simp add: log_get_def ref_at_view first_index_def)
next
  case False
  then have "first_index l \<le> idx x" using assms by (auto simp: log_wf_def)
  moreover have "x \<in> set (key_log_ids l)" using False assms(2) by auto
  ultimately show ?thesis using log_view_key[OF assms(1)] assms(1) by (simp add: log_get_view)
qed

lemma first_index_le_next:
  assumes "log_wf l"
  shows "first_index l \<le> next_index (log_last l)"
proof (cases "key_log_ids l = []")
  case False
  then have "first_index l \<le> idx (last (key_log_ids l))" using assms by (auto simp: log_wf_def)
  then show ?thesis using False by simp
qed (simp add: first_index_def)

theorem log_last_greatest:
  assumes "log_wf l" "log_get l i = Some x"
  shows "Some x \<le> log_last l \<and> i < next_index (log_last l)"
proof -
  have idx: "idx x = i" using log_get_clid_idx[OF assms] .
  have lt: "i < next_index (log_last l)"
  proof (cases "i < first_index l")
    case True
    then show ?thesis using first_index_le_next[OF assms(1)] by simp
  next
    case False
    then show ?thesis using assms log_view_dom[OF assms(1), of i] by (auto simp: log_get_view)
  qed
  then obtain y where y: "log_last l = Some y" by (cases "log_last l") auto
  then have "i \<le> idx y" using lt by simp
  then have "clid x \<le> clid y" using log_get_mono[OF assms(1) _ assms(2) log_get_last[OF assms(1) y]] by simp
  then have "x \<le> y" using idx \<open>i \<le> idx y\<close> by (cases x; cases y) auto
  then show ?thesis using y lt by simp
qed

section \<open>Appending\<close>

lemma log_append_simps [simp, state_simps]:
  "purged (log_append l x) = purged l"
  "first_index (log_append l x) = first_index l"
  "log_last (log_append l x) = Some x"
  by (simp_all add: log_append_def push_key_log_id_def)

lemma push_key_idem: "push_key_log_id (push_key_log_id ks x) x = push_key_log_id ks x"
  by (simp add: push_key_log_id_def)

lemma push_key_same: "clid x = clid y \<Longrightarrow> push_key_log_id (push_key_log_id ks x) y = push_key_log_id ks y"
  by (auto simp: push_key_log_id_def butlast_append)

definition can_append :: "'c::linorder log_id_list \<Rightarrow> 'c log_id \<Rightarrow> bool" where
  "can_append l x \<longleftrightarrow>
     next_index (log_last l) \<le> idx x \<and>
     (case log_last l of None \<Rightarrow> True | Some y \<Rightarrow> clid y \<le> clid x)"

lemma key_before_trans: "key_before a b \<Longrightarrow> key_before b c \<Longrightarrow> key_before a c"
  by (auto simp: key_before_def)

lemma log_append_wf:
  assumes "log_wf l" "can_append l x"
  shows "log_wf (log_append l x)"
proof (cases "key_log_ids l" rule: rev_cases)
  case Nil
  then show ?thesis using assms
    by (auto simp: log_wf_def log_append_def push_key_log_id_def can_append_def first_index_def
        split: option.splits)
next
  case (snoc bs z)
  have z: "idx z < idx x" "clid z \<le> clid x" "first_index l \<le> idx x"
    using assms(2) snoc first_index_le_next[OF assms(1)] by (auto simp: can_append_def)
  have sorted: "sorted_wrt key_before bs" "\<forall>k \<in> set bs. key_before k z"
    using assms(1) snoc by (auto simp: log_wf_def sorted_wrt_append)
  then have before: "\<forall>k \<in> set bs. key_before k x" using z by (force simp: key_before_def)
  have purged: "case purged l of None \<Rightarrow> True | Some p \<Rightarrow> clid p \<le> clid x"
    using assms(1) snoc z(2) by (auto simp: log_wf_def split: option.splits intro: order_trans)
  show ?thesis
  proof (cases "clid z = clid x")
    case True
    then show ?thesis using assms(1) snoc before sorted z purged
      by (auto simp: log_wf_def log_append_def push_key_log_id_def sorted_wrt_append
          split: option.splits)
  next
    case False
    then have "key_before z x" using z by (auto simp: key_before_def)
    then show ?thesis using assms(1) snoc False before sorted z purged
      by (auto simp: log_wf_def log_append_def push_key_log_id_def sorted_wrt_append
          split: option.splits)
  qed
qed

lemma find_append:
  "find P (xs @ ys) = (case find P xs of None \<Rightarrow> find P ys | Some x \<Rightarrow> Some x)"
  by (induction xs) auto

theorem log_append_view:
  assumes "log_wf l" "can_append l x"
  shows "log_view (log_append l x) i =
    (if next_index (log_last l) \<le> i \<and> i \<le> idx x then Some (clid x) else log_view l i)"
proof (cases "key_log_ids l" rule: rev_cases)
  case Nil
  then show ?thesis using assms(2)
    by (auto simp: log_view_def log_append_def push_key_log_id_def first_index_def can_append_def)
next
  case (snoc bs z)
  have z: "idx z < idx x" using assms(2) snoc by (simp add: can_append_def)
  have fi: "first_index l \<le> idx z + 1" using first_index_le_next[OF assms(1)] snoc by simp
  have "\<forall>k \<in> set bs. idx k < idx z"
    using assms(1) snoc by (auto simp: log_wf_def sorted_wrt_append key_before_def)
  then have none: "find (\<lambda>k. i \<le> idx k) bs = None" if "idx z < i"
    using that by (auto simp: find_None_iff)
  show ?thesis
    using snoc z fi none
    by (auto simp: log_view_def log_append_def push_key_log_id_def find_append Suc_le_eq
        split: option.splits)
qed

lemma log_append_get_new:
  assumes "log_wf l" "can_append l x"
  shows "log_get (log_append l x) (idx x) = Some x"
  using log_get_last[OF log_append_wf[OF assms]] by simp

text \<open>Log ids that follow the log one by one.\<close>

fun consecutive_from :: "nat \<Rightarrow> 'c log_id list \<Rightarrow> bool" where
  "consecutive_from n [] \<longleftrightarrow> True"
| "consecutive_from n (x # xs) \<longleftrightarrow> idx x = n \<and> consecutive_from (n + 1) xs"

definition can_extend :: "'c::linorder log_id_list \<Rightarrow> 'c log_id list \<Rightarrow> bool" where
  "can_extend l ids \<longleftrightarrow>
     consecutive_from (next_index (log_last l)) ids \<and>
     sorted ((case log_last l of None \<Rightarrow> [] | Some y \<Rightarrow> [clid y]) @ map clid ids)"

lemma can_extend_Cons:
  "can_extend l (x # xs) \<longleftrightarrow> can_append l x \<and> idx x = next_index (log_last l) \<and> can_extend (log_append l x) xs"
  by (auto simp: can_extend_def can_append_def split: option.splits intro: order_trans)

lemma log_extend_simps [simp]:
  "log_extend l [] = l"
  "log_extend l (x # xs) = log_extend (log_append l x) xs"
  by (simp_all add: log_extend_def)

lemma log_extend_append: "log_extend l (xs @ ys) = log_extend (log_extend l xs) ys"
  by (simp add: log_extend_def)

lemma log_extend_wf: "log_wf l \<Longrightarrow> can_extend l ids \<Longrightarrow> log_wf (log_extend l ids)"
  by (induction ids arbitrary: l) (simp_all add: can_extend_Cons log_append_wf)

lemma log_extend_purged [simp, state_simps]: "purged (log_extend l ids) = purged l"
  by (induction ids arbitrary: l) simp_all

lemma log_extend_first_index [simp, state_simps]: "first_index (log_extend l ids) = first_index l"
  by (simp add: first_index_def)

lemma log_extend_last [state_simps]:
  "log_last (log_extend l ids) = (if ids = [] then log_last l else Some (last ids))"
  by (induction ids arbitrary: l) simp_all

theorem log_extend_view:
  assumes "log_wf l" "can_extend l ids"
  shows "log_view (log_extend l ids) i =
    (let n = next_index (log_last l) in
     if n \<le> i \<and> i < n + length ids then Some (clid (ids ! (i - n))) else log_view l i)"
  using assms
proof (induction ids arbitrary: l)
  case (Cons x xs)
  then have a: "can_append l x" "idx x = next_index (log_last l)" "can_extend (log_append l x) xs"
    by (simp_all add: can_extend_Cons)
  show ?case
    using Cons.IH[OF log_append_wf[OF Cons.prems(1) a(1)] a(3)] a(2)
      log_append_view[OF Cons.prems(1) a(1), of i]
    by (auto simp: Let_def nth_Cons' Suc_le_eq)
qed (auto simp: Let_def)

lemma log_extend_same_leader:
  assumes "\<forall>y \<in> set xs. clid y = clid x"
  shows "log_extend (log_append l x) xs = (if xs = [] then log_append l x else log_append l (last xs))"
  using assms
proof (induction xs arbitrary: x)
  case (Cons y ys)
  have "log_append (log_append l x) y = log_append l y"
    using Cons.prems by (simp add: log_append_def push_key_same)
  then show ?case using Cons by simp
qed simp

text \<open>Appending only the ends of a run of one leader is appending the whole run.\<close>

theorem extend_from_same_leader_eq:
  assumes "\<forall>x \<in> set ids. clid x = c"
  shows "extend_from_same_leader l ids = log_extend l ids"
proof (cases ids)
  case (Cons x xs)
  have same: "\<forall>y \<in> set xs. clid y = clid x" using assms Cons by simp
  have "log_append (log_append l x) (last xs) = log_append l (last xs)" if "xs \<noteq> []"
    using same that by (simp add: log_append_def push_key_same)
  then show ?thesis using Cons log_extend_same_leader[OF same]
    by (auto simp: extend_from_same_leader_def Let_def)
qed (simp add: extend_from_same_leader_def)

section \<open>Truncating\<close>

lemma log_wf_take:
  assumes "log_wf l"
  shows "log_wf (l \<lparr> key_log_ids := take n (key_log_ids l) \<rparr>)"
  using assms by (auto simp: log_wf_def sorted_wrt_take dest: in_set_takeD split: option.splits)

text \<open>The two outcomes of truncating inside the list, with the position that the search finds.\<close>

lemma log_truncate_cases:
  assumes "0 < at"
  shows "log_truncate l at =
    (let ks = key_log_ids l; p = key_pos ks at;
         start = (if p = 0 then first_index l else idx (ks ! (p - 1)) + 1)
     in if p = length ks then l
        else if at > start then l \<lparr> key_log_ids := take p ks @ [LogId (clid (ks ! p)) (at - 1)] \<rparr>
        else l \<lparr> key_log_ids := take p ks \<rparr>)"
  using assms by (auto simp: log_truncate_def binary_search_key_pos Let_def key_pos_le)

lemma log_truncate_first_index [simp, state_simps]:
  "purged (log_truncate l at) = purged l"
  "first_index (log_truncate l at) = first_index l"
  by (simp_all add: log_truncate_def first_index_def Let_def split: sum.split)

lemma log_truncate_wf_cut:
  assumes wf: "log_wf l" and p: "p < length (key_log_ids l)"
    and at: "(if p = 0 then first_index l else idx (key_log_ids l ! (p - 1)) + 1) < at"
  shows "log_wf (l \<lparr> key_log_ids := take p (key_log_ids l) @ [LogId (clid (key_log_ids l ! p)) (at - 1)] \<rparr>)"
proof -
  let ?ks = "key_log_ids l" and ?x = "LogId (clid (key_log_ids l ! p)) (at - 1)"
  have lt: "key_before k ?x" if k: "k \<in> set (take p ?ks)" for k
  proof -
    obtain j where j: "j < p" "k = ?ks ! j" using k p by (auto simp: in_set_conv_nth)
    have "idx (?ks ! j) \<le> idx (?ks ! (p - 1))"
      using log_wf_sorted(1)[OF wf] j p by (auto simp: sorted_iff_nth_mono)
    moreover have "key_before (?ks ! j) (?ks ! p)"
      using wf j p by (auto simp: log_wf_def sorted_wrt_iff_nth_less)
    ultimately show ?thesis using at j by (auto simp: key_before_def)
  qed
  have "first_index l \<le> at - 1"
  proof (cases "p = 0")
    case False
    then have "?ks ! (p - 1) \<in> set ?ks" using p by auto
    then have "first_index l \<le> idx (?ks ! (p - 1))" using wf by (auto simp: log_wf_def)
    then show ?thesis using at False by auto
  qed (use at in auto)
  moreover have "?ks ! p \<in> set ?ks" using p by auto
  ultimately show ?thesis using wf lt log_wf_take[OF wf, of p]
    by (auto simp: log_wf_def sorted_wrt_append split: option.splits)
qed

lemma log_truncate_wf:
  assumes "log_wf l"
  shows "log_wf (log_truncate l at)"
proof (cases "at = 0")
  case True
  then show ?thesis using assms by (auto simp: log_wf_def log_truncate_def split: option.splits)
next
  case False
  let ?ks = "key_log_ids l" and ?p = "key_pos (key_log_ids l) at"
  consider "?p = length ?ks" | "?p < length ?ks"
    using le_neq_implies_less[OF key_pos_le[of ?ks at]] by blast
  then show ?thesis
  proof cases
    case 1
    then show ?thesis using assms False by (simp add: log_truncate_cases Let_def)
  next
    case 2
    then show ?thesis
      using False log_wf_take[OF assms, of ?p] log_truncate_wf_cut[OF assms 2, of at]
      by (simp add: log_truncate_cases Let_def split del: if_split) (simp split: if_split)
  qed
qed

lemma find_split_at:
  assumes "i < at"
  shows "find (\<lambda>k. i \<le> idx k) ks =
    (case find (\<lambda>k. i \<le> idx k) (take (key_pos ks at) ks) of
       Some k \<Rightarrow> Some k
     | None \<Rightarrow> if key_pos ks at < length ks then Some (ks ! key_pos ks at) else None)"
  using assms by (induction ks) (auto simp: key_pos_simps split: option.splits)

lemma find_take_key_pos_None:
  "at \<le> i \<Longrightarrow> find (\<lambda>k. i \<le> idx k) (take (key_pos ks at) ks) = None"
  by (auto simp: find_None_iff key_pos_take dest!: set_takeWhileD)

theorem log_truncate_view:
  assumes "log_wf l"
  shows "log_view (log_truncate l at) i = (if i < at then log_view l i else None)"
proof (cases "at = 0")
  case True
  then show ?thesis by (simp add: log_truncate_def log_view_def)
next
  case False
  let ?ks = "key_log_ids l" and ?p = "key_pos (key_log_ids l) at"
  let ?found = "find (\<lambda>k. i \<le> idx k)"
  show ?thesis
  proof (cases "?p < length ?ks")
    case no_key: False
    then have p: "?p = length ?ks" using key_pos_le[of ?ks at] by linarith
    then have "?found ?ks = None" if "at \<le> i" using find_take_key_pos_None[OF that, of ?ks] by simp
    then show ?thesis using p False by (simp add: log_truncate_cases Let_def log_view_def)
  next
    case key: True
    show ?thesis
    proof (cases "(if ?p = 0 then first_index l else idx (?ks ! (?p - 1)) + 1) < at")
      case True
      then have "key_log_ids (log_truncate l at) = take ?p ?ks @ [LogId (clid (?ks ! ?p)) (at - 1)]"
        using key False by (simp add: log_truncate_cases Let_def)
      then show ?thesis using key False find_split_at[of i at ?ks] find_take_key_pos_None[of at i ?ks]
        by (cases "i < at") (auto simp: log_view_def find_append split: option.split)
    next
      case start: False
      then have keys: "key_log_ids (log_truncate l at) = take ?p ?ks"
        using key False by (simp add: log_truncate_cases Let_def)
      have "?found (take ?p ?ks) \<noteq> None" if i: "i < at" "first_index l \<le> i"
      proof -
        have "?p \<noteq> 0"
        proof
          assume "?p = 0"
          then show False using start i by simp
        qed
        then have "?ks ! (?p - 1) \<in> set (take ?p ?ks)" "i \<le> idx (?ks ! (?p - 1))"
          using key start i by (auto simp: in_set_conv_nth intro!: exI[of _ "?p - 1"])
        then show ?thesis by (auto simp: find_None_iff)
      qed
      then show ?thesis using keys find_split_at[of i at ?ks] find_take_key_pos_None[of at i ?ks]
        by (cases "i < at") (auto simp: log_view_def)
    qed
  qed
qed

lemma log_truncate_get:
  assumes "log_wf l" "first_index l \<le> i"
  shows "log_get (log_truncate l at) i = (if i < at then log_get l i else None)"
  using assms log_truncate_wf[OF assms(1), of at]
  by (simp add: log_get_view log_truncate_view)

lemma log_truncate_next_index:
  assumes "log_wf l" "first_index l \<le> at" "at \<le> next_index (log_last l)"
  shows "next_index (log_last (log_truncate l at)) = at"
proof -
  let ?l = "log_truncate l at" and ?n = "next_index (log_last (log_truncate l at))"
  have dom: "log_view ?l i \<noteq> None \<longleftrightarrow> first_index l \<le> i \<and> i < ?n" for i
    using log_view_dom[OF log_truncate_wf[OF assms(1)], of at i] by simp
  have dom': "log_view ?l i \<noteq> None \<longleftrightarrow> first_index l \<le> i \<and> i < at" for i
    using log_truncate_view[OF assms(1), of at i] log_view_dom[OF assms(1), of i] assms(3) by auto
  have "first_index l \<le> ?n" using first_index_le_next[OF log_truncate_wf[OF assms(1), of at]] by simp
  then show ?thesis
    using dom[of at] dom'[of at] dom[of ?n] dom'[of ?n] assms(2) by (cases rule: linorder_cases[of ?n at]) simp_all
qed

section \<open>Purging\<close>

definition can_purge :: "'c::linorder log_id_list \<Rightarrow> 'c log_id \<Rightarrow> bool" where
  "can_purge l x \<longleftrightarrow> log_get l (idx x) = Some x \<or> next_index (log_last l) \<le> idx x"

lemma log_purge_cases:
  assumes "log_wf l"
  shows "log_purge l x =
    (if idx x < first_index l then l
     else \<lparr> purged = Some x, key_log_ids = dropWhile (\<lambda>k. idx k \<le> idx x) (key_log_ids l) \<rparr>)"
proof -
  let ?ks = "key_log_ids l" and ?p = "key_pos (key_log_ids l) (idx x)"
  have sorted: "sorted_wrt key_before ?ks" using assms by (simp add: log_wf_def)
  have drop: "dropWhile (\<lambda>k. idx k \<le> i) ks =
      drop (if key_pos ks i < length ks \<and> idx (ks ! key_pos ks i) = i then key_pos ks i + 1 else key_pos ks i) ks"
    if "sorted_wrt key_before ks" for ks :: "'a log_id list" and i
    using that
  proof (induction ks)
    case (Cons k ks)
    have "dropWhile (\<lambda>k. idx k \<le> i) ks = ks" if "i \<le> idx k"
      using Cons.prems that by (cases ks) (auto simp: key_before_def)
    then show ?case using Cons by (auto simp: key_pos_def)
  qed (simp add: key_pos_def)
  have empty: "dropWhile (\<lambda>k. idx k \<le> idx x) ?ks = []" if "next_index (log_last l) \<le> idx x"
  proof (cases "?ks = []")
    case False
    have "idx k \<le> idx (last ?ks)" if "k \<in> set ?ks" for k
      using that log_wf_sorted(1)[OF assms] False
      by (auto simp: in_set_conv_nth sorted_iff_nth_mono last_conv_nth)
    then show ?thesis using that False by fastforce
  qed simp
  have "first_index l \<le> next_index (log_last l)" using first_index_le_next[OF assms] .
  then show ?thesis
    using empty drop[OF sorted, of "idx x"] by (auto simp: log_purge_def binary_search_key_pos Let_def)
qed

lemma find_dropWhile:
  assumes "\<And>k. Q k \<Longrightarrow> \<not> P k"
  shows "find P (dropWhile Q ks) = find P ks"
  using assms by (induction ks) auto

theorem log_purge_view:
  assumes "log_wf l"
  shows "log_view (log_purge l x) i =
    (if first_index l \<le> idx x \<and> i \<le> idx x then None else log_view l i)"
proof -
  have "find (\<lambda>k. i \<le> idx k) (dropWhile (\<lambda>k. idx k \<le> idx x) (key_log_ids l)) =
        find (\<lambda>k. i \<le> idx k) (key_log_ids l)" if "idx x < i"
    using that by (intro find_dropWhile) simp
  then show ?thesis by (simp add: log_purge_cases[OF assms] log_view_def)
qed

lemma dropWhile_idx_gt:
  assumes "k \<in> set (dropWhile (\<lambda>k. idx k \<le> i) ks)" "sorted (map idx ks)"
  shows "i < idx k"
  using assms by (induction ks) (fastforce split: if_splits)+

lemma log_purge_wf:
  assumes "log_wf l" "can_purge l x"
  shows "log_wf (log_purge l x)"
proof (cases "idx x < first_index l")
  case True
  then show ?thesis using assms by (simp add: log_purge_cases)
next
  case False
  let ?ks = "dropWhile (\<lambda>k. idx k \<le> idx x) (key_log_ids l)"
  have sub: "set ?ks \<subseteq> set (key_log_ids l)" by (meson set_dropWhileD subsetI)
  have gt: "idx x < idx k" if "k \<in> set ?ks" for k
    using that log_wf_sorted(1)[OF assms(1)] by (rule dropWhile_idx_gt)
  have sorted: "sorted_wrt key_before ?ks"
    using assms(1) by (auto simp: log_wf_def dropWhile_eq_drop intro: sorted_wrt_drop)
  have "clid x \<le> clid k" if "k \<in> set ?ks" for k
  proof -
    have k: "k \<in> set (key_log_ids l)" "idx x < idx k" using that sub gt by auto
    then have "idx k < next_index (log_last l)" "first_index l \<le> idx k"
      using log_view_dom[OF assms(1)] log_view_key[OF assms(1) k(1)] by auto
    then have "log_get l (idx x) = Some x" "log_get l (idx k) = Some k"
      using assms k log_view_key[OF assms(1) k(1)] by (auto simp: can_purge_def log_get_view)
    then show ?thesis using log_get_mono[OF assms(1)] k(2) by (meson less_imp_le)
  qed
  then show ?thesis using False sorted gt by (auto simp: log_purge_cases[OF assms(1)] log_wf_def Suc_le_eq)
qed

section \<open>The last log id of a leader before an index\<close>

lemma log_get_convex:
  assumes "log_wf l" "log_get l j \<noteq> None" "j \<le> m" "m \<le> e" "log_get l e \<noteq> None"
  shows "log_get l m \<noteq> None"
proof (cases "m < first_index l")
  case True
  then show ?thesis using assms
    by (auto simp: log_get_def ref_at_view first_index_def split: option.splits if_splits)
next
  case False
  then have "log_view l e \<noteq> None" using assms(1,4,5) log_get_view[OF assms(1), of e] by auto
  then have "log_view l m \<noteq> None"
    using False assms(4) log_view_dom[OF assms(1), of m] log_view_dom[OF assms(1), of e] by simp
  then show ?thesis using False assms(1) by (simp add: log_get_view)
qed

definition is_run_end :: "'c log_id_list \<Rightarrow> 'c \<Rightarrow> nat \<Rightarrow> bool" where
  "is_run_end l c e \<longleftrightarrow>
     (\<exists>k. log_get l e = Some k \<and> clid k = c) \<and>
     (\<forall>j y. log_get l j = Some y \<and> clid y = c \<longrightarrow> j \<le> e)"

lemma log_get_leader_key:
  assumes "log_wf l" "log_get l j = Some y" "first_index l \<le> j"
  shows "\<exists>k \<in> set (key_log_ids l). clid k = clid y \<and> j \<le> idx k"
  using assms key_pos_at[of "key_log_ids l" j]
  by (auto simp: log_get_view log_view_key_pos split: if_splits intro!: bexI[of _ "_ ! key_pos _ _"])

lemma is_run_end_key:
  assumes "log_wf l" "k \<in> set (key_log_ids l)"
  shows "is_run_end l (clid k) (idx k)"
proof -
  have fi: "first_index l \<le> idx k" using assms by (auto simp: log_wf_def)
  have "log_get l (idx k) = Some k"
    using log_view_key[OF assms] log_get_view[OF assms(1) fi] by simp
  moreover have "j \<le> idx k" if y: "log_get l j = Some y" "clid y = clid k" for j y
  proof (cases "j < first_index l")
    case False
    then obtain k' where "k' \<in> set (key_log_ids l)" "clid k' = clid k" "j \<le> idx k'"
      using log_get_leader_key[OF assms(1) y(1)] y(2) by auto
    moreover from this have "k' = k"
      using log_wf_sorted(3)[OF assms(1)] assms(2) by (metis distinct_map inj_onD)
    ultimately show ?thesis by simp
  qed (use fi in simp)
  ultimately show ?thesis by (auto simp: is_run_end_def)
qed

lemma run_end_select:
  assumes "log_wf l" "is_run_end l c e"
  shows "(case log_get l (min e i) of None \<Rightarrow> None | Some y \<Rightarrow> if clid y \<noteq> c then None else Some y) = Some x \<longleftrightarrow>
    log_get l (idx x) = Some x \<and> clid x = c \<and> idx x \<le> i \<and>
    (\<forall>j y. idx x < j \<and> j \<le> i \<and> log_get l j = Some y \<longrightarrow> clid y \<noteq> c)" (is "?L \<longleftrightarrow> ?R")
proof
  assume ?L
  then have x: "log_get l (min e i) = Some x" "clid x = c" by (auto split: option.splits if_splits)
  then have ix: "idx x = min e i" using log_get_clid_idx[OF assms(1)] by blast
  then have "\<forall>j y. idx x < j \<and> j \<le> i \<and> log_get l j = Some y \<longrightarrow> clid y \<noteq> c"
    using assms(2) by (fastforce simp: is_run_end_def)
  then show ?R using x ix by auto
next
  assume R: ?R
  obtain k where k: "log_get l e = Some k" "clid k = c" using assms(2) by (auto simp: is_run_end_def)
  have le: "idx x \<le> min e i" using R assms(2) by (auto simp: is_run_end_def)
  then obtain y where y: "log_get l (min e i) = Some y"
    using log_get_convex[OF assms(1), of "idx x" "min e i" e] R k by auto
  have "clid y = c"
    using log_get_mono[OF assms(1) le _ y, of x] log_get_mono[OF assms(1) _ y k(1)] R k(2) by simp
  moreover from this have "idx x = min e i" using R y le by (metis le_neq_implies_less min.cobounded2)
  ultimately show ?L using R y by auto
qed

text \<open>
  \<open>get_at_or_before\<close> finds the greatest log id of the leader at or before the index among
  the log ids the list still knows, the purge boundary included.
\<close>

theorem get_at_or_before_iff:
  assumes "log_wf l"
  shows "get_at_or_before l c i = Some x \<longleftrightarrow>
    log_get l (idx x) = Some x \<and> clid x = c \<and> idx x \<le> i \<and>
    (\<forall>j y. idx x < j \<and> j \<le> i \<and> log_get l j = Some y \<longrightarrow> clid y \<noteq> c)"
proof (cases "\<exists>k \<in> set (key_log_ids l). clid k = c")
  case True
  let ?ks = "key_log_ids l"
  obtain j where found: "binary_search_by_key clid ?ks c = Inr j"
  proof (cases "binary_search_by_key clid ?ks c")
    case (Inl p)
    obtain k where k: "k < length ?ks" "clid (?ks ! k) = c" using True by (auto simp: in_set_conv_nth)
    have "k < p \<or> p \<le> k" by linarith
    then show ?thesis using binary_search_not_found[OF log_wf_sorted(2)[OF assms] Inl] k by fastforce
  qed
  note key = binary_search_Inr[OF found]
  have "is_run_end l c (idx (?ks ! j))" using is_run_end_key[OF assms, of "?ks ! j"] key by auto
  from run_end_select[OF assms this, of i x] show ?thesis
    using found key by (simp add: get_at_or_before_def split: option.splits bind_splits)
next
  case False
  let ?ks = "key_log_ids l"
  obtain p where nf: "binary_search_by_key clid ?ks c = Inl p"
    using False binary_search_Inr[of clid ?ks c] by (cases "binary_search_by_key clid ?ks c") fastforce+
  have only: "j < first_index l" if "log_get l j = Some y" "clid y = c" for j y
    using log_get_leader_key[OF assms that(1)] False that(2) by (meson leI)
  show ?thesis
  proof (cases "\<exists>b. purged l = Some b \<and> clid b = c")
    case True
    then obtain b where b: "purged l = Some b" "clid b = c" by auto
    have "log_get l (idx b) = Some b" using b by (simp add: log_get_def ref_at_view[OF assms] first_index_def)
    moreover have "first_index l = idx b + 1" using b by (simp add: first_index_def)
    ultimately have "is_run_end l c (idx b)"
      using b(2) only by (fastforce simp: is_run_end_def less_Suc_eq_le)
    from run_end_select[OF assms this, of i x] show ?thesis
      using nf b by (simp add: get_at_or_before_def split: option.splits bind_splits)
  next
    case no: False
    have "clid y \<noteq> c" if "log_get l j = Some y" for j y
      using only[OF that] that no assms
      by (auto simp: log_get_def ref_at_view[OF assms] split: option.splits if_splits)
    moreover have "get_at_or_before l c i = None"
      using nf no by (cases "purged l") (simp_all add: get_at_or_before_def)
    ultimately show ?thesis by auto
  qed
qed

section \<open>Loading the list from the storage\<close>

text \<open>The log ids of a stored log between two indices, both included.\<close>

definition ids_between :: "(nat \<Rightarrow> 'c) \<Rightarrow> nat \<Rightarrow> nat \<Rightarrow> 'c log_id list" where
  "ids_between f a b = map (\<lambda>i. LogId (f i) i) [a..<b + 1]"

abbreviation push_all :: "'c log_id list \<Rightarrow> 'c log_id list \<Rightarrow> 'c log_id list" where
  "push_all res ids \<equiv> fold (\<lambda>x r. push_key_log_id r x) ids res"

lemma ids_between_split:
  assumes "a \<le> m" "m \<le> b"
  shows "ids_between f a b = ids_between f a m @ ids_between f (m + 1) b"
  using assms upt_add_eq_append[of a "m + 1" "b - m"] by (simp add: ids_between_def)

lemma ids_between_Cons: "a \<le> b \<Longrightarrow> ids_between f a b = LogId (f a) a # ids_between f (a + 1) b"
  by (simp add: ids_between_def upt_conv_Cons del: upt_Suc)

lemma push_all_same:
  assumes "\<forall>x \<in> set (xs @ [y]). clid x = c"
  shows "push_all res (xs @ [y]) = push_key_log_id res y"
  using assms
proof (induction xs arbitrary: res)
  case (Cons x xs)
  then have "push_all (push_key_log_id res x) (xs @ [y]) = push_key_log_id (push_key_log_id res x) y" by simp
  then show ?case using Cons.prems by (simp add: push_key_same)
qed simp

lemma push_all_run:
  assumes "a \<le> b" "\<forall>i. a \<le> i \<and> i \<le> b \<longrightarrow> f i = c"
  shows "push_all res (ids_between f a b) = push_key_log_id res (LogId (f b) b)"
proof -
  have "ids_between f a b = map (\<lambda>i. LogId (f i) i) [a..<b] @ [LogId (f b) b]"
    using assms(1) by (simp add: ids_between_def)
  then show ?thesis using push_all_same[of "map (\<lambda>i. LogId (f i) i) [a..<b]" _ c] assms by simp
qed

text \<open>Pushing the shared end of two adjacent ranges twice changes nothing.\<close>

lemma push_all_join:
  assumes "a \<le> m" "m \<le> b"
  shows "push_all (push_all res (ids_between f a m)) (ids_between f m b) = push_all res (ids_between f a b)"
proof -
  have m: "ids_between f a m = map (\<lambda>i. LogId (f i) i) [a..<m] @ [LogId (f m) m]"
    using assms by (simp add: ids_between_def)
  have "ids_between f m b = LogId (f m) m # ids_between f (m + 1) b" using ids_between_Cons[OF assms(2)] .
  then show ?thesis using ids_between_split[OF assms, of f] m by (simp add: push_key_idem)
qed

definition stack_ids :: "(nat \<Rightarrow> 'c) \<Rightarrow> ('c log_id \<times> 'c log_id) list \<Rightarrow> 'c log_id list" where
  "stack_ids f stack = concat (map (\<lambda>(x, y). ids_between f (idx x) (idx y)) stack)"

definition stack_ok :: "(nat \<Rightarrow> 'c) \<Rightarrow> ('c log_id \<times> 'c log_id) list \<Rightarrow> bool" where
  "stack_ok f stack \<longleftrightarrow>
     (\<forall>(x, y) \<in> set stack. idx x \<le> idx y \<and> clid x = f (idx x) \<and> clid y = f (idx y))"

text \<open>The number of ranges that a range on the stack can still put through the loop.\<close>

definition stack_work :: "('c log_id \<times> 'c log_id) list \<Rightarrow> nat" where
  "stack_work stack = sum_list (map (\<lambda>(x, y). max 1 (2 * (idx y - idx x) - 1)) stack)"

lemma split_work:
  "a < m \<Longrightarrow> m < b \<Longrightarrow> max 1 (2 * (m - a) - 1) + max 1 (2 * (b - m) - 1) < max 1 (2 * (b - a) - (1::nat))"
  by (simp add: max_def; linarith)

lemma get_key_log_ids_loop_ids:
  fixes f :: "nat \<Rightarrow> 'c::linorder"
  assumes mono: "\<forall>i j. lo \<le> i \<and> i \<le> j \<and> j \<le> hi \<longrightarrow> f i \<le> f j"
    and sto: "\<forall>i. lo \<le> i \<and> i \<le> hi \<longrightarrow> sto i = Inr (LogId (f i) i)"
    and ok: "stack_ok f stack" and within: "\<forall>(x, y) \<in> set stack. lo \<le> idx x \<and> idx y \<le> hi"
  shows "get_key_log_ids_loop sto stack res = Some (Inr (push_all res (stack_ids f stack)))"
  using ok within
proof (induction "stack_work stack" arbitrary: stack res rule: less_induct)
  case less
  show ?case
  proof (cases stack)
    case Nil
    then show ?thesis by (simp add: get_key_log_ids_loop.simps stack_ids_def)
  next
    case (Cons r stack')
    obtain x y where r: "r = (x, y)" by force
    have xy: "idx x \<le> idx y" "clid x = f (idx x)" "clid y = f (idx y)" "lo \<le> idx x" "idx y \<le> hi"
      using less.prems Cons r by (auto simp: stack_ok_def)
    have lid: "LogId (f (idx x)) (idx x) = x" "LogId (f (idx y)) (idx y) = y"
      using xy by (metis log_id.collapse)+
    have IH: "get_key_log_ids_loop sto s res' = Some (Inr (push_all res' (stack_ids f s)))"
      if "stack_work s < stack_work stack" "stack_ok f s" "\<forall>(x, y) \<in> set s. lo \<le> idx x \<and> idx y \<le> hi" for s res'
      using less.hyps that by blast
    have rest: "stack_work stack' < stack_work stack" "stack_ok f stack'"
      "\<forall>(x, y) \<in> set stack'. lo \<le> idx x \<and> idx y \<le> hi"
      using less.prems Cons r by (auto simp: stack_ok_def stack_work_def)
    have ids: "push_all res (stack_ids f stack) = push_all (push_all res (ids_between f (idx x) (idx y))) (stack_ids f stack')"
      using Cons r by (simp add: stack_ids_def)
    consider (same) "clid x = clid y" | (adjacent) "clid x \<noteq> clid y" "idx x + 1 = idx y"
      | (wide) "clid x \<noteq> clid y" "idx x + 1 < idx y"
    proof -
      have "clid x \<noteq> clid y \<Longrightarrow> idx x \<noteq> idx y" using xy(2,3) by auto
      then show thesis using xy(1) that by (cases "clid x = clid y"; cases "idx x + 1 = idx y") auto
    qed
    then show ?thesis
    proof cases
      case same
      have const: "f i = f (idx y)" if "idx x \<le> i" "i \<le> idx y" for i
      proof (rule antisym)
        show "f i \<le> f (idx y)" using mono that xy by auto
        show "f (idx y) \<le> f i" using mono that xy same by auto
      qed
      have "push_all res (ids_between f (idx x) (idx y)) = push_key_log_id res y"
        using push_all_run[OF xy(1), where f = f and c = "f (idx y)" and res = res, unfolded lid] const by blast
      then show ?thesis using same IH[OF rest]
        unfolding ids unfolding Cons r by (subst get_key_log_ids_loop.simps) simp
    next
      case adjacent
      have "ids_between f (idx x) (idx y) = [x, y]"
        using lid adjacent(2) by (simp add: ids_between_def upt_conv_Cons)
      then show ?thesis using adjacent IH[OF rest]
        unfolding ids unfolding Cons r by (subst get_key_log_ids_loop.simps) simp
    next
      case wide
      let ?m = "(idx x + idx y) div 2"
      let ?mid = "LogId (f ?m) ?m"
      have m: "idx x < ?m" "?m < idx y" using wide(2) by auto
      have read: "sto ?m = Inr ?mid" using sto xy m by simp
      show ?thesis
      proof (cases "clid x = clid ?mid")
        case True
        have const: "f i = f ?m" if "idx x \<le> i" "i \<le> ?m" for i
        proof (rule antisym)
          show "f i \<le> f ?m" using mono that xy m by auto
          show "f ?m \<le> f i" using mono that xy m True by auto
        qed
        have run: "push_all res (ids_between f (idx x) ?m) = push_key_log_id res ?mid"
          using push_all_run[OF less_imp_le[OF m(1)], where f = f and c = "f ?m" and res = res] const by blast
        have join: "push_all res (ids_between f (idx x) (idx y)) = push_all res (ids_between f ?m (idx y))"
          using push_all_join[of "idx x" ?m "idx y" f res] m run
          by (simp add: ids_between_Cons push_key_idem)
        have "get_key_log_ids_loop sto ((?mid, y) # stack') res =
            Some (Inr (push_all res (stack_ids f ((?mid, y) # stack'))))"
          using rest Cons r m xy less.prems by (intro IH) (auto simp: stack_work_def stack_ok_def)
        then show ?thesis using wide True read join
          unfolding ids unfolding Cons r by (subst get_key_log_ids_loop.simps) (simp add: stack_ids_def)
      next
        case False
        have "stack_work ((x, ?mid) # (?mid, y) # stack') < stack_work stack"
          using split_work[OF m] Cons r by (simp add: stack_work_def)
        then have "get_key_log_ids_loop sto ((x, ?mid) # (?mid, y) # stack') res =
            Some (Inr (push_all res (stack_ids f ((x, ?mid) # (?mid, y) # stack'))))"
          using rest m xy by (intro IH) (auto simp: stack_ok_def)
        then show ?thesis using wide False read push_all_join[of "idx x" ?m "idx y" f res] m
          unfolding ids unfolding Cons r by (subst get_key_log_ids_loop.simps) (simp add: stack_ids_def)
      qed
    qed
  qed
qed

text \<open>
  Loading by binary search ends, and gives the key log ids that appending every stored log id
  one by one would give.
\<close>

theorem get_key_log_ids_eq_extend:
  fixes f :: "nat \<Rightarrow> 'c::linorder"
  assumes "\<forall>i j. a \<le> i \<and> i \<le> j \<and> j \<le> b \<longrightarrow> f i \<le> f j"
    and "\<forall>i. a \<le> i \<and> i \<le> b \<longrightarrow> sto i = Inr (LogId (f i) i)" and "a \<le> b"
  shows "get_key_log_ids sto (LogId (f a) a) (LogId (f b) b) =
    Some (Inr (key_log_ids (log_extend (log_id_list_new p []) (ids_between f a b))))"
proof -
  have "key_log_ids (log_extend l ids) = push_all (key_log_ids l) ids" for l :: "'c log_id_list" and ids
    by (induction ids arbitrary: l) (simp_all add: log_append_def)
  moreover have "get_key_log_ids_loop sto [(LogId (f a) a, LogId (f b) b)] [] =
      Some (Inr (push_all [] (stack_ids f [(LogId (f a) a, LogId (f b) b)])))"
    using assms by (intro get_key_log_ids_loop_ids[of a b]) (auto simp: stack_ok_def)
  ultimately show ?thesis by (simp add: get_key_log_ids_def stack_ids_def log_id_list_new_def)
qed

section \<open>The run of the last leader\<close>

theorem by_last_leader_run:
  assumes "log_wf l" "by_last_leader l = Some r"
  shows "log_last l = Some (ll_last_ref r) \<and> ll_first r \<le> ll_last r \<and>
    (\<forall>i. ll_first r \<le> i \<and> i \<le> ll_last r \<longrightarrow> log_get l i = Some (LogId (ll_committed_leader_id r) i)) \<and>
    (\<forall>i. i < ll_first r \<longrightarrow> log_view l i \<noteq> Some (ll_committed_leader_id r))"
proof (cases "key_log_ids l" rule: rev_cases)
  case Nil
  then show ?thesis using assms
    by (auto simp: by_last_leader_def leader_log_ids_new_def ll_last_ref_def log_get_def ref_at_view
        first_index_def log_view_def split: option.splits)
next
  case (snoc bs z)
  let ?n = "if bs = [] then first_index l else idx (last bs) + 1"
  have n: "length (bs @ [z]) - 2 = length bs - 1" by simp
  have r: "r = leader_log_ids_new (clid z) ?n (idx z)"
    using assms(2) snoc by (auto simp: by_last_leader_def nth_append last_conv_nth Let_def)
  have sorted: "sorted_wrt key_before (bs @ [z])" using assms(1) snoc by (simp add: log_wf_def)
  have bs: "idx k < idx z \<and> clid k < clid z \<and> idx k \<le> idx (last bs)" if "k \<in> set bs" for k
  proof -
    have "sorted (map idx bs)" using log_wf_sorted(1)[OF assms(1)] snoc by (simp add: sorted_append)
    then have "idx k \<le> idx (last bs)"
      using that by (cases bs rule: rev_cases) (auto simp: sorted_append)
    then show ?thesis using sorted that by (auto simp: sorted_wrt_append key_before_def)
  qed
  have fi: "first_index l \<le> idx z" "bs \<noteq> [] \<Longrightarrow> first_index l \<le> idx (last bs)"
    using assms(1) snoc by (auto simp: log_wf_def)
  have le: "?n \<le> idx z" using fi bs[of "last bs"] by (auto simp: Suc_le_eq)
  have view: "log_view l i =
      (if i < first_index l then None else
       if find (\<lambda>k. i \<le> idx k) bs = None then (if i \<le> idx z then Some (clid z) else None)
       else map_option clid (find (\<lambda>k. i \<le> idx k) bs))" for i
    using snoc by (auto simp: log_view_def find_append split: option.splits)
  have "log_view l i = Some (clid z)" if "?n \<le> i" "i \<le> idx z" for i
  proof -
    have "first_index l \<le> i" "find (\<lambda>k. i \<le> idx k) bs = None"
      using that fi bs by (auto simp: find_None_iff split: if_splits) fastforce
    then show ?thesis using view that by simp
  qed
  moreover have "log_view l i \<noteq> Some (clid z)" if "i < ?n" for i
  proof (cases "i < first_index l")
    case False
    then have "bs \<noteq> []" "i \<le> idx (last bs)" using that by (auto split: if_splits)
    then have "last bs \<in> set bs" by simp
    then have "find (\<lambda>k. i \<le> idx k) bs \<noteq> None"
      using \<open>i \<le> idx (last bs)\<close> by (auto simp: find_None_iff)
    then obtain k where k: "find (\<lambda>k. i \<le> idx k) bs = Some k" by auto
    then have "k \<in> set bs" by (auto simp: find_Some_iff)
    then show ?thesis using view[of i] bs[of k] k False by auto
  qed (simp add: view)
  moreover have "first_index l \<le> i" if "?n \<le> i" for i using that fi by (auto split: if_splits)
  ultimately show ?thesis
    using snoc le assms(1) unfolding r
    by (simp add: leader_log_ids_new_def ll_last_ref_def log_get_view)
qed

section \<open>The iterator over a run\<close>

definition iter_list :: "'c leader_log_ids_iter \<Rightarrow> 'c log_id list" where
  "iter_list it = map (LogId (it_committed_leader_id it)) [it_start it..<it_end it]"

lemma butlast_upt: "butlast [m..<n] = [m..<n - 1]"
  by (cases n) simp_all

locale double_ended_iterator =
  fixes next_front next_back :: "'i \<Rightarrow> 'x option \<times> 'i"
    and remaining :: "'i \<Rightarrow> 'x list"
  assumes next_front: "fst (next_front i) = first_opt (remaining i)" "remaining (snd (next_front i)) = tl (remaining i)"
    and next_back: "fst (next_back i) = last_opt (remaining i)" "remaining (snd (next_back i)) = butlast (remaining i)"
begin

text \<open>Taking an element from each end meets in the middle and never yields an element twice.\<close>

lemma front_then_back:
  "remaining i = x # xs @ [y] \<Longrightarrow>
   fst (next_front i) = Some x \<and> fst (next_back (snd (next_front i))) = Some y \<and>
   remaining (snd (next_back (snd (next_front i)))) = xs"
  by (simp add: next_front next_back)

lemma single_then_empty:
  "remaining i = [x] \<Longrightarrow> fst (next_front i) = Some x \<and> fst (next_back (snd (next_front i))) = None"
  by (simp add: next_front next_back)

end

lemma butlast_map_upt: "butlast (map f [m..<n]) = map f [m..<n - 1]"
  by (simp only: map_butlast[symmetric] butlast_upt)

interpretation leader_iter: double_ended_iterator iter_next iter_next_back iter_list
proof
  fix it :: "'c leader_log_ids_iter"
  show "fst (iter_next it) = first_opt (iter_list it)"
    using upt_conv_Cons[of "it_start it" "it_end it"]
    by (cases "it_start it < it_end it") (simp_all add: iter_next_def iter_list_def)
  show "iter_list (snd (iter_next it)) = tl (iter_list it)"
    by (simp add: iter_next_def iter_list_def map_tl[symmetric])
  show "fst (iter_next_back it) = last_opt (iter_list it)"
    by (simp add: iter_next_back_def iter_list_def last_map last_opt_def)
  show "iter_list (snd (iter_next_back it)) = butlast (iter_list it)"
    by (simp add: iter_next_back_def iter_list_def butlast_map_upt)
qed

lemma iter_len_remaining: "iter_len it = length (iter_list it)"
  by (simp add: iter_len_def iter_list_def)

lemma leader_log_ids_iter_list:
  "iter_list (leader_log_ids_into_iter r) =
   map (LogId (ll_committed_leader_id r)) [ll_first r..<ll_last r + 1]"
  by (simp add: iter_list_def leader_log_ids_into_iter_def)

section \<open>Comparing a follower's samples\<close>

text \<open>
  Raft's log matching, as the two logs satisfy it: every leader \<open>c\<close> appends to one log, and a
  log that holds an entry of \<open>c\<close> agrees with the log of \<open>c\<close> up to that entry.
\<close>

definition matches_leaders :: "('c \<Rightarrow> nat \<Rightarrow> 'c) \<Rightarrow> (nat \<Rightarrow> 'c option) \<Rightarrow> bool" where
  "matches_leaders G log \<longleftrightarrow>
     (\<forall>i j c d. log i = Some c \<and> j \<le> i \<and> log j = Some d \<longrightarrow> d = G c j)"

definition log_get_clid :: "'c log_id_list \<Rightarrow> nat \<Rightarrow> 'c option" where
  "log_get_clid l i = map_option clid (log_get l i)"

definition logs_match :: "('c::linorder \<Rightarrow> nat \<Rightarrow> 'c) \<Rightarrow> (nat \<Rightarrow> 'c option) \<Rightarrow> 'c log_id_list \<Rightarrow> bool" where
  "logs_match G F l \<longleftrightarrow>
     log_wf l \<and> matches_leaders G (log_get_clid l) \<and> matches_leaders G F \<and>
     (\<forall>i j. F i \<noteq> None \<and> j \<le> i \<longrightarrow> F j \<noteq> None) \<and>
     (\<forall>i j a b. i \<le> j \<and> F i = Some a \<and> F j = Some b \<longrightarrow> a \<le> b)"

definition log_shares :: "(nat \<Rightarrow> 'c option) \<Rightarrow> 'c log_id_list \<Rightarrow> nat \<Rightarrow> bool" where
  "log_shares F l i \<longleftrightarrow> (\<exists>c. F i = Some c \<and> log_get_clid l i = Some c)"

lemma matches_leadersD:
  "matches_leaders G log \<Longrightarrow> log i = Some c \<Longrightarrow> j \<le> i \<Longrightarrow> log j = Some d \<Longrightarrow> d = G c j"
  by (auto simp: matches_leaders_def)

lemma logs_matchD:
  assumes "logs_match G F l"
  shows "log_wf l" "matches_leaders G (log_get_clid l)" "matches_leaders G F"
    "\<And>i j a. F i = Some a \<Longrightarrow> j \<le> i \<Longrightarrow> \<exists>b. F j = Some b"
    "\<And>i j a b. i \<le> j \<Longrightarrow> F i = Some a \<Longrightarrow> F j = Some b \<Longrightarrow> a \<le> b"
  using assms by (auto simp: logs_match_def)

lemma shares_below:
  assumes "logs_match G F l" "log_shares F l i" "j \<le> i" "log_get_clid l j = Some e"
  shows "log_shares F l j"
proof -
  note m = logs_matchD[OF assms(1)]
  obtain c where c: "F i = Some c" "log_get_clid l i = Some c" using assms(2) by (auto simp: log_shares_def)
  obtain d where d: "F j = Some d" using m(4) c assms(3) by blast
  have "d = G c j" using matches_leadersD[OF m(3) c(1) assms(3) d] .
  moreover have "e = G c j" using matches_leadersD[OF m(2) c(2) assms(3,4)] .
  ultimately show ?thesis using d assms(4) by (auto simp: log_shares_def)
qed

lemma sample_shares:
  assumes "logs_match G F l" "F (idx s) = Some (clid s)" "get_at_or_before l (clid s) (idx s) = Some x"
  shows "log_shares F l (idx x) \<and> F (idx x) = Some (clid x)"
proof -
  note m = logs_matchD[OF assms(1)]
  have x: "log_get_clid l (idx x) = Some (clid s)" "clid x = clid s" "idx x \<le> idx s"
    using assms(3) get_at_or_before_iff[OF m(1)] by (auto simp: log_get_clid_def)
  obtain d where d: "F (idx x) = Some d" using m(4) assms(2) x(3) by blast
  have "d = G (clid s) (idx x)" using matches_leadersD[OF m(3) assms(2) x(3) d] .
  moreover have "clid s = G (clid s) (idx x)" using matches_leadersD[OF m(2) x(1) le_refl x(1)] .
  ultimately show ?thesis using d x by (auto simp: log_shares_def)
qed

lemma different_not_shares:
  assumes "logs_match G F l" "F (idx s) = Some (clid s)" "log_get l (idx s) = Some y" "y \<noteq> s" "idx s \<le> i"
  shows "\<not> log_shares F l i"
proof
  assume "log_shares F l i"
  then have "log_shares F l (idx s)"
    using shares_below[OF assms(1) _ assms(5), of "clid y"] assms(3) by (simp add: log_get_clid_def)
  then have "clid y = clid s" using assms(2,3) by (auto simp: log_shares_def log_get_clid_def)
  then show False
    using assms(4) log_get_clid_idx[OF logs_matchD(1)[OF assms(1)] assms(3)] by (simp add: log_id.expand)
qed

lemma run_end_not_shares:
  assumes "logs_match G F l" and s: "F (idx s) = Some (clid s)" "get_at_or_before l (clid s) (idx s) = Some x"
    and "idx x < idx s" "idx x + 1 \<le> i"
  shows "\<not> log_shares F l i"
proof
  assume sh: "log_shares F l i"
  note m = logs_matchD[OF assms(1)]
  have x: "log_get l (idx x) = Some x" "clid x = clid s"
    "\<forall>j y. idx x < j \<and> j \<le> idx s \<and> log_get l j = Some y \<longrightarrow> clid y \<noteq> clid s"
    using s(2) assms(4) get_at_or_before_iff[OF m(1), of "clid s" "idx s" x] by auto
  obtain y where y: "log_get l (idx x + 1) = Some y"
    using log_get_convex[OF m(1), of "idx x" "idx x + 1" i] x(1) assms(5) sh
    by (auto simp: log_shares_def log_get_clid_def)
  then have "log_shares F l (idx x + 1)"
    using shares_below[OF assms(1) sh assms(5), of "clid y"] by (simp add: log_get_clid_def)
  then have Fy: "F (idx x + 1) = Some (clid y)" using y by (auto simp: log_shares_def log_get_clid_def)
  have Fx: "F (idx x) = Some (clid s)" using sample_shares[OF assms(1) s] x(2) by simp
  have "clid s \<le> clid y" using m(5)[OF _ Fx Fy] by simp
  moreover have "clid y \<le> clid s" using m(5)[OF _ Fy s(1)] assms(4) by simp
  ultimately show False using x(3)[rule_format, of "idx x + 1" y] y assms(4) by simp
qed

definition hint_sound :: "(nat \<Rightarrow> 'c option) \<Rightarrow> 'c::linorder log_id_list \<Rightarrow> 'c log_id option \<times> nat \<Rightarrow> bool" where
  "hint_sound F l res \<longleftrightarrow>
     (\<forall>x. fst res = Some x \<longrightarrow> log_get l (idx x) = Some x \<and> F (idx x) = Some (clid x)) \<and>
     (\<forall>i \<ge> snd res. \<not> log_shares F l i)"

text \<open>
  The common log id of a comparison is really in both logs, and from the divergence index on the
  two logs hold no common log id.
\<close>

theorem hint_compare_sound:
  assumes m: "logs_match G F l"
    and samples: "\<forall>s \<in> set samples. F (idx s) = Some (clid s)"
    and tail: "\<forall>i \<ge> next_index (last_opt samples). F i = None"
  shows "hint_sound F l (hint_compare samples l)"
proof -
  have step: "hint_sound F l (hint_compare_step l s res)"
    if ok: "hint_sound F l res" and s: "F (idx s) = Some (clid s)" for s res
  proof -
    obtain common d where res: "res = (common, d)" by force
    let ?x = "get_at_or_before l (clid s) (idx s)" and ?y = "log_get l (idx s)"
    have in_l: "log_get l (idx x) = Some x \<and> F (idx x) = Some (clid x)" if "?x = Some x" for x
      using that sample_shares[OF m s] get_at_or_before_iff[OF logs_matchD(1)[OF m]] by blast
    have run: "\<not> log_shares F l i" if "?x = Some x" "idx x < idx s" "idx x + 1 \<le> i" for x i
      using run_end_not_shares[OF m s] that by blast
    have diff: "\<not> log_shares F l i" if "?y = Some y" "y \<noteq> s" "idx s \<le> i" for y i
      using different_not_shares[OF m s] that by blast
    have max: "max common (Some x) = Some z \<Longrightarrow> z = x \<or> common = Some z" for x z
      by (auto simp: max_def split: if_splits)
    show ?thesis
      using ok in_l run diff unfolding res hint_compare_step_def hint_sound_def
      by (cases ?x; cases ?y) (auto simp: Let_def min_def split: if_splits dest!: max)
  qed
  have "hint_sound F l (fold (hint_compare_step l) xs res)"
    if "hint_sound F l res" "\<forall>s \<in> set xs. F (idx s) = Some (clid s)" for xs res
    using that by (induction xs arbitrary: res) (simp_all add: step)
  moreover have "hint_sound F l (None, next_index (last_opt samples))"
    using tail by (auto simp: hint_sound_def log_shares_def)
  ultimately show ?thesis using samples by (simp add: hint_compare_def)
qed

end
