(* ===== verification/IOState.thy ===== *)
theory IOState
  imports Vote LogIds
begin

text \<open>
  The progress of the I/O operations of a node (\<open>raft_state/io_state\<close>): the three
  cursors of an operation, the identifier of a vote or log operation, the value that only grows,
  and the log id that is safe to apply.  The cursors are generic in the order of what they
  track; the locale \<open>io_order\<close> is that order, interpreted on log ids and on I/O ids.
\<close>

section \<open>Options under a partial order\<close>

definition opt_lt :: "('a \<Rightarrow> 'a \<Rightarrow> bool) \<Rightarrow> 'a option \<Rightarrow> 'a option \<Rightarrow> bool" where
  "opt_lt lt a b =
     (case (a, b) of
        (None, None) \<Rightarrow> False
      | (None, Some _) \<Rightarrow> True
      | (Some _, None) \<Rightarrow> False
      | (Some x, Some y) \<Rightarrow> lt x y)"

definition opt_le :: "('a \<Rightarrow> 'a \<Rightarrow> bool) \<Rightarrow> 'a option \<Rightarrow> 'a option \<Rightarrow> bool" where
  "opt_le le a b =
     (case (a, b) of
        (None, _) \<Rightarrow> True
      | (Some _, None) \<Rightarrow> False
      | (Some x, Some y) \<Rightarrow> le x y)"

lemma opt_lt_simps [simp, cmp_simps]:
  "opt_lt lt a None = False"
  "opt_lt lt None (Some y) = True"
  "opt_lt lt (Some x) (Some y) = lt x y"
  by (auto simp: opt_lt_def split: option.splits)

lemma opt_le_simps [simp, cmp_simps]:
  "opt_le le None b = True"
  "opt_le le (Some x) None = False"
  "opt_le le (Some x) (Some y) = le x y"
  by (auto simp: opt_le_def)

section \<open>The cursors of an I/O operation\<close>

record 'a io_progress =
  accepted :: "'a option"
  submitted :: "'a option"
  flushed :: "'a option"

definition io_progress_new :: "'a option \<Rightarrow> 'a io_progress" where
  "io_progress_new v = \<lparr> accepted = v, submitted = v, flushed = v \<rparr>"

definition io_progress_validate :: "('a \<Rightarrow> 'a \<Rightarrow> bool) \<Rightarrow> 'a io_progress \<Rightarrow> bool" where
  "io_progress_validate le p \<longleftrightarrow>
     opt_le le (flushed p) (submitted p) \<and> opt_le le (submitted p) (accepted p)"

definition io_accept :: "'a io_progress \<Rightarrow> 'a \<Rightarrow> 'a io_progress" where
  "io_accept p v = p \<lparr> accepted := Some v \<rparr>"

definition io_submit :: "'a io_progress \<Rightarrow> 'a \<Rightarrow> 'a io_progress" where
  "io_submit p v = p \<lparr> submitted := Some v \<rparr>"

definition io_flush :: "'a io_progress \<Rightarrow> 'a \<Rightarrow> 'a io_progress" where
  "io_flush p v = p \<lparr> flushed := Some v \<rparr>"

definition try_update_all :: "('a \<Rightarrow> 'a \<Rightarrow> bool) \<Rightarrow> 'a io_progress \<Rightarrow> 'a \<Rightarrow> 'a io_progress" where
  "try_update_all lt p v =
     (let p1 = (if opt_lt lt (accepted p) (Some v) then io_accept p v else p);
          p2 = (if opt_lt lt (submitted p1) (Some v) then io_submit p1 v else p1)
      in if opt_lt lt (flushed p2) (Some v) then io_flush p2 v else p2)"

definition try_accept :: "('a \<Rightarrow> 'a \<Rightarrow> bool) \<Rightarrow> 'a io_progress \<Rightarrow> 'a \<Rightarrow> 'a io_progress" where
  "try_accept lt p v = (if opt_lt lt (accepted p) (Some v) then io_accept p v else p)"

definition try_submit :: "('a \<Rightarrow> 'a \<Rightarrow> bool) \<Rightarrow> 'a io_progress \<Rightarrow> 'a \<Rightarrow> 'a io_progress" where
  "try_submit lt p v = (if opt_lt lt (submitted p) (Some v) then io_submit p v else p)"

definition try_flush :: "('a \<Rightarrow> 'a \<Rightarrow> bool) \<Rightarrow> 'a io_progress \<Rightarrow> 'a \<Rightarrow> 'a io_progress" where
  "try_flush lt p v = (if opt_lt lt (flushed p) (Some v) then io_flush p v else p)"

section \<open>A value that only grows\<close>

record 'a monotonic =
  mono_value :: "'a option"

definition monotonic_default :: "'a monotonic" where
  "monotonic_default = \<lparr> mono_value = None \<rparr>"

text \<open>\<open>Inr\<close> holds the value that was replaced, \<open>Inl\<close> the value that was kept.\<close>

definition try_update_option ::
  "('a \<Rightarrow> 'a \<Rightarrow> bool) \<Rightarrow> 'a monotonic \<Rightarrow> 'a option \<Rightarrow> ('a option + 'a option) \<times> 'a monotonic" where
  "try_update_option lt m v =
     (if opt_lt lt (mono_value m) v then (Inr (mono_value m), m \<lparr> mono_value := v \<rparr>)
      else (Inl (mono_value m), m))"

definition try_update ::
  "('a \<Rightarrow> 'a \<Rightarrow> bool) \<Rightarrow> 'a monotonic \<Rightarrow> 'a \<Rightarrow> ('a option + 'a option) \<times> 'a monotonic" where
  "try_update lt m v = try_update_option lt m (Some v)"

section \<open>Identifiers of vote and log operations\<close>

datatype ('l, 'c) log_io_id = LogIOId (lio_committed_vote: "'l committed_vote") (lio_log_id: "'c log_id option")

datatype ('l, 'c) io_id = IOVote "'l uncommitted_vote" | IOLog "('l, 'c) log_io_id"

definition io_id_new_log_io :: "'l committed_vote \<Rightarrow> 'c log_id option \<Rightarrow> ('l, 'c) io_id" where
  "io_id_new_log_io cv x = IOLog (LogIOId cv x)"

definition io_id_new_vote_io :: "'l uncommitted_vote \<Rightarrow> ('l, 'c) io_id" where
  "io_id_new_vote_io uv = IOVote uv"

definition io_id_new :: "'l vote \<Rightarrow> ('l, 'c) io_id" where
  "io_id_new v =
     (if v_committed v then io_id_new_log_io (to_committed v) None
      else io_id_new_vote_io (to_non_committed v))"

definition io_to_app_vote :: "('l, 'c) io_id \<Rightarrow> 'l vote" where
  "io_to_app_vote i =
     (case i of IOVote uv \<Rightarrow> uncommitted_into_vote uv | IOLog l \<Rightarrow> committed_into_vote (lio_committed_vote l))"

definition io_to_vote_and_log_id :: "('l, 'c) io_id \<Rightarrow> 'l vote \<times> 'c log_id option" where
  "io_to_vote_and_log_id i =
     (case i of
        IOVote uv \<Rightarrow> (uncommitted_into_vote uv, None)
      | IOLog l \<Rightarrow> (committed_into_vote (lio_committed_vote l), lio_log_id l))"

definition io_leader_id :: "('l, 'c) io_id \<Rightarrow> 'l" where
  "io_leader_id i =
     (case i of IOVote uv \<Rightarrow> uv_leader_id uv | IOLog l \<Rightarrow> cv_leader_id (lio_committed_vote l))"

definition io_to_committed_vote :: "('l, 'c) io_id \<Rightarrow> 'l committed_vote option" where
  "io_to_committed_vote i = (case i of IOVote _ \<Rightarrow> None | IOLog l \<Rightarrow> Some (lio_committed_vote l))"

definition io_last_log_id :: "('l, 'c) io_id \<Rightarrow> 'c log_id option" where
  "io_last_log_id i = (case i of IOVote _ \<Rightarrow> None | IOLog l \<Rightarrow> lio_log_id l)"

definition io_partial_cmp ::
  "('t, 'n, 'l, 'c::linorder) leader_id_ops \<Rightarrow> ('l, 'c) io_id \<Rightarrow> ('l, 'c) io_id \<Rightarrow> ordering option" where
  "io_partial_cmp L a b =
     (case vote_partial_cmp L (io_to_app_vote a) (io_to_app_vote b) of
        None \<Rightarrow> None
      | Some Less \<Rightarrow> Some Less
      | Some Greater \<Rightarrow> Some Greater
      | Some Equal \<Rightarrow> Some (cmp (io_last_log_id a) (io_last_log_id b)))"

definition io_lt :: "('t, 'n, 'l, 'c::linorder) leader_id_ops \<Rightarrow> ('l, 'c) io_id \<Rightarrow> ('l, 'c) io_id \<Rightarrow> bool" where
  "io_lt L a b \<longleftrightarrow> io_partial_cmp L a b = Some Less"

definition io_le :: "('t, 'n, 'l, 'c::linorder) leader_id_ops \<Rightarrow> ('l, 'c) io_id \<Rightarrow> ('l, 'c) io_id \<Rightarrow> bool" where
  "io_le L a b \<longleftrightarrow> io_partial_cmp L a b = Some Less \<or> io_partial_cmp L a b = Some Equal"

text \<open>The derived comparison of \<open>LogIOId\<close>: the leader first, then the log id.\<close>

definition log_io_partial_cmp ::
  "('t, 'n, 'l, 'c::linorder) leader_id_ops \<Rightarrow> ('l, 'c) log_io_id \<Rightarrow> ('l, 'c) log_io_id \<Rightarrow> ordering option" where
  "log_io_partial_cmp L a b =
     (case lid_partial_cmp L (cv_leader_id (lio_committed_vote a)) (cv_leader_id (lio_committed_vote b)) of
        Some Equal \<Rightarrow> Some (cmp (lio_log_id a) (lio_log_id b))
      | r \<Rightarrow> r)"

definition log_io_lt ::
  "('t, 'n, 'l, 'c::linorder) leader_id_ops \<Rightarrow> ('l, 'c) log_io_id \<Rightarrow> ('l, 'c) log_io_id \<Rightarrow> bool" where
  "log_io_lt L a b \<longleftrightarrow> log_io_partial_cmp L a b = Some Less"

section \<open>The I/O state of a node\<close>

record ('l, 'c) io_state =
  building_snapshot :: bool
  log_progress :: "('l, 'c) io_id io_progress"
  apply_progress :: "'c log_id io_progress"
  snapshot_progress :: "'c log_id io_progress"
  io_cluster_committed :: "('l, 'c) log_io_id monotonic"
  purged_progress :: "'c log_id io_progress"

definition io_state_default :: "('l, 'c) io_state" where
  "io_state_default =
     \<lparr> building_snapshot = False, log_progress = io_progress_new None, apply_progress = io_progress_new None,
       snapshot_progress = io_progress_new None, io_cluster_committed = monotonic_default,
       purged_progress = io_progress_new None \<rparr>"

definition io_state_new ::
  "'l vote \<Rightarrow> 'c log_id option \<Rightarrow> 'c log_id option \<Rightarrow> 'c log_id option \<Rightarrow> ('l, 'c) io_state" where
  "io_state_new v applied snap purged =
     \<lparr> building_snapshot = False, log_progress = io_progress_new (Some (io_id_new v)),
       apply_progress = io_progress_new applied, snapshot_progress = io_progress_new snap,
       io_cluster_committed = monotonic_default, purged_progress = io_progress_new purged \<rparr>"

definition io_state_validate ::
  "('t, 'n, 'l, 'c::linorder) leader_id_ops \<Rightarrow> ('l, 'c) io_state \<Rightarrow> bool" where
  "io_state_validate L s \<longleftrightarrow>
     io_progress_validate (io_le L) (log_progress s) \<and>
     io_progress_validate (\<le>) (apply_progress s) \<and>
     io_progress_validate (\<le>) (snapshot_progress s) \<and>
     submitted (snapshot_progress s) \<le> submitted (apply_progress s) \<and>
     io_progress_validate (\<le>) (purged_progress s) \<and>
     flushed (purged_progress s) \<le> flushed (snapshot_progress s)"

definition io_applied :: "('l, 'c) io_state \<Rightarrow> 'c log_id option" where
  "io_applied s = flushed (apply_progress s)"

definition io_snapshot :: "('l, 'c) io_state \<Rightarrow> 'c log_id option" where
  "io_snapshot s = flushed (snapshot_progress s)"

definition calculate_local_committed ::
  "('t, 'n, 'l, 'c::linorder) leader_id_ops \<Rightarrow> ('l, 'c) io_state \<Rightarrow> 'c log_id option" where
  "calculate_local_committed L s =
     do {
       cluster_committed \<leftarrow> mono_value (io_cluster_committed s);
       accept \<leftarrow> accepted (log_progress s);
       committed_log_id \<leftarrow> lio_log_id cluster_committed;
       let cluster_committed_vote =
         max (cv_committed_leader_id L (lio_committed_vote cluster_committed)) (clid committed_log_id);
       accepted_vote \<leftarrow> io_to_committed_vote accept;
       if cv_committed_leader_id L accepted_vote \<ge> cluster_committed_vote
       then min (io_last_log_id accept) (lio_log_id cluster_committed)
       else None
     }"

section \<open>Orders that cursors follow\<close>

locale io_order =
  fixes le lt :: "'a \<Rightarrow> 'a \<Rightarrow> bool"
  assumes le_refl: "le a a"
    and le_trans: "le a b \<Longrightarrow> le b c \<Longrightarrow> le a c"
    and lt_imp_le: "lt a b \<Longrightarrow> le a b"
    and lt_le_trans: "lt a b \<Longrightarrow> le b c \<Longrightarrow> lt a c"
    and le_not_lt: "le a b \<Longrightarrow> \<not> lt a b \<Longrightarrow> le b a"
begin

lemma opt_le_refl [simp]: "opt_le le a a"
  by (cases a) (simp_all add: le_refl)

lemma opt_le_trans: "opt_le le a b \<Longrightarrow> opt_le le b c \<Longrightarrow> opt_le le a c"
  by (cases a; cases b; cases c) (auto intro: le_trans)

lemma opt_lt_imp_le: "opt_lt lt a b \<Longrightarrow> opt_le le a b"
  by (cases a; cases b) (auto intro: lt_imp_le)

lemma opt_le_not_lt: "opt_le le a b \<Longrightarrow> \<not> opt_lt lt a b \<Longrightarrow> opt_le le b a"
  by (cases a; cases b) (auto intro: le_not_lt)

lemma new_valid: "io_progress_validate le (io_progress_new v)"
  by (simp add: io_progress_validate_def io_progress_new_def)

lemma accept_valid:
  "io_progress_validate le p \<Longrightarrow> opt_le le (accepted p) (Some v) \<Longrightarrow> io_progress_validate le (io_accept p v)"
  by (auto simp: io_progress_validate_def io_accept_def intro: opt_le_trans)

lemma submit_valid:
  "io_progress_validate le p \<Longrightarrow> opt_le le (submitted p) (Some v) \<Longrightarrow> opt_le le (Some v) (accepted p) \<Longrightarrow>
   io_progress_validate le (io_submit p v)"
  by (auto simp: io_progress_validate_def io_submit_def intro: opt_le_trans)

lemma flush_valid:
  "io_progress_validate le p \<Longrightarrow> opt_le le (Some v) (submitted p) \<Longrightarrow> io_progress_validate le (io_flush p v)"
  by (auto simp: io_progress_validate_def io_flush_def)

text \<open>
  Updating all cursors at once keeps their order and moves none of them back, for a value that
  each cursor is comparable with.
\<close>

lemma try_update_all_valid:
  assumes valid: "io_progress_validate le p"
    and comparable: "\<And>c. c \<in> {accepted p, submitted p, flushed p} \<Longrightarrow>
          opt_le le c (Some v) \<or> opt_le le (Some v) c"
  shows "io_progress_validate le (try_update_all lt p v)" "opt_le le (accepted p) (accepted (try_update_all lt p v))"
    "opt_le le (submitted p) (submitted (try_update_all lt p v))"
    "opt_le le (flushed p) (flushed (try_update_all lt p v))"
    "opt_le le (Some v) (flushed (try_update_all lt p v))"
proof -
  have ge: "opt_le le (Some v) c" if "c \<in> {accepted p, submitted p, flushed p}" "\<not> opt_lt lt c (Some v)" for c
    using comparable[OF that(1)] opt_le_not_lt[OF _ that(2)] by blast
  have fs: "opt_le le (flushed p) (submitted p)" "opt_le le (submitted p) (accepted p)"
    using valid by (auto simp: io_progress_validate_def)
  note defs = try_update_all_def io_accept_def io_submit_def io_flush_def Let_def
  show "opt_le le (accepted p) (accepted (try_update_all lt p v))"
    "opt_le le (submitted p) (submitted (try_update_all lt p v))"
    "opt_le le (flushed p) (flushed (try_update_all lt p v))"
    by (auto simp: defs intro: opt_lt_imp_le)
  show "opt_le le (Some v) (flushed (try_update_all lt p v))"
    using ge[of "flushed p"] by (auto simp: defs le_refl)
  show "io_progress_validate le (try_update_all lt p v)"
    using fs ge[of "accepted p"] ge[of "submitted p"] ge[of "flushed p"] opt_lt_imp_le
    unfolding io_progress_validate_def defs
    by (auto simp: le_refl intro: opt_le_trans)
qed

lemma try_update_monotone:
  "opt_le le (mono_value m) (mono_value (snd (try_update lt m v)))"
  by (auto simp: try_update_def try_update_option_def intro: opt_lt_imp_le)

end

interpretation log_id_io: io_order "(\<le>) :: 'c::linorder log_id \<Rightarrow> _" "(<)"
  by unfold_locales auto

lemma opt_le_log_id [simp]: "opt_le (\<le>) a b \<longleftrightarrow> a \<le> b" for a b :: "'c::linorder log_id option"
  by (cases a; cases b) auto

lemma opt_lt_log_id [simp]: "opt_lt (<) a b \<longleftrightarrow> a < b" for a b :: "'c::linorder log_id option"
  by (cases a; cases b) auto

text \<open>The order of I/O ids, in both modes of leader ids.\<close>

lemma io_id_eqI:
  "io_to_app_vote a = io_to_app_vote b \<Longrightarrow> io_last_log_id a = io_last_log_id b \<Longrightarrow> a = b"
  by (cases a; cases b)
    (auto simp: io_to_app_vote_def io_last_log_id_def uncommitted_into_vote_def committed_into_vote_def
      uncommitted_vote.expand committed_vote.expand log_io_id.expand)

context raft_leader_id
begin

lemma io_lt_iff:
  "io_lt L a b \<longleftrightarrow>
   vote_partial_cmp L (io_to_app_vote a) (io_to_app_vote b) = Some Less \<or>
   (io_to_app_vote a = io_to_app_vote b \<and> io_last_log_id a < io_last_log_id b)"
  by (auto simp: io_lt_def io_partial_cmp_def vote_cmp_Equal_iff cmp_simps split: option.splits ordering.splits)

lemma io_le_iff: "io_le L a b \<longleftrightarrow> io_lt L a b \<or> a = b"
proof -
  have "io_partial_cmp L a b = Some Equal \<longleftrightarrow> a = b"
    by (auto simp: io_partial_cmp_def vote_cmp_Equal_iff cmp_simps intro: io_id_eqI
        split: option.splits ordering.splits)
  then show ?thesis by (simp add: io_le_def io_lt_def)
qed

lemma io_lt_trans: "io_lt L a b \<Longrightarrow> io_lt L b c \<Longrightarrow> io_lt L a c"
  by (auto simp: io_lt_iff intro: vote_cmp_Less_trans)

lemma io_vote_ge: "io_le L a b \<Longrightarrow> vote_ge L (io_to_app_vote b) (io_to_app_vote a)"
  by (auto simp: io_le_iff io_lt_iff vote_ge_iff)

end

sublocale raft_leader_id \<subseteq> io: io_order "io_le L" "io_lt L"
proof
  fix a b c
  show "io_le L a a" by (simp add: io_le_iff)
  show "io_le L a b \<Longrightarrow> io_le L b c \<Longrightarrow> io_le L a c" by (auto simp: io_le_iff intro: io_lt_trans)
  show "io_lt L a b \<Longrightarrow> io_le L a b" by (simp add: io_le_iff)
  show "io_lt L a b \<Longrightarrow> io_le L b c \<Longrightarrow> io_lt L a c" by (auto simp: io_le_iff intro: io_lt_trans)
  show "io_le L a b \<Longrightarrow> \<not> io_lt L a b \<Longrightarrow> io_le L b a" by (simp add: io_le_iff)
qed

section \<open>What is safe to apply\<close>

lemma io_id_new_simps [simp, state_simps]:
  "io_to_app_vote (io_id_new v) = v"
  "io_last_log_id (io_id_new v) = None"
  by (auto simp: io_id_new_def io_id_new_log_io_def io_id_new_vote_io_def io_to_app_vote_def io_last_log_id_def
      committed_into_vote_def uncommitted_into_vote_def to_committed_def to_non_committed_def)

text \<open>
  A computed local commit is covered by the commit that the cluster announced and by the log
  that this node accepted, it is the smaller of the two, and the accepted leader is at least the
  leader that announced the commit and the leader of the committed entry.
\<close>

lemma calculate_local_committed_Some:
  assumes "calculate_local_committed L s = Some x"
  shows "\<exists>cc acc y cv. mono_value (io_cluster_committed s) = Some cc \<and> accepted (log_progress s) = Some acc \<and>
    lio_log_id cc = Some y \<and> io_to_committed_vote acc = Some cv \<and>
    Some x = min (io_last_log_id acc) (Some y) \<and>
    cv_committed_leader_id L (lio_committed_vote cc) \<le> cv_committed_leader_id L cv \<and>
    clid y \<le> cv_committed_leader_id L cv"
  using assms by (auto simp: calculate_local_committed_def Let_def split: bind_splits if_splits)

lemma calculate_local_committed_eq:
  assumes "mono_value (io_cluster_committed s) = Some cc" "accepted (log_progress s) = Some acc"
    "lio_log_id cc = Some y" "io_to_committed_vote acc = Some cv"
    "cv_committed_leader_id L (lio_committed_vote cc) \<le> cv_committed_leader_id L cv"
    "clid y \<le> cv_committed_leader_id L cv"
  shows "calculate_local_committed L s = min (io_last_log_id acc) (Some y)"
  using assms by (simp add: calculate_local_committed_def Let_def)

end
