(* ===== verification/Timing.thy ===== *)
theory Timing
  imports Prelude
begin

text \<open>
  Leases and quiet periods (\<open>utime.rs\<close>, \<open>engine/quorum_loss_probe.rs\<close>,
  \<open>engine/time_state.rs\<close>).  Instants and durations are natural numbers of nanoseconds; the
  clock is an argument of every operation that reads it.
\<close>

section \<open>A value with a lease\<close>

record 'd leased =
  leased_data :: 'd
  last_update :: "nat option"
  lease :: nat
  lease_enabled :: bool

definition leased_new :: "nat \<Rightarrow> nat \<Rightarrow> 'd \<Rightarrow> 'd leased" where
  "leased_new now ls d =
     \<lparr> leased_data = d, last_update = Some now, lease = ls, lease_enabled = True \<rparr>"

definition leased_without_last_update :: "'d \<Rightarrow> 'd leased" where
  "leased_without_last_update d =
     \<lparr> leased_data = d, last_update = None, lease = 0, lease_enabled = True \<rparr>"

definition leased_update :: "'d leased \<Rightarrow> nat \<Rightarrow> nat \<Rightarrow> 'd \<Rightarrow> 'd leased" where
  "leased_update v now ls d =
     v \<lparr> leased_data := d, last_update := Some now, lease := ls, lease_enabled := True \<rparr>"

definition disable_lease :: "'d leased \<Rightarrow> 'd leased" where
  "disable_lease v = v \<lparr> lease := 0, lease_enabled := False \<rparr>"

definition is_expired :: "'d leased \<Rightarrow> nat \<Rightarrow> nat \<Rightarrow> bool" where
  "is_expired v now timeout =
     (case last_update v of Some utime \<Rightarrow> now > utime + lease v + timeout | None \<Rightarrow> True)"

definition leased_touch :: "'d leased \<Rightarrow> nat \<Rightarrow> nat \<Rightarrow> 'd leased" where
  "leased_touch v now ls =
     (let v1 = v \<lparr> last_update := Some now \<rparr> in if lease_enabled v then v1 \<lparr> lease := ls \<rparr> else v1)"

lemma leased_data_simps [simp, state_simps]:
  "leased_data (leased_update v now ls d) = d"
  "leased_data (leased_touch v now ls) = leased_data v"
  "leased_data (disable_lease v) = leased_data v"
  "leased_data (leased_without_last_update d) = d"
  "leased_data (leased_new now ls d) = d"
  by (simp_all add: leased_update_def leased_touch_def disable_lease_def leased_without_last_update_def
      leased_new_def Let_def)

text \<open>A renewed lease expires exactly when its duration and the timeout have passed.\<close>

lemma is_expired_update: "is_expired (leased_update v t ls d) now timeout \<longleftrightarrow> t + ls + timeout < now"
  by (simp add: is_expired_def leased_update_def)

lemma is_expired_touch:
  "is_expired (leased_touch v t ls) now timeout \<longleftrightarrow>
   t + (if lease_enabled v then ls else lease v) + timeout < now"
  by (simp add: is_expired_def leased_touch_def Let_def)

text \<open>
  A disabled lease stays disabled under any number of touches: the data is protected by the
  timeout alone, until the data itself is updated.
\<close>

lemma disable_lease_touch:
  "is_expired (leased_touch (disable_lease v) t ls) now timeout \<longleftrightarrow> t + timeout < now"
  by (simp add: is_expired_touch disable_lease_def)

lemma is_expired_mono:
  "is_expired v now timeout \<Longrightarrow> now \<le> now' \<Longrightarrow> timeout' \<le> timeout \<Longrightarrow> is_expired v now' timeout'"
  by (auto simp: is_expired_def split: option.splits)

section \<open>Timeouts\<close>

record time_config =
  election_timeout :: nat
  smaller_log_timeout :: nat
  leader_lease :: nat

section \<open>Quiet periods of a leader without a quorum\<close>

record quorum_loss_probe =
  quorum_acked_at :: nat
  qlp_leader_lease :: nat
  qlp_interval :: nat

text \<open>\<open>phase\<close> divides by the interval: \<^const>\<open>None\<close> is the panic for an interval of zero.\<close>

definition phase :: "quorum_loss_probe \<Rightarrow> nat \<Rightarrow> (bool \<times> nat) option" where
  "phase q now =
     (let age = now - quorum_acked_at q in
      if age < qlp_leader_lease q then Some (False, qlp_leader_lease q - age)
      else if qlp_interval q = 0 then None
      else
        (let elapsed = age - qlp_leader_lease q;
             slot = elapsed div qlp_interval q;
             is_quiet = (slot mod 2 = 0);
             rest = elapsed mod qlp_interval q;
             into_slot = (if rest \<le> u64_max then rest else u64_max)
         in Some (is_quiet, qlp_interval q - into_slot)))"

definition quiet_for :: "quorum_loss_probe \<Rightarrow> nat \<Rightarrow> nat option option" where
  "quiet_for q now =
     map_option (\<lambda>(is_quiet, remaining). if is_quiet then Some remaining else None) (phase q now)"

lemma slot_shift:
  fixes e i t :: nat
  assumes "0 < i" "e mod i + t < i"
  shows "(e + t) div i = e div i" "(e + t) mod i = e mod i + t"
proof -
  have slot: "(m + q * i) div i = q" "(m + q * i) mod i = m" if "m < i" for m q using that by simp_all
  have "e mod i + t + (e div i) * i = e + t" by simp
  then show "(e + t) div i = e div i" "(e + t) mod i = e mod i + t"
    using slot[OF assms(2), of "e div i"] by (simp_all only:)
qed

lemma slot_next:
  fixes e i :: nat
  assumes "0 < i"
  shows "(e + (i - e mod i)) div i = e div i + 1" "(e + (i - e mod i)) mod i = 0"
proof -
  have "e = i * (e div i) + e mod i" "e mod i < i" using assms by simp_all
  then have "e + (i - e mod i) = i * (e div i) + i" by linarith
  then have "e + (i - e mod i) = i * (e div i + 1)" by simp
  then show "(e + (i - e mod i)) div i = e div i + 1" "(e + (i - e mod i)) mod i = 0"
    using assms by simp_all
qed

lemma phase_eq:
  assumes "0 < qlp_interval q" "qlp_interval q \<le> u64_max" "quorum_acked_at q + qlp_leader_lease q \<le> now"
  shows "phase q now =
    (let elapsed = now - quorum_acked_at q - qlp_leader_lease q
     in Some (elapsed div qlp_interval q mod 2 = 0, qlp_interval q - elapsed mod qlp_interval q))"
proof -
  have "\<not> now - quorum_acked_at q < qlp_leader_lease q" using assms(3) by simp
  moreover have "n mod qlp_interval q \<le> u64_max" for n
    using assms(1,2) mod_less_divisor[OF assms(1), of n] by (simp add: less_imp_le order.strict_trans1)
  ultimately show ?thesis using assms(1) by (simp add: phase_def Let_def)
qed

text \<open>
  Before its lease has expired a leader always may send.  After that, a quiet period of
  remaining length \<open>r\<close> stays quiet up to its end and is followed by a send period.
\<close>

lemma quiet_for_within_lease:
  "now - quorum_acked_at q < qlp_leader_lease q \<Longrightarrow> quiet_for q now = Some None"
  by (simp add: quiet_for_def phase_def Let_def)

lemma quiet_for_ends:
  assumes "0 < qlp_interval q" "qlp_interval q \<le> u64_max" "quorum_acked_at q \<le> now"
    "quiet_for q now = Some (Some r)"
  shows "0 < r" "\<And>t. t < r \<Longrightarrow> quiet_for q (now + t) = Some (Some (r - t))" "quiet_for q (now + r) = Some None"
proof -
  let ?i = "qlp_interval q" and ?e = "now - quorum_acked_at q - qlp_leader_lease q"
  have "\<not> now - quorum_acked_at q < qlp_leader_lease q"
    using assms(4) quiet_for_within_lease[of now q] by auto
  then have now: "quorum_acked_at q + qlp_leader_lease q \<le> now" using assms(3) by simp
  note eq = phase_eq[OF assms(1,2)]
  have quiet: "even (?e div ?i)" and r: "r = ?i - ?e mod ?i"
    using assms(4) eq[OF now] by (auto simp: quiet_for_def Let_def even_iff_mod_2_eq_zero split: if_splits)
  show "0 < r" using r assms(1) by simp
  show "quiet_for q (now + t) = Some (Some (r - t))" if "t < r" for t
  proof -
    have e: "now + t - quorum_acked_at q - qlp_leader_lease q = ?e + t" using now by simp
    have "?e mod ?i + t < ?i" using that r by simp
    then have shift: "(?e + t) div ?i = ?e div ?i" "(?e + t) mod ?i = ?e mod ?i + t"
      using slot_shift[OF assms(1)] by blast+
    have "phase q (now + t) = Some (even (?e div ?i), ?i - (?e mod ?i + t))"
      using eq[of "now + t"] now unfolding e Let_def shift by (simp add: even_iff_mod_2_eq_zero)
    then show ?thesis using quiet r by (simp add: quiet_for_def)
  qed
  have e: "now + r - quorum_acked_at q - qlp_leader_lease q = ?e + (?i - ?e mod ?i)" using now r by simp
  have "phase q (now + r) = Some (even (?e div ?i + 1), ?i)"
    using eq[of "now + r"] now unfolding e Let_def slot_next[OF assms(1)] by (simp add: even_iff_mod_2_eq_zero)
  then show "quiet_for q (now + r) = Some None" using quiet by (simp add: quiet_for_def)
qed

end
