(* ===== verification/BTree.thy ===== *)
theory BTree
  imports Prelude
begin

text \<open>
  The ordered collections of the Rust standard library that the code iterates over: a
  \<open>BTreeSet\<close> is the ascending list of its elements, a \<open>BTreeMap\<close> the list of its entries
  with ascending keys.
\<close>

section \<open>Ordered sets\<close>

definition btree_set :: "'a::linorder list \<Rightarrow> 'a list" where
  "btree_set xs = remdups (sort xs)"

definition btree_set_wf :: "'a::linorder list \<Rightarrow> bool" where
  "btree_set_wf s \<longleftrightarrow> sorted_wrt (<) s"

lemma btree_set_wf_iff: "btree_set_wf s \<longleftrightarrow> sorted s \<and> distinct s"
  by (simp add: btree_set_wf_def strict_sorted_iff)

lemma btree_set_props [simp]:
  "set (btree_set xs) = set xs"
  "distinct (btree_set xs)"
  "btree_set_wf (btree_set xs)"
  by (simp_all add: btree_set_def btree_set_wf_iff)

lemma btree_set_wf_distinct: "btree_set_wf s \<Longrightarrow> distinct s"
  by (simp add: btree_set_wf_iff)

lemma btree_set_wf_filter: "btree_set_wf s \<Longrightarrow> btree_set_wf (filter P s)"
  by (simp add: btree_set_wf_iff sorted_wrt_filter)

section \<open>Ordered maps\<close>

type_synonym ('k, 'v) btree_map = "('k \<times> 'v) list"

definition bm_wf :: "('k::linorder, 'v) btree_map \<Rightarrow> bool" where
  "bm_wf m \<longleftrightarrow> sorted_wrt (<) (map fst m)"

definition bm_get :: "('k, 'v) btree_map \<Rightarrow> 'k \<Rightarrow> 'v option" where
  "bm_get m k = map_of m k"

definition bm_contains_key :: "('k, 'v) btree_map \<Rightarrow> 'k \<Rightarrow> bool" where
  "bm_contains_key m k \<longleftrightarrow> bm_get m k \<noteq> None"

fun bm_insert :: "'k::linorder \<Rightarrow> 'v \<Rightarrow> ('k, 'v) btree_map \<Rightarrow> ('k, 'v) btree_map" where
  "bm_insert k v [] = [(k, v)]"
| "bm_insert k v ((k', v') # m) =
     (if k < k' then (k, v) # (k', v') # m
      else if k = k' then (k, v) # m
      else (k', v') # bm_insert k v m)"

definition bm_remove :: "'k \<Rightarrow> ('k, 'v) btree_map \<Rightarrow> ('k, 'v) btree_map" where
  "bm_remove k m = filter (\<lambda>(k', _). k' \<noteq> k) m"

definition bm_retain :: "('k \<Rightarrow> bool) \<Rightarrow> ('k, 'v) btree_map \<Rightarrow> ('k, 'v) btree_map" where
  "bm_retain P m = filter (\<lambda>(k, _). P k) m"

definition bm_keys :: "('k, 'v) btree_map \<Rightarrow> 'k list" where
  "bm_keys m = map fst m"

text \<open>\<open>entry(k).or_insert(v)\<close>: a value that is present stays.\<close>

definition bm_or_insert :: "'k::linorder \<Rightarrow> 'v \<Rightarrow> ('k, 'v) btree_map \<Rightarrow> ('k, 'v) btree_map" where
  "bm_or_insert k v m = (if bm_contains_key m k then m else bm_insert k v m)"

definition bm_of_list :: "('k::linorder \<times> 'v) list \<Rightarrow> ('k, 'v) btree_map" where
  "bm_of_list kvs = fold (\<lambda>(k, v) m. bm_insert k v m) kvs []"

lemma bm_wf_simps [simp]:
  "bm_wf []"
  "bm_wf ((k, v) # m) \<longleftrightarrow> (\<forall>k' \<in> fst ` set m. k < k') \<and> bm_wf m"
  by (auto simp: bm_wf_def)

lemma bm_insert_keys [simp]: "fst ` set (bm_insert k v m) = insert k (fst ` set m)"
  by (induction k v m rule: bm_insert.induct) (simp_all add: insert_commute)

lemma bm_insert_get [simp]:
  "bm_wf m \<Longrightarrow> bm_get (bm_insert k v m) k' = (if k' = k then Some v else bm_get m k')"
  by (induction k v m rule: bm_insert.induct) (auto simp: bm_get_def)

lemma bm_insert_wf [simp]: "bm_wf m \<Longrightarrow> bm_wf (bm_insert k v m)"
proof (induction k v m rule: bm_insert.induct)
  case (2 k v k' v' m)
  then show ?case using bm_insert_keys[of k v m] by (auto simp del: bm_insert_keys intro: less_trans)
qed simp

lemma bm_filter_wf: "bm_wf m \<Longrightarrow> bm_wf (filter P m)"
  by (induction m) (auto simp: bm_wf_def)

lemma bm_wf_distinct: "bm_wf m \<Longrightarrow> distinct (map fst m)"
  by (simp add: bm_wf_def strict_sorted_iff)

lemma bm_retain_wf [simp]: "bm_wf m \<Longrightarrow> bm_wf (bm_retain P m)"
  by (simp add: bm_retain_def bm_filter_wf)

lemma bm_retain_get [simp]: "bm_get (bm_retain P m) k = (if P k then bm_get m k else None)"
  by (induction m) (auto simp: bm_retain_def bm_get_def)

lemma bm_remove_eq: "bm_remove k m = bm_retain (\<lambda>k'. k' \<noteq> k) m"
  by (simp add: bm_remove_def bm_retain_def)

lemma bm_remove_wf [simp]: "bm_wf m \<Longrightarrow> bm_wf (bm_remove k m)"
  by (simp add: bm_remove_eq)

lemma bm_remove_get [simp]: "bm_get (bm_remove k m) k' = (if k' = k then None else bm_get m k')"
  by (simp add: bm_remove_eq)

lemma bm_or_insert_wf [simp]: "bm_wf m \<Longrightarrow> bm_wf (bm_or_insert k v m)"
  by (simp add: bm_or_insert_def)

lemma bm_or_insert_get [simp]:
  "bm_wf m \<Longrightarrow> bm_get (bm_or_insert k v m) k' =
   (case bm_get m k' of Some x \<Rightarrow> Some x | None \<Rightarrow> if k' = k then Some v else None)"
  by (auto simp: bm_or_insert_def bm_contains_key_def split: option.split)

lemma bm_get_nil [simp]: "bm_get [] k = None"
  by (simp add: bm_get_def)

lemma bm_keys_get: "k \<in> set (bm_keys m) \<longleftrightarrow> bm_get m k \<noteq> None"
  by (auto simp: bm_keys_def bm_get_def map_of_eq_None_iff)

lemma bm_map_value_get:
  "bm_get (map (\<lambda>(k, v). (k, f k v)) m) k = map_option (f k) (bm_get m k)"
  by (induction m) (auto simp: bm_get_def)

lemma bm_map_value_wf [simp]: "bm_wf (map (\<lambda>(k, v). (k, f k v)) m) = bm_wf m"
  by (simp add: bm_wf_def comp_def case_prod_unfold)

section \<open>The map as an interface\<close>

locale ordered_map =
  fixes empty :: 'm and insert_kv :: "'k \<Rightarrow> 'v \<Rightarrow> 'm \<Rightarrow> 'm" and remove_k :: "'k \<Rightarrow> 'm \<Rightarrow> 'm"
    and lookup :: "'m \<Rightarrow> 'k \<Rightarrow> 'v option" and inv :: "'m \<Rightarrow> bool"
  assumes lookup_empty: "lookup empty k = None"
    and lookup_insert: "inv m \<Longrightarrow> lookup (insert_kv k v m) k' = (if k' = k then Some v else lookup m k')"
    and lookup_remove: "inv m \<Longrightarrow> lookup (remove_k k m) k' = (if k' = k then None else lookup m k')"
    and inv_empty: "inv empty"
    and inv_insert: "inv m \<Longrightarrow> inv (insert_kv k v m)"
    and inv_remove: "inv m \<Longrightarrow> inv (remove_k k m)"
begin

lemma lookup_insert_all:
  "inv m \<Longrightarrow> inv (fold (\<lambda>(k, v). insert_kv k v) kvs m) \<and>
   lookup (fold (\<lambda>(k, v). insert_kv k v) kvs m) k =
     (case map_of (rev kvs) k of Some v \<Rightarrow> Some v | None \<Rightarrow> lookup m k)"
proof (induction kvs arbitrary: m)
  case (Cons kv kvs)
  obtain k' v' where "kv = (k', v')" by force
  then show ?case using Cons.IH[of "insert_kv k' v' m"] Cons.prems
    by (auto simp: lookup_insert inv_insert map_add_def split: option.splits)
qed simp

lemma lookup_remove_all:
  "inv m \<Longrightarrow> inv (fold remove_k ks m) \<and>
   lookup (fold remove_k ks m) k = (if k \<in> set ks then None else lookup m k)"
  by (induction ks arbitrary: m) (simp_all add: lookup_remove inv_remove)

end

interpretation btree: ordered_map "[]" bm_insert bm_remove bm_get bm_wf
  by unfold_locales simp_all

lemma bm_of_list_get: "bm_get (bm_of_list kvs) k = map_of (rev kvs) k"
  using btree.lookup_insert_all[of "[]" kvs k]
  by (auto simp: bm_of_list_def case_prod_unfold split: option.splits)

lemma bm_of_list_wf [simp]: "bm_wf (bm_of_list kvs)"
  using btree.lookup_insert_all[of "[]" kvs] by (simp add: bm_of_list_def case_prod_unfold)

end
