(* ===== verification/RaftMembership.thy ===== *)
theory RaftMembership
  imports BTree "HOL-Library.Word"
begin

text \<open>
  The interface of membership configurations (\<open>openraft/src/membership\<close>): node roles and
  node references, the traits \<open>RaftMembership\<close>, \<open>QuorumSet\<close> and
  \<open>QuorumIntersection\<close> as the record \<open>membership_ops\<close>, the operations that
  \<open>RaftMembershipExt\<close> derives from them, and the locale \<open>raft_membership\<close> of the laws
  that the traits document.  \<open>Inl\<close> of a result is Rust's \<open>Err\<close>; an operation that may
  panic returns \<open>None\<close> then.
\<close>

unbundle bit_operations_syntax

section \<open>Roles and nodes\<close>

datatype node_role = NodeRole (role_bits: "8 word")

definition RoleEmpty :: node_role where
  "RoleEmpty = NodeRole 0"

definition Campaigner :: node_role where
  "Campaigner = NodeRole (push_bit 0 1)"

definition ReceiveLogs :: node_role where
  "ReceiveLogs = NodeRole (push_bit 1 1)"

definition role_contains :: "node_role \<Rightarrow> node_role \<Rightarrow> bool" where
  "role_contains a r \<longleftrightarrow> role_bits a AND role_bits r = role_bits r"

definition role_or :: "node_role \<Rightarrow> node_role \<Rightarrow> node_role" where
  "role_or a b = NodeRole (role_bits a OR role_bits b)"

lemma role_or_contains: "role_contains (role_or a b) a" "role_contains (role_or a b) b"
  by (auto simp: role_contains_def role_or_def bit_eq_iff bit_simps)

lemma role_contains_mono: "role_contains a r \<Longrightarrow> role_contains (role_or a b) r"
  by (auto simp: role_contains_def role_or_def bit_eq_iff bit_simps)

lemma role_contains_basic [simp]:
  "role_contains Campaigner Campaigner" "role_contains ReceiveLogs ReceiveLogs"
  "\<not> role_contains ReceiveLogs Campaigner" "\<not> role_contains Campaigner ReceiveLogs"
  by (simp_all add: role_contains_def Campaigner_def ReceiveLogs_def)

record 'nd node_ref =
  nr_node :: 'nd
  nr_role :: node_role
  nr_is_read_voter :: bool
  nr_is_write_voter :: bool

definition node_ref_is_learner :: "'nd node_ref \<Rightarrow> bool" where
  "node_ref_is_learner r =
     (if \<not> role_contains (nr_role r) ReceiveLogs then False
      else
        (let is_campaigner = role_contains (nr_role r) Campaigner;
             is_voter = nr_is_read_voter r \<or> nr_is_write_voter r
         in \<not> (is_campaigner \<or> is_voter)))"

section \<open>The traits\<close>

record ('n, 'nd, 'm, 'q) membership_ops =
  m_default :: 'm
  read_quorum_set :: "'m \<Rightarrow> 'q"
  write_quorum_set :: "'m \<Rightarrow> 'q"
  read_write_quorums_intersect :: "'m \<Rightarrow> bool option"
  supports_direct_transition_to :: "'m \<Rightarrow> 'm \<Rightarrow> bool"
  get_node :: "'m \<Rightarrow> 'n \<Rightarrow> 'nd node_ref option"
  node_ids :: "'m \<Rightarrow> 'n list"
  joint_with :: "'m \<Rightarrow> 'm \<Rightarrow> 'm option"
  qs_is_quorum :: "'q \<Rightarrow> 'n list \<Rightarrow> bool"
  qs_ids :: "'q \<Rightarrow> 'n list"
  qs_intersects_with :: "'q \<Rightarrow> 'q \<Rightarrow> bool option"

text \<open>The body that \<open>read_write_quorums_intersect\<close> has unless a type overrides it.\<close>

definition default_read_write_quorums_intersect ::
  "('m \<Rightarrow> 'q) \<Rightarrow> ('m \<Rightarrow> 'q) \<Rightarrow> ('q \<Rightarrow> 'q \<Rightarrow> bool option) \<Rightarrow> 'm \<Rightarrow> bool option" where
  "default_read_write_quorums_intersect rd wr intersects m = intersects (rd m) (wr m)"

section \<open>Errors\<close>

datatype ('n, 'e) membership_error =
    EmptyMembership
  | NodeNotFound 'n
  | UnprovenReadWriteIntersection
  | WriteVoterWithoutReceiveLogs 'n
  | UserDefined 'e

datatype ('c, 'n, 'e) change_membership_error =
    InProgress "'c option" "'c option"
  | CEmptyMembership
  | CLearnerNotFound 'n
  | CUnprovenReadWriteIntersection
  | CWriteVoterWithoutReceiveLogs 'n
  | CNodeMetadataChanged 'n
  | CUnsupportedMembershipTransition
  | CUncommittedLeaderLog "'c option" 'c
  | CUserDefined 'e

fun map_user_defined :: "('e \<Rightarrow> 'f) \<Rightarrow> ('n, 'e) membership_error \<Rightarrow> ('n, 'f) membership_error" where
  "map_user_defined f EmptyMembership = EmptyMembership"
| "map_user_defined f (NodeNotFound n) = NodeNotFound n"
| "map_user_defined f UnprovenReadWriteIntersection = UnprovenReadWriteIntersection"
| "map_user_defined f (WriteVoterWithoutReceiveLogs n) = WriteVoterWithoutReceiveLogs n"
| "map_user_defined f (UserDefined e) = UserDefined (f e)"

fun into_change_membership_error :: "('n, 'e) membership_error \<Rightarrow> ('c, 'n, 'e) change_membership_error" where
  "into_change_membership_error EmptyMembership = CEmptyMembership"
| "into_change_membership_error (NodeNotFound n) = CLearnerNotFound n"
| "into_change_membership_error UnprovenReadWriteIntersection = CUnprovenReadWriteIntersection"
| "into_change_membership_error (WriteVoterWithoutReceiveLogs n) = CWriteVoterWithoutReceiveLogs n"
| "into_change_membership_error (UserDefined e) = CUserDefined e"

section \<open>Derived operations\<close>

definition mem_contains :: "('n, 'nd, 'm, 'q) membership_ops \<Rightarrow> 'm \<Rightarrow> 'n \<Rightarrow> bool" where
  "mem_contains M m nid \<longleftrightarrow> get_node M m nid \<noteq> None"

definition mem_is_campaigner :: "('n, 'nd, 'm, 'q) membership_ops \<Rightarrow> 'm \<Rightarrow> 'n \<Rightarrow> bool" where
  "mem_is_campaigner M m nid =
     (case get_node M m nid of None \<Rightarrow> False | Some node \<Rightarrow> role_contains (nr_role node) Campaigner)"

definition mem_receives_logs :: "('n, 'nd, 'm, 'q) membership_ops \<Rightarrow> 'm \<Rightarrow> 'n \<Rightarrow> bool" where
  "mem_receives_logs M m nid =
     (case get_node M m nid of None \<Rightarrow> False | Some node \<Rightarrow> role_contains (nr_role node) ReceiveLogs)"

definition mem_is_write_voter :: "('n, 'nd, 'm, 'q) membership_ops \<Rightarrow> 'm \<Rightarrow> 'n \<Rightarrow> bool" where
  "mem_is_write_voter M m nid =
     (case get_node M m nid of None \<Rightarrow> False | Some node \<Rightarrow> nr_is_write_voter node)"

definition mem_is_learner :: "('n, 'nd, 'm, 'q) membership_ops \<Rightarrow> 'm \<Rightarrow> 'n \<Rightarrow> bool" where
  "mem_is_learner M m nid =
     (case get_node M m nid of None \<Rightarrow> False | Some node \<Rightarrow> node_ref_is_learner node)"

definition mem_voter_ids :: "('n::linorder, 'nd, 'm, 'q) membership_ops \<Rightarrow> 'm \<Rightarrow> 'n list" where
  "mem_voter_ids M m = btree_set (qs_ids M (read_quorum_set M m) @ qs_ids M (write_quorum_set M m))"

definition mem_non_write_voter_ids :: "('n, 'nd, 'm, 'q) membership_ops \<Rightarrow> 'm \<Rightarrow> 'n list" where
  "mem_non_write_voter_ids M m = filter (\<lambda>nid. \<not> mem_is_write_voter M m nid) (node_ids M m)"

definition ensure_node_metadata_unchanged ::
  "('n, 'nd, 'm, 'q) membership_ops \<Rightarrow> 'm \<Rightarrow> 'm \<Rightarrow> 'n + unit" where
  "ensure_node_metadata_unchanged M m other =
     (case find (\<lambda>nid.
              case (get_node M m nid, get_node M other nid) of
                (Some node, Some other_node) \<Rightarrow> nr_node other_node \<noteq> nr_node node
              | _ \<Rightarrow> False) (node_ids M m) of
        Some nid \<Rightarrow> Inl nid
      | None \<Rightarrow> Inr ())"

definition usable_quorum_set :: "('n, 'nd, 'm, 'q) membership_ops \<Rightarrow> 'q \<Rightarrow> bool" where
  "usable_quorum_set M q \<longleftrightarrow> \<not> qs_is_quorum M q [] \<and> qs_is_quorum M q (qs_ids M q)"

definition ensure_non_empty_config ::
  "('n, 'nd, 'm, 'q) membership_ops \<Rightarrow> 'm \<Rightarrow> ('n, 'e) membership_error + unit" where
  "ensure_non_empty_config M m =
     (if \<not> usable_quorum_set M (read_quorum_set M m) then Inl EmptyMembership
      else if \<not> usable_quorum_set M (write_quorum_set M m) then Inl EmptyMembership
      else Inr ())"

definition ensure_voters_have_nodes ::
  "('n::linorder, 'nd, 'm, 'q) membership_ops \<Rightarrow> 'm \<Rightarrow> ('n, 'e) membership_error + unit" where
  "ensure_voters_have_nodes M m =
     (case find (\<lambda>nid. \<not> mem_contains M m nid) (mem_voter_ids M m) of
        Some nid \<Rightarrow> Inl (NodeNotFound nid)
      | None \<Rightarrow> Inr ())"

definition ensure_write_voters_receive_logs ::
  "('n, 'nd, 'm, 'q) membership_ops \<Rightarrow> 'm \<Rightarrow> ('n, 'e) membership_error + unit" where
  "ensure_write_voters_receive_logs M m =
     (case find (\<lambda>nid. \<not> mem_receives_logs M m nid) (qs_ids M (write_quorum_set M m)) of
        Some nid \<Rightarrow> Inl (WriteVoterWithoutReceiveLogs nid)
      | None \<Rightarrow> Inr ())"

definition ensure_read_write_quorums_intersect ::
  "('n, 'nd, 'm, 'q) membership_ops \<Rightarrow> 'm \<Rightarrow> ('n, 'e) membership_error + unit" where
  "ensure_read_write_quorums_intersect M m =
     (if read_write_quorums_intersect M m = Some True then Inr () else Inl UnprovenReadWriteIntersection)"

definition allows_direct_transition_to ::
  "('n, 'nd, 'm, 'q) membership_ops \<Rightarrow> 'm \<Rightarrow> 'm \<Rightarrow> bool" where
  "allows_direct_transition_to M m other =
     (if \<not> (usable_quorum_set M (read_quorum_set M m) \<and> usable_quorum_set M (write_quorum_set M m)) then False
      else if \<not> (usable_quorum_set M (read_quorum_set M other) \<and> usable_quorum_set M (write_quorum_set M other))
      then False
      else supports_direct_transition_to M m other)"

section \<open>What the traits promise\<close>

definition quorums_meet :: "('n list \<Rightarrow> bool) \<Rightarrow> ('n list \<Rightarrow> bool) \<Rightarrow> bool" where
  "quorums_meet P Q \<longleftrightarrow> (\<forall>xs ys. P xs \<longrightarrow> Q ys \<longrightarrow> set xs \<inter> set ys \<noteq> {})"

lemma quorums_meet_sym: "quorums_meet P Q \<Longrightarrow> quorums_meet Q P"
  by (auto simp: quorums_meet_def)

lemma quorums_meet_mono:
  "quorums_meet P Q \<Longrightarrow> (\<And>xs. P' xs \<Longrightarrow> P xs) \<Longrightarrow> (\<And>xs. Q' xs \<Longrightarrow> Q xs) \<Longrightarrow> quorums_meet P' Q'"
  by (auto simp: quorums_meet_def)

definition read_quorum :: "('n, 'nd, 'm, 'q) membership_ops \<Rightarrow> 'm \<Rightarrow> 'n list \<Rightarrow> bool" where
  "read_quorum M m xs = qs_is_quorum M (read_quorum_set M m) xs"

definition write_quorum :: "('n, 'nd, 'm, 'q) membership_ops \<Rightarrow> 'm \<Rightarrow> 'n list \<Rightarrow> bool" where
  "write_quorum M m xs = qs_is_quorum M (write_quorum_set M m) xs"

text \<open>A step between two memberships is safe when each one's elections see the other's commits.\<close>

definition safe_step :: "('n, 'nd, 'm, 'q) membership_ops \<Rightarrow> 'm \<Rightarrow> 'm \<Rightarrow> bool" where
  "safe_step M m m' \<longleftrightarrow>
     quorums_meet (read_quorum M m) (write_quorum M m') \<and> quorums_meet (read_quorum M m') (write_quorum M m)"

definition consistent :: "('n, 'nd, 'm, 'q) membership_ops \<Rightarrow> 'm \<Rightarrow> bool" where
  "consistent M m \<longleftrightarrow> quorums_meet (read_quorum M m) (write_quorum M m)"

text \<open>
  The predicate \<open>valid\<close> is the invariant of the membership type, which its constructors and
  edits establish.
\<close>

locale raft_membership =
  fixes M :: "('n::linorder, 'nd, 'm, 'q) membership_ops" and valid :: "'m \<Rightarrow> bool"
  assumes quorum_mono:
      "valid m \<Longrightarrow> set xs \<subseteq> set ys \<Longrightarrow> read_quorum M m xs \<Longrightarrow> read_quorum M m ys"
      "valid m \<Longrightarrow> set xs \<subseteq> set ys \<Longrightarrow> write_quorum M m xs \<Longrightarrow> write_quorum M m ys"
    and intersect_sound:
      "valid m \<Longrightarrow> read_write_quorums_intersect M m = Some True \<Longrightarrow> consistent M m"
    and direct_sound:
      "valid m \<Longrightarrow> valid m' \<Longrightarrow> supports_direct_transition_to M m m' \<Longrightarrow> safe_step M m m'"
    and joint_total:
      "valid m \<Longrightarrow> valid goal \<Longrightarrow> \<exists>j. joint_with M m goal = Some j \<and> valid j"
    and joint_read:
      "valid m \<Longrightarrow> valid goal \<Longrightarrow> joint_with M m goal = Some j \<Longrightarrow> read_quorum M j xs \<Longrightarrow>
       read_quorum M m xs \<and> read_quorum M goal xs"
    and joint_write:
      "valid m \<Longrightarrow> valid goal \<Longrightarrow> joint_with M m goal = Some j \<Longrightarrow> write_quorum M j xs \<Longrightarrow>
       write_quorum M m xs \<and> write_quorum M goal xs"
begin

lemma joint_safe_from:
  assumes "valid m" "valid goal" "joint_with M m goal = Some j" "consistent M m"
  shows "safe_step M m j" "consistent M j"
  using assms joint_read[OF assms(1-3)] joint_write[OF assms(1-3)]
  unfolding safe_step_def consistent_def quorums_meet_def by blast+

lemma joint_safe_to:
  assumes "valid m" "valid goal" "joint_with M m goal = Some j" "consistent M goal"
  shows "safe_step M j goal"
  using assms joint_read[OF assms(1-3)] joint_write[OF assms(1-3)]
  unfolding safe_step_def consistent_def quorums_meet_def by blast

lemma allows_direct_safe:
  "valid m \<Longrightarrow> valid m' \<Longrightarrow> allows_direct_transition_to M m m' \<Longrightarrow> safe_step M m m'"
  by (auto simp: allows_direct_transition_to_def direct_sound split: if_splits)

lemma ensured_consistent:
  "valid m \<Longrightarrow> ensure_read_write_quorums_intersect M m = Inr () \<Longrightarrow> consistent M m"
  by (auto simp: ensure_read_write_quorums_intersect_def intersect_sound split: if_splits)

text \<open>
  The step into a joint configuration and the step out of it are safe, even when the direct
  step between the two configurations is not.
\<close>

lemma joint_change_safe:
  assumes "valid m" "valid goal" "consistent M m"
    "ensure_read_write_quorums_intersect M goal = Inr ()"
  shows "\<exists>j. joint_with M m goal = Some j \<and> valid j \<and> safe_step M m j \<and> safe_step M j goal"
proof -
  obtain j where j: "joint_with M m goal = Some j" "valid j" using joint_total assms(1,2) by blast
  then show ?thesis
    using joint_safe_from[OF assms(1,2) j(1)] joint_safe_to[OF assms(1,2) j(1)] assms ensured_consistent
    by blast
qed

end

end
