(* ===== verification/QuorumRules.thy ===== *)
theory QuorumRules
  imports RaftMembership
begin

text \<open>
  Quorum rules of the crate \<open>openraft-membership\<close> that count: \<open>Joint\<close>
  (\<open>quorum/joint.rs\<close>), \<open>ThresholdQuorumSet\<close> (\<open>quorum/threshold_quorum_set.rs\<close>)
  and \<open>WeightedQuorumSet\<close> (\<open>weighted/weighted_quorum_set.rs\<close>).  The locale
  \<open>quorum_rule\<close> states what a rule owes to its users; the facts about joints are proved
  once for every rule.
\<close>

section \<open>Joints of rules\<close>

datatype 't joint = Joint (joint_parts: "'t list")

definition joint_default :: "'t joint" where
  "joint_default = Joint []"

definition joint_from_rules :: "'t list \<Rightarrow> 't joint" where
  "joint_from_rules rules = Joint rules"

fun all_rules_accept :: "('r \<Rightarrow> 'n list \<Rightarrow> bool) \<Rightarrow> 'r list \<Rightarrow> 'n list \<Rightarrow> bool" where
  "all_rules_accept is_q [] ids = True"
| "all_rules_accept is_q (rule # rules) ids =
     (if \<not> is_q rule ids then False else all_rules_accept is_q rules ids)"

definition joint_is_quorum :: "('r \<Rightarrow> 'n list \<Rightarrow> bool) \<Rightarrow> 'r joint \<Rightarrow> 'n list \<Rightarrow> bool" where
  "joint_is_quorum is_q j ids =
     (if joint_parts j = [] then False else all_rules_accept is_q (joint_parts j) ids)"

definition joint_ids :: "('r \<Rightarrow> 'n::linorder list) \<Rightarrow> 'r joint \<Rightarrow> 'n list" where
  "joint_ids rids j = btree_set (concat (map rids (joint_parts j)))"

definition joint_intersects_with :: "('r \<Rightarrow> 'r \<Rightarrow> bool option) \<Rightarrow> 'r joint \<Rightarrow> 'r joint \<Rightarrow> bool option" where
  "joint_intersects_with isect j other =
     (let either_is_empty = (joint_parts j = [] \<or> joint_parts other = [])
      in if either_is_empty then Some True
         else
           (let both_uniform = (length (joint_parts j) = 1 \<and> length (joint_parts other) = 1)
            in if both_uniform then isect (joint_parts j ! 0) (joint_parts other ! 0)
               else if list_ex (\<lambda>a. list_ex (\<lambda>b. isect a b = Some True) (joint_parts other)) (joint_parts j)
               then Some True
               else None))"

definition joint_joint_with :: "'t joint \<Rightarrow> 't joint \<Rightarrow> 't joint" where
  "joint_joint_with j other =
     (if joint_parts j = [] \<or> joint_parts other = [] then joint_default
      else Joint (joint_parts j @ joint_parts other))"

lemma all_rules_accept_iff: "all_rules_accept is_q rules ids \<longleftrightarrow> (\<forall>r \<in> set rules. is_q r ids)"
  by (induction rules) auto

lemma joint_is_quorum_iff:
  "joint_is_quorum is_q j ids \<longleftrightarrow> joint_parts j \<noteq> [] \<and> (\<forall>r \<in> set (joint_parts j). is_q r ids)"
  by (auto simp: joint_is_quorum_def all_rules_accept_iff)

lemma joint_with_quorum:
  "joint_is_quorum is_q (joint_joint_with a b) ids \<longleftrightarrow>
   joint_is_quorum is_q a ids \<and> joint_is_quorum is_q b ids"
  by (auto simp: joint_is_quorum_iff joint_joint_with_def joint_default_def)

section \<open>What a rule promises\<close>

locale quorum_rule =
  fixes rule_wf :: "'r \<Rightarrow> bool"
    and is_quorum :: "'r \<Rightarrow> 'n::linorder list \<Rightarrow> bool"
    and rids :: "'r \<Rightarrow> 'n list"
    and isect :: "'r \<Rightarrow> 'r \<Rightarrow> bool option"
  assumes rule_mono: "rule_wf r \<Longrightarrow> set xs \<subseteq> set ys \<Longrightarrow> is_quorum r xs \<Longrightarrow> is_quorum r ys"
    and rule_empty: "rule_wf r \<Longrightarrow> \<not> is_quorum r []"
    and rule_relevant: "rule_wf r \<Longrightarrow> is_quorum r xs \<Longrightarrow> is_quorum r (filter (\<lambda>x. x \<in> set (rids r)) xs)"
    and isect_sound:
      "rule_wf a \<Longrightarrow> rule_wf b \<Longrightarrow> isect a b = Some True \<Longrightarrow> quorums_meet (is_quorum a) (is_quorum b)"
    and isect_refute:
      "rule_wf a \<Longrightarrow> rule_wf b \<Longrightarrow> isect a b = Some False \<Longrightarrow> \<not> quorums_meet (is_quorum a) (is_quorum b)"
begin

lemma joint_mono:
  "list_all rule_wf (joint_parts j) \<Longrightarrow> set xs \<subseteq> set ys \<Longrightarrow>
   joint_is_quorum is_quorum j xs \<Longrightarrow> joint_is_quorum is_quorum j ys"
  by (auto simp: joint_is_quorum_iff list_all_iff intro: rule_mono)

lemma joint_sound:
  assumes wf: "list_all rule_wf (joint_parts a)" "list_all rule_wf (joint_parts b)"
    and yes: "joint_intersects_with isect a b = Some True"
  shows "quorums_meet (joint_is_quorum is_quorum a) (joint_is_quorum is_quorum b)"
proof (cases "joint_parts a = [] \<or> joint_parts b = []")
  case True
  then show ?thesis by (auto simp: quorums_meet_def joint_is_quorum_iff)
next
  case False
  have "\<exists>r \<in> set (joint_parts a). \<exists>s \<in> set (joint_parts b). isect r s = Some True"
  proof (cases "length (joint_parts a) = 1 \<and> length (joint_parts b) = 1")
    case True
    then show ?thesis using yes False
      by (auto simp: joint_intersects_with_def Let_def length_Suc_conv)
  next
    case no: False
    then show ?thesis using yes False
      by (auto simp: joint_intersects_with_def Let_def list_ex_iff split: if_splits)
  qed
  then obtain r s where "r \<in> set (joint_parts a)" "s \<in> set (joint_parts b)" "isect r s = Some True"
    by blast
  moreover from this have "quorums_meet (is_quorum r) (is_quorum s)"
    using wf by (auto simp: list_all_iff intro: isect_sound)
  ultimately show ?thesis
    by (auto simp: joint_is_quorum_iff elim!: quorums_meet_mono)
qed

lemma joint_refute:
  assumes wf: "list_all rule_wf (joint_parts a)" "list_all rule_wf (joint_parts b)"
    and no: "joint_intersects_with isect a b = Some False"
  shows "\<not> quorums_meet (joint_is_quorum is_quorum a) (joint_is_quorum is_quorum b)"
proof -
  have "length (joint_parts a) = 1 \<and> length (joint_parts b) = 1"
    using no by (auto simp: joint_intersects_with_def Let_def split: if_splits)
  then obtain r s where parts: "joint_parts a = [r]" "joint_parts b = [s]"
    by (auto simp: length_Suc_conv)
  then have "isect r s = Some False" using no by (simp add: joint_intersects_with_def)
  then have "\<not> quorums_meet (is_quorum r) (is_quorum s)"
    using wf parts by (auto simp: isect_refute)
  then show ?thesis by (simp add: quorums_meet_def joint_is_quorum_iff parts)
qed

text \<open>A joint of rules is a rule again.\<close>

lemma joint_rule:
  "quorum_rule (\<lambda>j. list_all rule_wf (joint_parts j)) (joint_is_quorum is_quorum)
     (joint_ids rids) (joint_intersects_with isect)"
proof unfold_locales
  fix j :: "'r joint" and xs ys :: "'n list"
  assume wf: "list_all rule_wf (joint_parts j)"
  then show "\<not> joint_is_quorum is_quorum j []"
    by (auto simp: joint_is_quorum_iff list_all_iff rule_empty neq_Nil_conv)
  show "set xs \<subseteq> set ys \<Longrightarrow> joint_is_quorum is_quorum j xs \<Longrightarrow> joint_is_quorum is_quorum j ys"
    using wf by (rule joint_mono)
  assume q: "joint_is_quorum is_quorum j xs"
  have "is_quorum r (filter (\<lambda>x. x \<in> set (joint_ids rids j)) xs)" if r: "r \<in> set (joint_parts j)" for r
  proof -
    have "is_quorum r (filter (\<lambda>x. x \<in> set (rids r)) xs)"
      using q r wf by (auto simp: joint_is_quorum_iff list_all_iff intro: rule_relevant)
    then show ?thesis
      using r wf by (auto simp: joint_ids_def list_all_iff elim!: rule_mono[rotated 2])
  qed
  then show "joint_is_quorum is_quorum j (filter (\<lambda>x. x \<in> set (joint_ids rids j)) xs)"
    using q by (auto simp: joint_is_quorum_iff)
next
  fix a b :: "'r joint"
  assume wf: "list_all rule_wf (joint_parts a)" "list_all rule_wf (joint_parts b)"
  show "joint_intersects_with isect a b = Some True \<Longrightarrow>
        quorums_meet (joint_is_quorum is_quorum a) (joint_is_quorum is_quorum b)"
    using wf by (rule joint_sound)
  show "joint_intersects_with isect a b = Some False \<Longrightarrow>
        \<not> quorums_meet (joint_is_quorum is_quorum a) (joint_is_quorum is_quorum b)"
    using wf by (rule joint_refute)
qed

end

section \<open>Thresholds\<close>

record 'n threshold_quorum_set =
  t_ids :: "'n list"
  t_quorum_size :: nat

definition threshold_new :: "nat \<Rightarrow> 'n list \<Rightarrow> 'n threshold_quorum_set" where
  "threshold_new sz ids = \<lparr>t_ids = ids, t_quorum_size = sz\<rparr>"

fun threshold_loop :: "nat \<Rightarrow> 'n list \<Rightarrow> nat \<Rightarrow> 'n list \<Rightarrow> bool" where
  "threshold_loop sz ids count [] = False"
| "threshold_loop sz ids count (nid # rest) =
     (if nid \<in> set ids then
        (let count = count + 1 in if count \<ge> sz then True else threshold_loop sz ids count rest)
      else threshold_loop sz ids count rest)"

definition threshold_is_quorum :: "'n threshold_quorum_set \<Rightarrow> 'n list \<Rightarrow> bool" where
  "threshold_is_quorum r ids = threshold_loop (t_quorum_size r) ids 0 (t_ids r)"

definition threshold_intersects_with ::
  "'n threshold_quorum_set \<Rightarrow> 'n threshold_quorum_set \<Rightarrow> bool option" where
  "threshold_intersects_with r other =
     (let only_self = length (filter (\<lambda>x. x \<notin> set (t_ids other)) (t_ids r));
          only_other = length (filter (\<lambda>x. x \<notin> set (t_ids r)) (t_ids other));
          shared = length (filter (\<lambda>x. x \<in> set (t_ids other)) (t_ids r));
          need_self = t_quorum_size r - only_self;
          need_other = t_quorum_size other - only_other;
          need_both = saturating_add need_self need_other
      in Some (need_both > shared))"

text \<open>
  The sizes that Rust's types guarantee: the quorum size is a \<open>NonZeroU64\<close> and a set in memory
  has fewer than \<open>u64::MAX\<close> elements.
\<close>

definition threshold_wf :: "'n::linorder threshold_quorum_set \<Rightarrow> bool" where
  "threshold_wf r \<longleftrightarrow>
     btree_set_wf (t_ids r) \<and> length (t_ids r) < u64_max \<and> 0 < t_quorum_size r \<and> t_quorum_size r \<le> u64_max"

lemma threshold_loop_iff:
  "count < sz \<Longrightarrow>
   threshold_loop sz ids count rest \<longleftrightarrow> sz \<le> count + length (filter (\<lambda>x. x \<in> set ids) rest)"
  by (induction sz ids count rest rule: threshold_loop.induct) (auto simp: Let_def)

lemma filter_length_card:
  "distinct xs \<Longrightarrow> length (filter (\<lambda>x. x \<in> A) xs) = card (set xs \<inter> A)"
  "distinct xs \<Longrightarrow> length (filter (\<lambda>x. x \<notin> A) xs) = card (set xs - A)"
  using distinct_card[of "filter (\<lambda>x. x \<in> A) xs"] distinct_card[of "filter (\<lambda>x. x \<notin> A) xs"]
  by (simp_all add: Int_def set_diff_eq)

lemma threshold_is_quorum_card:
  assumes "threshold_wf r"
  shows "threshold_is_quorum r ids \<longleftrightarrow> t_quorum_size r \<le> card (set (t_ids r) \<inter> set ids)"
  using assms
  by (simp add: threshold_is_quorum_def threshold_loop_iff threshold_wf_def btree_set_wf_distinct
      filter_length_card)

text \<open>The two needs of the intersection check, over the sets of the two rules.\<close>

definition threshold_need :: "'n threshold_quorum_set \<Rightarrow> 'n threshold_quorum_set \<Rightarrow> nat" where
  "threshold_need r other = t_quorum_size r - card (set (t_ids r) - set (t_ids other))"

lemma saturating_add_above: "s < u64_max \<Longrightarrow> s < saturating_add a b \<longleftrightarrow> s < a + b"
  by (simp add: saturating_add_def)

lemma threshold_intersects_card:
  assumes "threshold_wf a" "threshold_wf b"
  shows "threshold_intersects_with a b =
         Some (card (set (t_ids a) \<inter> set (t_ids b)) < threshold_need a b + threshold_need b a)"
proof -
  have d: "distinct (t_ids a)" "distinct (t_ids b)"
    using assms by (simp_all add: threshold_wf_def btree_set_wf_distinct)
  have "card (set (t_ids a) \<inter> set (t_ids b)) \<le> length (t_ids a)"
    by (metis card_length card_mono finite_set inf_le1 le_trans)
  then have "card (set (t_ids a) \<inter> set (t_ids b)) < u64_max" using assms by (simp add: threshold_wf_def)
  then show ?thesis
    using d by (simp add: threshold_intersects_with_def Let_def filter_length_card threshold_need_def
        saturating_add_above Int_commute)
qed

lemma threshold_disjoint_needs:
  assumes wf: "threshold_wf a" "threshold_wf b"
    and q: "threshold_is_quorum a xs" "threshold_is_quorum b ys" and disj: "set xs \<inter> set ys = {}"
  shows "threshold_need a b + threshold_need b a \<le> card (set (t_ids a) \<inter> set (t_ids b))"
proof -
  let ?A = "set (t_ids a)" and ?B = "set (t_ids b)"
  have need: "threshold_need r s \<le> card (set (t_ids r) \<inter> set (t_ids s) \<inter> set zs)"
    if "threshold_wf r" "threshold_is_quorum r zs" for r s :: "'a threshold_quorum_set" and zs
  proof -
    have "set (t_ids r) \<inter> set zs \<subseteq> (set (t_ids r) - set (t_ids s)) \<union> (set (t_ids r) \<inter> set (t_ids s) \<inter> set zs)"
      by blast
    then have "card (set (t_ids r) \<inter> set zs)
        \<le> card ((set (t_ids r) - set (t_ids s)) \<union> (set (t_ids r) \<inter> set (t_ids s) \<inter> set zs))"
      by (intro card_mono) auto
    also have "\<dots> \<le> card (set (t_ids r) - set (t_ids s)) + card (set (t_ids r) \<inter> set (t_ids s) \<inter> set zs)"
      by (rule card_Un_le)
    finally show ?thesis
      using that threshold_is_quorum_card[of r zs] by (simp add: threshold_need_def)
  qed
  have "threshold_need a b + threshold_need b a
      \<le> card (?A \<inter> ?B \<inter> set xs) + card (?A \<inter> ?B \<inter> set ys)"
    using need[OF wf(1) q(1), of b] need[OF wf(2) q(2), of a] by (simp add: Int_commute)
  also have "\<dots> = card ((?A \<inter> ?B \<inter> set xs) \<union> (?A \<inter> ?B \<inter> set ys))"
    using disj by (intro card_Un_disjoint[symmetric]) auto
  also have "\<dots> \<le> card (?A \<inter> ?B)" by (intro card_mono) auto
  finally show ?thesis .
qed

lemma threshold_split_quorums:
  assumes wf: "threshold_wf a" "threshold_wf b"
    and room: "threshold_need a b + threshold_need b a \<le> card (set (t_ids a) \<inter> set (t_ids b))"
  shows "\<exists>xs ys. threshold_is_quorum a xs \<and> threshold_is_quorum b ys \<and> set xs \<inter> set ys = {}"
proof -
  let ?A = "set (t_ids a)" and ?B = "set (t_ids b)"
  have "threshold_need a b \<le> card (?A \<inter> ?B)" using room by simp
  then obtain P where P: "P \<subseteq> ?A \<inter> ?B" "card P = threshold_need a b"
    by (rule obtain_subset_with_card_n)
  have "threshold_need b a \<le> card (?A \<inter> ?B - P)"
    using P room card_Diff_subset[OF finite_subset[OF P(1)] P(1)] by simp
  then obtain Q where Q: "Q \<subseteq> ?A \<inter> ?B - P" "card Q = threshold_need b a"
    by (rule obtain_subset_with_card_n)
  have cov: "threshold_is_quorum r (filter (\<lambda>x. x \<notin> set (t_ids s) \<or> x \<in> N) (t_ids r))"
    if "threshold_wf r" "N \<subseteq> set (t_ids r) \<inter> set (t_ids s)" "card N = threshold_need r s" for r s N
  proof -
    have "finite N" using that(2) by (rule finite_subset) simp
    then have "card ((set (t_ids r) - set (t_ids s)) \<union> N) = card (set (t_ids r) - set (t_ids s)) + card N"
      using that by (intro card_Un_disjoint) auto
    moreover have "set (t_ids r) \<inter> {x \<in> set (t_ids r). x \<notin> set (t_ids s) \<or> x \<in> N}
        = (set (t_ids r) - set (t_ids s)) \<union> N" using that by auto
    ultimately show ?thesis
      using that by (simp add: threshold_is_quorum_card threshold_need_def)
  qed
  have "set (filter (\<lambda>x. x \<notin> ?B \<or> x \<in> P) (t_ids a)) \<inter> set (filter (\<lambda>x. x \<notin> ?A \<or> x \<in> Q) (t_ids b)) = {}"
    using P(1) Q(1) by auto
  moreover have "Q \<subseteq> ?B \<inter> ?A" using Q(1) by blast
  ultimately show ?thesis using cov[OF wf(1) P] cov[OF wf(2) _ Q(2)] by blast
qed

text \<open>The check is exact.\<close>

lemma threshold_intersects_exact:
  assumes wf: "threshold_wf a" "threshold_wf b"
  shows "threshold_intersects_with a b = Some (quorums_meet (threshold_is_quorum a) (threshold_is_quorum b))"
proof (cases "threshold_need a b + threshold_need b a \<le> card (set (t_ids a) \<inter> set (t_ids b))")
  case True
  then have "\<not> quorums_meet (threshold_is_quorum a) (threshold_is_quorum b)"
    using threshold_split_quorums[OF wf True] by (auto simp: quorums_meet_def)
  then show ?thesis using True threshold_intersects_card[OF wf] by simp
next
  case False
  then have "quorums_meet (threshold_is_quorum a) (threshold_is_quorum b)"
    using threshold_disjoint_needs[OF wf] by (auto simp: quorums_meet_def)
  then show ?thesis using False threshold_intersects_card[OF wf] by simp
qed

interpretation threshold_rule: quorum_rule threshold_wf threshold_is_quorum t_ids threshold_intersects_with
proof unfold_locales
  fix r :: "'a threshold_quorum_set" and xs ys
  assume wf: "threshold_wf r"
  then show "\<not> threshold_is_quorum r []" by (simp add: threshold_is_quorum_card threshold_wf_def)
  show "threshold_is_quorum r ys" if "set xs \<subseteq> set ys" "threshold_is_quorum r xs"
  proof -
    have "card (set (t_ids r) \<inter> set xs) \<le> card (set (t_ids r) \<inter> set ys)"
      using that by (intro card_mono) auto
    then show ?thesis using that wf by (simp add: threshold_is_quorum_card)
  qed
  assume "threshold_is_quorum r xs"
  moreover have "set (t_ids r) \<inter> {x \<in> set xs. x \<in> set (t_ids r)} = set (t_ids r) \<inter> set xs" by auto
  ultimately show "threshold_is_quorum r (filter (\<lambda>x. x \<in> set (t_ids r)) xs)"
    using wf by (simp add: threshold_is_quorum_card)
qed (simp_all add: threshold_intersects_exact)

section \<open>Weights\<close>

datatype 'n invalid_weights =
    ZeroWeight 'n
  | TotalWeightOverflow
  | WriteWeightOutOfRange nat nat
  | ZeroThreshold

record 'n weighted_quorum_set =
  w_weights :: "('n, nat) btree_map"
  w_threshold :: nat

definition weighted_new :: "nat \<Rightarrow> ('n, nat) btree_map \<Rightarrow> 'n invalid_weights + 'n weighted_quorum_set" where
  "weighted_new threshold weights =
     (case find (\<lambda>(_, weight). weight = 0) weights of
        Some (node_id, _) \<Rightarrow> Inl (ZeroWeight node_id)
      | None \<Rightarrow>
          if threshold = 0 then Inl ZeroThreshold
          else Inr \<lparr>w_weights = weights, w_threshold = threshold\<rparr>)"

fun weighted_loop :: "nat \<Rightarrow> 'n list \<Rightarrow> nat \<Rightarrow> ('n, nat) btree_map \<Rightarrow> bool" where
  "weighted_loop threshold ids tot [] = False"
| "weighted_loop threshold ids tot ((nid, weight) # rest) =
     (if nid \<in> set ids then
        (let tot = saturating_add tot weight
         in if tot \<ge> threshold then True else weighted_loop threshold ids tot rest)
      else weighted_loop threshold ids tot rest)"

definition weighted_is_quorum :: "'n weighted_quorum_set \<Rightarrow> 'n list \<Rightarrow> bool" where
  "weighted_is_quorum r ids = weighted_loop (w_threshold r) ids 0 (w_weights r)"

definition weighted_ids :: "'n::linorder weighted_quorum_set \<Rightarrow> 'n list" where
  "weighted_ids r = btree_set (bm_keys (w_weights r))"

text \<open>The sums are over \<open>u128\<close>, which fewer than \<open>2 ^ 64\<close> weights of \<open>u64\<close> never exceed.\<close>

definition weighted_intersects_with ::
  "'n weighted_quorum_set \<Rightarrow> 'n weighted_quorum_set \<Rightarrow> bool option" where
  "weighted_intersects_with r other =
     (if w_weights r \<noteq> w_weights other then None
      else
        (let total_weight = fold (\<lambda>(_, weight) tot. tot + weight) (w_weights r) 0;
             thresholds = w_threshold r + w_threshold other
         in if thresholds > total_weight then Some True else None))"

fun sum_weights :: "('n, nat) btree_map \<Rightarrow> nat \<Rightarrow> 'n invalid_weights + nat" where
  "sum_weights [] tot = Inr tot"
| "sum_weights ((node_id, weight) # rest) tot =
     (if weight = 0 then Inl (ZeroWeight node_id)
      else (case checked_add tot weight of
              None \<Rightarrow> Inl TotalWeightOverflow
            | Some tot \<Rightarrow> sum_weights rest tot))"

definition rules_from_weights ::
  "('n, nat) btree_map \<Rightarrow> nat \<Rightarrow> 'n invalid_weights + ('n weighted_quorum_set \<times> 'n weighted_quorum_set)" where
  "rules_from_weights weights write_weight =
     (case sum_weights weights 0 of
        Inl e \<Rightarrow> Inl e
      | Inr total_weight \<Rightarrow>
          if \<not> (1 \<le> write_weight \<and> write_weight \<le> total_weight)
          then Inl (WriteWeightOutOfRange write_weight total_weight)
          else
            (let read_weight = total_weight - write_weight + 1
             in case weighted_new read_weight weights of
                  Inl e \<Rightarrow> Inl e
                | Inr rd \<Rightarrow>
                    (case weighted_new write_weight weights of
                       Inl e \<Rightarrow> Inl e
                     | Inr wr \<Rightarrow> Inr (rd, wr))))"

definition weighted_wf :: "'n::linorder weighted_quorum_set \<Rightarrow> bool" where
  "weighted_wf r \<longleftrightarrow> bm_wf (w_weights r) \<and> 0 < w_threshold r \<and> w_threshold r \<le> u64_max"

definition weight_of :: "('n, nat) btree_map \<Rightarrow> 'n set \<Rightarrow> nat" where
  "weight_of m A = (\<Sum>(k, w) \<leftarrow> filter (\<lambda>(k, _). k \<in> A) m. w)"

lemma weight_of_simps [simp]:
  "weight_of [] A = 0"
  "weight_of ((k, w) # m) A = (if k \<in> A then w else 0) + weight_of m A"
  by (simp_all add: weight_of_def)

lemma weight_of_mono: "A \<subseteq> B \<Longrightarrow> weight_of m A \<le> weight_of m B"
  by (induction m) auto

lemma weight_of_disjoint: "A \<inter> B = {} \<Longrightarrow> weight_of m A + weight_of m B \<le> weight_of m UNIV"
  by (induction m) auto

lemma weight_of_keys: "weight_of m (A \<inter> fst ` set m) = weight_of m A"
proof -
  have "filter (\<lambda>(k, _). k \<in> A \<inter> fst ` set m) m = filter (\<lambda>(k, _). k \<in> A) m"
    by (rule filter_cong) force+
  then show ?thesis by (simp only: weight_of_def)
qed

lemma fold_weights: "fold (\<lambda>(_, w) tot. tot + w) m tot = tot + weight_of m UNIV"
  by (induction m arbitrary: tot) auto

lemma weighted_loop_iff:
  "tot < threshold \<Longrightarrow> threshold \<le> u64_max \<Longrightarrow>
   weighted_loop threshold ids tot m \<longleftrightarrow> threshold \<le> tot + weight_of m (set ids)"
proof (induction threshold ids tot m rule: weighted_loop.induct)
  case (2 threshold ids tot nid weight rest)
  show ?case
  proof (cases "threshold \<le> tot + weight")
    case True
    then show ?thesis using 2 by (auto simp: Let_def saturating_add_def min_def)
  next
    case False
    then have "saturating_add tot weight = tot + weight" using 2 by (auto simp: saturating_add_def)
    then show ?thesis using 2 False by (auto simp: Let_def)
  qed
qed simp

lemma weighted_is_quorum_weight:
  "weighted_wf r \<Longrightarrow> weighted_is_quorum r ids \<longleftrightarrow> w_threshold r \<le> weight_of (w_weights r) (set ids)"
  using weighted_loop_iff[of 0 "w_threshold r" ids "w_weights r"]
  by (simp add: weighted_is_quorum_def weighted_wf_def)

interpretation weighted_rule: quorum_rule weighted_wf weighted_is_quorum weighted_ids weighted_intersects_with
proof unfold_locales
  fix r :: "'a weighted_quorum_set" and xs ys
  assume wf: "weighted_wf r"
  have "weight_of m {} = 0" for m :: "('a, nat) btree_map" by (induction m) auto
  then show "\<not> weighted_is_quorum r []" using wf by (simp add: weighted_is_quorum_weight weighted_wf_def)
  show "set xs \<subseteq> set ys \<Longrightarrow> weighted_is_quorum r xs \<Longrightarrow> weighted_is_quorum r ys"
    using wf weight_of_mono[of "set xs" "set ys" "w_weights r"] by (simp add: weighted_is_quorum_weight)
  have "set (filter (\<lambda>x. x \<in> set (weighted_ids r)) xs) = set xs \<inter> fst ` set (w_weights r)"
    by (auto simp: weighted_ids_def bm_keys_def)
  then show "weighted_is_quorum r xs \<Longrightarrow> weighted_is_quorum r (filter (\<lambda>x. x \<in> set (weighted_ids r)) xs)"
    using wf by (simp only: weighted_is_quorum_weight weight_of_keys)
next
  fix a b :: "'a weighted_quorum_set"
  assume wf: "weighted_wf a" "weighted_wf b"
  show "weighted_intersects_with a b = Some False \<Longrightarrow>
        \<not> quorums_meet (weighted_is_quorum a) (weighted_is_quorum b)"
    by (auto simp: weighted_intersects_with_def Let_def split: if_splits)
  assume "weighted_intersects_with a b = Some True"
  then have same: "w_weights a = w_weights b" and "weight_of (w_weights b) UNIV < w_threshold a + w_threshold b"
    by (auto simp: weighted_intersects_with_def Let_def fold_weights split: if_splits)
  then have "set xs \<inter> set ys \<noteq> {}" if "weighted_is_quorum a xs" "weighted_is_quorum b ys" for xs ys
    using that wf weight_of_disjoint[of "set xs" "set ys" "w_weights b"]
    by (auto simp: weighted_is_quorum_weight)
  then show "quorums_meet (weighted_is_quorum a) (weighted_is_quorum b)"
    by (simp add: quorums_meet_def)
qed

lemma sum_weights_Inr:
  "sum_weights m tot = Inr t \<Longrightarrow>
   t = tot + weight_of m UNIV \<and> list_all (\<lambda>(_, w). 0 < w) m \<and> (m \<noteq> [] \<longrightarrow> t \<le> u64_max)"
  by (induction m tot rule: sum_weights.induct)
    (auto simp: checked_add_def split: if_splits option.splits)

text \<open>
  The two rules of a weighted config: both over the given weights, with the least read weight
  that makes every read quorum meet every write quorum.
\<close>

lemma rules_from_weights_ok:
  assumes wf: "bm_wf weights" and ok: "rules_from_weights weights w = Inr (rd, wr)"
  shows "weighted_wf rd" "weighted_wf wr" "weighted_intersects_with rd wr = Some True"
    "w_threshold wr = w" "w_threshold rd + w = weight_of weights UNIV + 1"
    "w_weights rd = weights" "w_weights wr = weights"
proof -
  obtain t where t: "sum_weights weights 0 = Inr t" "1 \<le> w" "w \<le> t"
    and new: "weighted_new (t - w + 1) weights = Inr rd" "weighted_new w weights = Inr wr"
    using ok by (auto simp: rules_from_weights_def Let_def split: sum.splits if_splits)
  have "weights \<noteq> []" using t by auto
  then have "t = weight_of weights UNIV" "t \<le> u64_max" using sum_weights_Inr[OF t(1)] by auto
  moreover have "rd = \<lparr>w_weights = weights, w_threshold = t - w + 1\<rparr>"
    "wr = \<lparr>w_weights = weights, w_threshold = w\<rparr>"
    using new by (auto simp: weighted_new_def split: option.splits if_splits)
  ultimately show "weighted_wf rd" "weighted_wf wr" "weighted_intersects_with rd wr = Some True"
    "w_threshold wr = w" "w_threshold rd + w = weight_of weights UNIV + 1"
    "w_weights rd = weights" "w_weights wr = weights"
    using t wf by (auto simp: weighted_wf_def weighted_intersects_with_def fold_weights)
qed

end
