(* ===== verification/ConfigMembership.thy ===== *)
theory ConfigMembership
  imports QuorumRules
begin

text \<open>
  Memberships that are a joint of configs, over any quorum rule: \<open>Config\<close>
  (\<open>membership/src/config.rs\<close>), \<open>Joint<Config>\<close> with its \<open>RaftMembership\<close>
  implementation (\<open>config/joint_config.rs\<close>) and \<open>NodeChange\<close> (\<open>node_change.rs\<close>).
  The rule's \<open>is_quorum\<close>, \<open>ids\<close> and \<open>intersects_with\<close> are arguments.  An error of type
  \<open>'n\<close> is the struct \<open>NodeNotFound\<close> of that node.
\<close>

section \<open>Configs\<close>

record ('n, 'nd, 'q) config =
  cfg_read :: 'q
  cfg_write :: 'q
  cfg_nodes :: "('n, 'nd \<times> node_role option) btree_map"

definition has_id :: "('q \<Rightarrow> 'n list) \<Rightarrow> 'q \<Rightarrow> 'n \<Rightarrow> bool" where
  "has_id rids rule node_id \<longleftrightarrow> list_ex (\<lambda>x. x = node_id) (rids rule)"

definition default_role :: "bool \<Rightarrow> node_role" where
  "default_role is_voter = (if is_voter then role_or Campaigner ReceiveLogs else ReceiveLogs)"

definition config_voters :: "('q \<Rightarrow> 'n::linorder list) \<Rightarrow> ('n, 'nd, 'q) config \<Rightarrow> 'n list" where
  "config_voters rids c = btree_set (rids (cfg_read c) @ rids (cfg_write c))"

definition config_is_voter :: "('q \<Rightarrow> 'n list) \<Rightarrow> ('n, 'nd, 'q) config \<Rightarrow> 'n \<Rightarrow> bool" where
  "config_is_voter rids c node_id \<longleftrightarrow> has_id rids (cfg_read c) node_id \<or> has_id rids (cfg_write c) node_id"

definition config_voters_have_nodes :: "('q \<Rightarrow> 'n::linorder list) \<Rightarrow> ('n, 'nd, 'q) config \<Rightarrow> 'n + unit" where
  "config_voters_have_nodes rids c =
     (case find (\<lambda>node_id. \<not> bm_contains_key (cfg_nodes c) node_id) (config_voters rids c) of
        Some node_id \<Rightarrow> Inl node_id
      | None \<Rightarrow> Inr ())"

definition config_new ::
  "('q \<Rightarrow> 'n::linorder list) \<Rightarrow> 'q \<Rightarrow> 'q \<Rightarrow> ('n, 'nd) btree_map \<Rightarrow> 'n + ('n, 'nd, 'q) config" where
  "config_new rids rd wr nodes =
     (let config_nodes = bm_of_list (map (\<lambda>(node_id, node). (node_id, (node, None))) nodes);
          config = \<lparr>cfg_read = rd, cfg_write = wr, cfg_nodes = config_nodes\<rparr>
      in case config_voters_have_nodes rids config of
           Inl e \<Rightarrow> Inl e
         | Inr _ \<Rightarrow> Inr config)"

text \<open>\<open>*nodes.get_mut(&node_id).unwrap() = role\<close>, for a key that is present.\<close>

definition set_node_role ::
  "'n \<Rightarrow> node_role option \<Rightarrow> ('n, 'nd \<times> node_role option) btree_map \<Rightarrow>
   ('n, 'nd \<times> node_role option) btree_map" where
  "set_node_role node_id role nodes =
     map (\<lambda>(k, (node, old)). (k, (node, if k = node_id then role else old))) nodes"

definition set_roles ::
  "('q \<Rightarrow> 'n list) \<Rightarrow> ('n, 'nd, 'q) config \<Rightarrow> ('n, node_role) btree_map \<Rightarrow> 'n + ('n, 'nd, 'q) config" where
  "set_roles rids c roles =
     (case find (\<lambda>node_id. \<not> bm_contains_key (cfg_nodes c) node_id) (bm_keys roles) of
        Some node_id \<Rightarrow> Inl node_id
      | None \<Rightarrow>
          Inr (fold (\<lambda>(node_id, role) c.
                 let default = default_role (config_is_voter rids c node_id);
                     set_role = (if role = default then None else Some role)
                 in c\<lparr>cfg_nodes := set_node_role node_id set_role (cfg_nodes c)\<rparr>) roles c))"

definition keep_roles :: "('n, 'nd, 'q) config \<Rightarrow> ('n, 'nd, 'q) config \<Rightarrow> ('n, 'nd, 'q) config" where
  "keep_roles c other =
     c\<lparr>cfg_nodes :=
         map (\<lambda>(node_id, (node, role)).
                (node_id, (node,
                   case bm_get (cfg_nodes other) node_id of
                     Some (_, Some other_role) \<Rightarrow> Some other_role
                   | _ \<Rightarrow> role)))
           (cfg_nodes c)\<rparr>"

section \<open>Joints of configs\<close>

type_synonym ('n, 'nd, 'q) joint_config = "('n, 'nd, 'q) config joint"

definition jc_read_quorum_set :: "('n, 'nd, 'q) joint_config \<Rightarrow> 'q joint" where
  "jc_read_quorum_set m = joint_from_rules (map cfg_read (joint_parts m))"

definition jc_write_quorum_set :: "('n, 'nd, 'q) joint_config \<Rightarrow> 'q joint" where
  "jc_write_quorum_set m = joint_from_rules (map cfg_write (joint_parts m))"

definition jc_supports_direct ::
  "('q \<Rightarrow> 'q \<Rightarrow> bool option) \<Rightarrow> ('n, 'nd, 'q) joint_config \<Rightarrow> ('n, 'nd, 'q) joint_config \<Rightarrow> bool" where
  "jc_supports_direct isect m other =
     (let read_meets_write = joint_intersects_with isect (jc_read_quorum_set m) (jc_write_quorum_set other);
          write_meets_read = joint_intersects_with isect (jc_write_quorum_set m) (jc_read_quorum_set other)
      in read_meets_write = Some True \<and> write_meets_read = Some True)"

text \<open>The loop of \<open>get_node\<close>, over the configs from the newest with their position.\<close>

fun get_node_loop ::
  "('q \<Rightarrow> 'n list) \<Rightarrow> 'n \<Rightarrow> nat \<Rightarrow> 'nd option \<Rightarrow> node_role \<Rightarrow> ('n, 'nd, 'q) config list \<Rightarrow>
   'nd option \<times> node_role" where
  "get_node_loop rids node_id i node role [] = (node, role)"
| "get_node_loop rids node_id i node role (config # rest) =
     (case bm_get (cfg_nodes config) node_id of
        None \<Rightarrow> get_node_loop rids node_id (i + 1) node role rest
      | Some (config_node, set_role) \<Rightarrow>
          (let is_voter = config_is_voter rids config node_id;
               is_last = (i = 0)
           in if \<not> is_last \<and> \<not> is_voter then get_node_loop rids node_id (i + 1) node role rest
              else
                (let node = (if node = None then Some config_node else node);
                     role = role_or role (case set_role of None \<Rightarrow> default_role is_voter | Some r \<Rightarrow> r)
                 in get_node_loop rids node_id (i + 1) node role rest)))"

definition jc_get_node ::
  "('q \<Rightarrow> 'n list) \<Rightarrow> ('n, 'nd, 'q) joint_config \<Rightarrow> 'n \<Rightarrow> 'nd node_ref option" where
  "jc_get_node rids m node_id =
     (case get_node_loop rids node_id 0 None RoleEmpty (rev (joint_parts m)) of
        (None, _) \<Rightarrow> None
      | (Some node, role) \<Rightarrow>
          Some \<lparr>nr_node = node, nr_role = role,
                nr_is_read_voter = list_ex (\<lambda>config. has_id rids (cfg_read config) node_id) (joint_parts m),
                nr_is_write_voter = list_ex (\<lambda>config. has_id rids (cfg_write config) node_id) (joint_parts m)\<rparr>)"

definition jc_node_ids :: "('q \<Rightarrow> 'n::linorder list) \<Rightarrow> ('n, 'nd, 'q) joint_config \<Rightarrow> 'n list" where
  "jc_node_ids rids m =
     (if joint_parts m = [] then []
      else
        (let lst = List.last (joint_parts m); earlier = butlast (joint_parts m)
         in btree_set
              (bm_keys (cfg_nodes lst) @
               concat (map (\<lambda>config. filter (bm_contains_key (cfg_nodes config)) (config_voters rids config)) earlier))))"

text \<open>The metadata of each listed node: the goal's when it knows the node, else that of \<open>m\<close>.\<close>

fun resolve_metadata ::
  "('q \<Rightarrow> 'n::linorder list) \<Rightarrow> ('n, 'nd, 'q) joint_config \<Rightarrow> ('n, 'nd, 'q) joint_config \<Rightarrow> 'n list \<Rightarrow>
   ('n, 'nd) btree_map \<Rightarrow> ('n, 'nd) btree_map option" where
  "resolve_metadata rids m goal [] metadata = Some metadata"
| "resolve_metadata rids m goal (node_id # rest) metadata =
     (case jc_get_node rids goal node_id of
        Some known \<Rightarrow> resolve_metadata rids m goal rest (bm_insert node_id (nr_node known) metadata)
      | None \<Rightarrow>
          (case jc_get_node rids m node_id of
             None \<Rightarrow> None
           | Some known \<Rightarrow> resolve_metadata rids m goal rest (bm_insert node_id (nr_node known) metadata)))"

definition resolve_nodes :: "('n, 'nd) btree_map \<Rightarrow> ('n, 'nd, 'q) config \<Rightarrow> ('n, 'nd, 'q) config" where
  "resolve_nodes metadata config = config\<lparr>cfg_nodes :=
     map (\<lambda>(node_id, (node, role)).
            (node_id, (case bm_get metadata node_id of Some resolved \<Rightarrow> resolved | None \<Rightarrow> node, role)))
       (cfg_nodes config)\<rparr>"

definition jc_joint_with ::
  "('q \<Rightarrow> 'n::linorder list) \<Rightarrow> ('n, 'nd, 'q) joint_config \<Rightarrow> ('n, 'nd, 'q) joint_config \<Rightarrow>
   ('n, 'nd, 'q) joint_config option" where
  "jc_joint_with rids m goal =
     (let joint = joint_joint_with m goal
      in case resolve_metadata rids m goal (jc_node_ids rids joint) [] of
           None \<Rightarrow> None
         | Some metadata \<Rightarrow>
             Some (Joint (map (resolve_nodes metadata) (joint_parts joint))))"

definition joint_config_ops ::
  "('q \<Rightarrow> 'n::linorder list \<Rightarrow> bool) \<Rightarrow> ('q \<Rightarrow> 'n list) \<Rightarrow> ('q \<Rightarrow> 'q \<Rightarrow> bool option) \<Rightarrow>
   ('n, 'nd, ('n, 'nd, 'q) joint_config, 'q joint) membership_ops" where
  "joint_config_ops is_q rids isect =
     \<lparr>m_default = joint_default,
      read_quorum_set = jc_read_quorum_set,
      write_quorum_set = jc_write_quorum_set,
      read_write_quorums_intersect =
        default_read_write_quorums_intersect jc_read_quorum_set jc_write_quorum_set (joint_intersects_with isect),
      supports_direct_transition_to = jc_supports_direct isect,
      get_node = jc_get_node rids,
      node_ids = jc_node_ids rids,
      joint_with = jc_joint_with rids,
      qs_is_quorum = joint_is_quorum is_q,
      qs_ids = joint_ids rids,
      qs_intersects_with = joint_intersects_with isect\<rparr>"

section \<open>Active nodes\<close>

lemma has_id_iff: "has_id rids rule node_id \<longleftrightarrow> node_id \<in> set (rids rule)"
  by (simp add: has_id_def list_ex_iff)

lemma config_voters_iff: "node_id \<in> set (config_voters rids c) \<longleftrightarrow> config_is_voter rids c node_id"
  by (simp add: config_voters_def config_is_voter_def has_id_iff)

text \<open>A config counts for the nodes it holds: the last one for all, an earlier one for its voters.\<close>

definition counts_for :: "('q \<Rightarrow> 'n list) \<Rightarrow> 'n \<Rightarrow> bool \<Rightarrow> ('n, 'nd, 'q) config \<Rightarrow> bool" where
  "counts_for rids node_id is_last c \<longleftrightarrow>
     bm_contains_key (cfg_nodes c) node_id \<and> (is_last \<or> config_is_voter rids c node_id)"

lemma get_node_loop_step:
  "get_node_loop rids node_id i node role (c # cs) =
   (if counts_for rids node_id (i = 0) c
    then get_node_loop rids node_id (i + 1)
           (if node = None then map_option fst (bm_get (cfg_nodes c) node_id) else node)
           (role_or role (case snd (the (bm_get (cfg_nodes c) node_id)) of
              None \<Rightarrow> default_role (config_is_voter rids c node_id) | Some r \<Rightarrow> r)) cs
    else get_node_loop rids node_id (i + 1) node role cs)"
  by (auto simp: counts_for_def bm_contains_key_def Let_def split: option.splits)

lemma get_node_loop_Some: "fst (get_node_loop rids node_id i (Some n) role cs) = Some n"
  by (induction cs arbitrary: i role) (simp_all add: get_node_loop_step del: get_node_loop.simps(2))

lemma get_node_loop_later:
  "0 < i \<Longrightarrow> fst (get_node_loop rids node_id i None role cs) =
   (case find (counts_for rids node_id False) cs of
      None \<Rightarrow> None
    | Some c \<Rightarrow> map_option fst (bm_get (cfg_nodes c) node_id))"
proof (induction cs arbitrary: i role)
  case (Cons c cs)
  show ?case
  proof (cases "counts_for rids node_id False c")
    case True
    then obtain n r where "bm_get (cfg_nodes c) node_id = Some (n, r)"
      by (auto simp: counts_for_def bm_contains_key_def)
    then show ?thesis using True Cons.prems
      by (simp add: get_node_loop_step get_node_loop_Some del: get_node_loop.simps(2))
  qed (use Cons in \<open>simp add: get_node_loop_step del: get_node_loop.simps(2)\<close>)
qed simp

lemma get_node_loop_eq:
  "fst (get_node_loop rids node_id 0 None role (c # cs)) =
   (case (if bm_contains_key (cfg_nodes c) node_id then Some c else find (counts_for rids node_id False) cs) of
      None \<Rightarrow> None
    | Some c \<Rightarrow> map_option fst (bm_get (cfg_nodes c) node_id))"
proof (cases "bm_contains_key (cfg_nodes c) node_id")
  case True
  then obtain n r where "bm_get (cfg_nodes c) node_id = Some (n, r)"
    by (auto simp: bm_contains_key_def)
  then show ?thesis using True
    by (simp add: get_node_loop_step counts_for_def get_node_loop_Some del: get_node_loop.simps(2))
next
  case False
  then show ?thesis
    by (simp add: get_node_loop_step counts_for_def get_node_loop_later del: get_node_loop.simps(2))
qed

lemma jc_get_node_node:
  "map_option nr_node (jc_get_node rids m node_id) =
   fst (get_node_loop rids node_id 0 None RoleEmpty (rev (joint_parts m)))"
  by (auto simp: jc_get_node_def split: prod.splits option.splits)

lemma jc_get_node_None: "jc_get_node rids (Joint []) node_id = None"
  by (simp add: jc_get_node_def)

lemma jc_get_node_snoc:
  "map_option nr_node (jc_get_node rids (Joint (cs @ [c])) node_id) =
   (case (if bm_contains_key (cfg_nodes c) node_id then Some c
          else find (counts_for rids node_id False) (rev cs)) of
      None \<Rightarrow> None
    | Some c \<Rightarrow> map_option fst (bm_get (cfg_nodes c) node_id))"
  by (simp add: jc_get_node_node get_node_loop_eq del: get_node_loop.simps(2))

lemma find_SomeD: "find P xs = Some x \<Longrightarrow> P x \<and> x \<in> set xs"
  by (induction xs) (auto split: if_splits)

lemma jc_get_node_active:
  "jc_get_node rids (Joint (cs @ [c])) node_id \<noteq> None \<longleftrightarrow>
   bm_contains_key (cfg_nodes c) node_id \<or> (\<exists>c \<in> set cs. counts_for rids node_id False c)"
proof -
  have "jc_get_node rids (Joint (cs @ [c])) node_id \<noteq> None \<longleftrightarrow>
      map_option nr_node (jc_get_node rids (Joint (cs @ [c])) node_id) \<noteq> None" by simp
  moreover have "\<dots> \<longleftrightarrow> bm_contains_key (cfg_nodes c) node_id \<or> (\<exists>c \<in> set cs. counts_for rids node_id False c)"
  proof (cases "find (counts_for rids node_id False) (rev cs)")
    case None
    then have "\<not> (\<exists>c \<in> set cs. counts_for rids node_id False c)" by (auto simp: find_None_iff)
    then show ?thesis unfolding jc_get_node_snoc None by (auto simp: bm_contains_key_def)
  next
    case (Some d)
    then have "counts_for rids node_id False d" "d \<in> set cs" using find_SomeD[OF Some] by auto
    then show ?thesis unfolding jc_get_node_snoc Some
      by (auto simp: bm_contains_key_def counts_for_def split: if_splits)
  qed
  ultimately show ?thesis by blast
qed

text \<open>The listed nodes are the nodes that \<open>get_node\<close> finds.\<close>

lemma jc_node_ids_active: "node_id \<in> set (jc_node_ids rids m) \<longleftrightarrow> jc_get_node rids m node_id \<noteq> None"
proof (cases "joint_parts m" rule: rev_cases)
  case Nil
  then show ?thesis by (cases m) (simp add: jc_node_ids_def jc_get_node_None)
next
  case (snoc cs c)
  then have "m = Joint (cs @ [c])" by (cases m) simp
  then show ?thesis
    unfolding \<open>m = _\<close> jc_get_node_active
    by (auto simp: jc_node_ids_def counts_for_def config_voters_iff bm_keys_get[folded bm_contains_key_def])
qed

section \<open>The joint of two memberships\<close>

lemma resolve_metadata_ok:
  assumes "\<forall>nid \<in> set ids. jc_get_node rids goal nid \<noteq> None \<or> jc_get_node rids m nid \<noteq> None" "bm_wf md"
  shows "\<exists>md'. resolve_metadata rids m goal ids md = Some md' \<and> bm_wf md' \<and>
    (\<forall>nid. bm_get md' nid =
       (if nid \<in> set ids then
          (case jc_get_node rids goal nid of
             Some known \<Rightarrow> Some (nr_node known)
           | None \<Rightarrow> map_option nr_node (jc_get_node rids m nid))
        else bm_get md nid))"
  using assms
proof (induction ids arbitrary: md)
  case (Cons nid ids)
  then obtain n where n: "resolve_metadata rids m goal (nid # ids) md =
      resolve_metadata rids m goal ids (bm_insert nid n md)"
    "Some n = (case jc_get_node rids goal nid of
       Some known \<Rightarrow> Some (nr_node known) | None \<Rightarrow> map_option nr_node (jc_get_node rids m nid))"
    by (cases "jc_get_node rids goal nid") auto
  obtain md' where md': "resolve_metadata rids m goal ids (bm_insert nid n md) = Some md'" "bm_wf md'"
    "\<And>k. bm_get md' k =
       (if k \<in> set ids then
          (case jc_get_node rids goal k of
             Some known \<Rightarrow> Some (nr_node known)
           | None \<Rightarrow> map_option nr_node (jc_get_node rids m k))
        else bm_get (bm_insert nid n md) k)"
    using Cons.IH[of "bm_insert nid n md"] Cons.prems by auto
  show ?case
    using n(1) md'(1,2) by (intro exI[of _ md']) (simp add: md'(3) n(2)[symmetric] Cons.prems(2))
qed simp

lemma joint_nodes_known:
  assumes "nid \<in> set (jc_node_ids rids (joint_joint_with m goal))"
  shows "jc_get_node rids goal nid \<noteq> None \<or> jc_get_node rids m nid \<noteq> None"
proof (cases "joint_parts m = [] \<or> joint_parts goal = []")
  case True
  then show ?thesis using assms by (simp add: joint_joint_with_def joint_default_def jc_node_ids_def)
next
  case False
  then obtain cs c ds d where parts: "joint_parts m = cs @ [c]" "joint_parts goal = ds @ [d]"
    by (metis rev_exhaust)
  then have m: "m = Joint (cs @ [c])" "goal = Joint (ds @ [d])" by (cases m, simp, cases goal, simp)
  have joint: "joint_joint_with m goal = Joint ((cs @ [c] @ ds) @ [d])"
    using parts by (simp add: joint_joint_with_def)
  have "bm_contains_key (cfg_nodes d) nid \<or> (\<exists>e \<in> set (cs @ [c] @ ds). counts_for rids nid False e)"
    using assms unfolding jc_node_ids_active joint jc_get_node_active .
  then show ?thesis unfolding m jc_get_node_active by (auto simp: counts_for_def)
qed

definition known_node :: "('q \<Rightarrow> 'n list) \<Rightarrow> ('n, 'nd, 'q) joint_config \<Rightarrow> ('n, 'nd, 'q) joint_config \<Rightarrow> 'n \<Rightarrow> 'nd option" where
  "known_node rids m goal nid =
     (case jc_get_node rids goal nid of
        Some known \<Rightarrow> Some (nr_node known)
      | None \<Rightarrow> map_option nr_node (jc_get_node rids m nid))"

lemma jc_joint_with_total:
  "\<exists>md. jc_joint_with rids m goal = Some (Joint (map (resolve_nodes md) (joint_parts (joint_joint_with m goal)))) \<and>
     (\<forall>nid \<in> set (jc_node_ids rids (joint_joint_with m goal)). bm_get md nid = known_node rids m goal nid)"
proof -
  let ?ids = "jc_node_ids rids (joint_joint_with m goal)"
  have "\<forall>nid \<in> set ?ids. jc_get_node rids goal nid \<noteq> None \<or> jc_get_node rids m nid \<noteq> None"
    using joint_nodes_known by blast
  from resolve_metadata_ok[OF this, of "[]"] obtain md where
    "resolve_metadata rids m goal ?ids [] = Some md"
    "\<forall>nid. bm_get md nid = (if nid \<in> set ?ids then known_node rids m goal nid else bm_get [] nid)"
    unfolding known_node_def by auto
  then show ?thesis by (intro exI[of _ md]) (simp add: jc_joint_with_def Let_def)
qed

lemma resolve_nodes_simps [simp]:
  "cfg_read (resolve_nodes md c) = cfg_read c"
  "cfg_write (resolve_nodes md c) = cfg_write c"
  "bm_keys (cfg_nodes (resolve_nodes md c)) = bm_keys (cfg_nodes c)"
  by (simp_all add: resolve_nodes_def bm_keys_def comp_def case_prod_unfold)

lemma resolve_nodes_keys [simp]:
  "bm_contains_key (cfg_nodes (resolve_nodes md c)) nid = bm_contains_key (cfg_nodes c) nid"
  unfolding bm_contains_key_def bm_keys_get[symmetric] by simp

lemma resolve_nodes_counts [simp]: "counts_for rids nid b (resolve_nodes md c) = counts_for rids nid b c"
  by (simp add: counts_for_def config_is_voter_def)

lemma resolve_nodes_get:
  assumes "bm_get md nid = Some n" "bm_contains_key (cfg_nodes c) nid"
  shows "\<exists>role. bm_get (cfg_nodes (resolve_nodes md c)) nid = Some (n, role)"
proof -
  let ?f = "\<lambda>k p. (case bm_get md k of Some resolved \<Rightarrow> resolved | None \<Rightarrow> fst p, snd p)"
  have "cfg_nodes (resolve_nodes md c) = map (\<lambda>(k, p). (k, ?f k p)) (cfg_nodes c)"
    by (simp add: resolve_nodes_def case_prod_unfold)
  then show ?thesis using assms bm_map_value_get[of ?f "cfg_nodes c" nid]
    by (auto simp: bm_contains_key_def)
qed

text \<open>The joint keeps the rules of both memberships.\<close>

lemma jc_joint_with_parts:
  assumes "jc_joint_with rids m goal = Some j"
  shows "map cfg_read (joint_parts j) = map cfg_read (joint_parts (joint_joint_with m goal))"
    "map cfg_write (joint_parts j) = map cfg_write (joint_parts (joint_joint_with m goal))"
  using jc_joint_with_total[of rids m goal] assms by (auto simp: comp_def)

definition config_valid :: "('q \<Rightarrow> bool) \<Rightarrow> ('n, 'nd, 'q) joint_config \<Rightarrow> bool" where
  "config_valid rule_wf m \<longleftrightarrow>
     list_all rule_wf (map cfg_read (joint_parts m)) \<and> list_all rule_wf (map cfg_write (joint_parts m))"

lemma jc_quorums_joint:
  assumes "jc_joint_with rids m goal = Some j"
  shows "joint_is_quorum is_q (jc_read_quorum_set j) xs \<longleftrightarrow>
      joint_is_quorum is_q (jc_read_quorum_set m) xs \<and> joint_is_quorum is_q (jc_read_quorum_set goal) xs"
    "joint_is_quorum is_q (jc_write_quorum_set j) xs \<longleftrightarrow>
      joint_is_quorum is_q (jc_write_quorum_set m) xs \<and> joint_is_quorum is_q (jc_write_quorum_set goal) xs"
  using jc_joint_with_parts[OF assms]
  by (auto simp: jc_read_quorum_set_def jc_write_quorum_set_def joint_from_rules_def joint_is_quorum_iff
      joint_joint_with_def joint_default_def split: if_splits)

context quorum_rule
begin

lemma config_membership:
  "raft_membership
     (joint_config_ops is_quorum rids isect :: ('n, 'nd, ('n, 'nd, 'r) joint_config, 'r joint) membership_ops)
     (config_valid rule_wf)"
proof unfold_locales
  let ?M = "joint_config_ops is_quorum rids isect ::
    ('n, 'nd, ('n, 'nd, 'r) joint_config, 'r joint) membership_ops"
  have q: "read_quorum ?M m = joint_is_quorum is_quorum (jc_read_quorum_set m)"
    "write_quorum ?M m = joint_is_quorum is_quorum (jc_write_quorum_set m)" for m
    by (simp_all add: read_quorum_def[abs_def] write_quorum_def[abs_def] joint_config_ops_def)
  have wf: "config_valid rule_wf m \<Longrightarrow> list_all rule_wf (joint_parts (jc_read_quorum_set m))"
    "config_valid rule_wf m \<Longrightarrow> list_all rule_wf (joint_parts (jc_write_quorum_set m))"
    for m :: "('n, 'nd, 'r) joint_config"
    by (simp_all add: config_valid_def jc_read_quorum_set_def jc_write_quorum_set_def joint_from_rules_def)
  fix m m' goal j :: "('n, 'nd, 'r) joint_config" and xs ys
  assume m: "config_valid rule_wf m"
  show "set xs \<subseteq> set ys \<Longrightarrow> read_quorum ?M m xs \<Longrightarrow> read_quorum ?M m ys"
    unfolding q by (rule joint_mono[OF wf(1)[OF m]])
  show "set xs \<subseteq> set ys \<Longrightarrow> write_quorum ?M m xs \<Longrightarrow> write_quorum ?M m ys"
    unfolding q by (rule joint_mono[OF wf(2)[OF m]])
  show "read_write_quorums_intersect ?M m = Some True \<Longrightarrow> consistent ?M m"
    unfolding consistent_def q
    by (rule joint_sound[OF wf[OF m]])
      (simp add: joint_config_ops_def default_read_write_quorums_intersect_def)
  assume m': "config_valid rule_wf m'"
  show "supports_direct_transition_to ?M m m' \<Longrightarrow> safe_step ?M m m'"
    unfolding safe_step_def q
    using joint_sound[OF wf(1)[OF m] wf(2)[OF m']] joint_sound[OF wf(2)[OF m] wf(1)[OF m']]
      quorums_meet_sym
    by (auto simp: joint_config_ops_def jc_supports_direct_def Let_def)
  have jw: "joint_with ?M = jc_joint_with rids" by (simp add: joint_config_ops_def)
  obtain j' where j': "jc_joint_with rids m m' = Some j'"
    using jc_joint_with_total[of rids m m'] by blast
  moreover have "config_valid rule_wf j'"
    using jc_joint_with_parts[OF j'] m m'
    by (auto simp: config_valid_def joint_joint_with_def joint_default_def split: if_splits)
  ultimately show "\<exists>j. joint_with ?M m m' = Some j \<and> config_valid rule_wf j"
    unfolding jw by blast
  show "joint_with ?M m m' = Some j \<Longrightarrow> read_quorum ?M j xs \<Longrightarrow> read_quorum ?M m xs \<and> read_quorum ?M m' xs"
    unfolding jw q using jc_quorums_joint(1) by blast
  show "joint_with ?M m m' = Some j \<Longrightarrow> write_quorum ?M j xs \<Longrightarrow> write_quorum ?M m xs \<and> write_quorum ?M m' xs"
    unfolding jw q using jc_quorums_joint(2) by blast
qed

end

text \<open>
  In a joint every active node has one metadata: the one of the goal for a node that the goal
  knows.
\<close>

lemma jc_joint_with_node:
  assumes j: "jc_joint_with rids m goal = Some j" and active: "jc_get_node rids j nid \<noteq> None"
  shows "map_option nr_node (jc_get_node rids j nid) = known_node rids m goal nid"
proof -
  obtain md where eq: "j = Joint (map (resolve_nodes md) (joint_parts (joint_joint_with m goal)))"
    and md: "nid \<in> set (jc_node_ids rids (joint_joint_with m goal)) \<Longrightarrow> bm_get md nid = known_node rids m goal nid"
    using jc_joint_with_total[of rids m goal] j by auto
  show ?thesis
  proof (cases "joint_parts (joint_joint_with m goal)" rule: rev_cases)
    case Nil
    then show ?thesis using active by (simp add: eq jc_get_node_None)
  next
    case (snoc cs c)
    have joint: "joint_joint_with m goal = Joint (cs @ [c])" using snoc by (cases "joint_joint_with m goal") simp
    have jj: "j = Joint (map (resolve_nodes md) cs @ [resolve_nodes md c])" by (simp add: eq joint)
    have here: "bm_contains_key (cfg_nodes c) nid \<or> (\<exists>c \<in> set cs. counts_for rids nid False c)"
      using active unfolding jj jc_get_node_active by auto
    then have "nid \<in> set (jc_node_ids rids (joint_joint_with m goal))"
      unfolding jc_node_ids_active joint jc_get_node_active .
    then have "bm_get md nid = known_node rids m goal nid" "known_node rids m goal nid \<noteq> None"
      using md joint_nodes_known[of nid rids m goal] by (auto simp: known_node_def split: option.splits)
    then obtain n where n: "bm_get md nid = Some n" "known_node rids m goal nid = Some n" by auto
    have found: "\<exists>d. find (counts_for rids nid False) (rev (map (resolve_nodes md) cs)) = Some (resolve_nodes md d)
        \<and> bm_contains_key (cfg_nodes d) nid" if "\<not> bm_contains_key (cfg_nodes c) nid"
    proof (cases "find (counts_for rids nid False) (rev (map (resolve_nodes md) cs))")
      case None
      then show ?thesis using here that by (auto simp: find_None_iff)
    next
      case (Some e)
      then show ?thesis using find_SomeD[OF Some] by (auto simp: counts_for_def)
    qed
    show ?thesis
    proof (cases "bm_contains_key (cfg_nodes c) nid")
      case True
      then show ?thesis unfolding jj jc_get_node_snoc using n resolve_nodes_get[OF n(1), of c] by auto
    next
      case False
      then show ?thesis unfolding jj jc_get_node_snoc using n(2) found resolve_nodes_get[OF n(1)] by fastforce
    qed
  qed
qed

section \<open>Edits\<close>

record ('n, 'nd) node_change =
  add_nodes :: "('n, 'nd) btree_map"
  remove_nodes :: "'n list"
  nc_roles :: "('n, node_role) btree_map"

definition node_change_default :: "('n, 'nd) node_change" where
  "node_change_default = \<lparr>add_nodes = [], remove_nodes = [], nc_roles = []\<rparr>"

definition node_change_add_node :: "'n \<Rightarrow> 'nd \<Rightarrow> ('n, 'nd) node_change" where
  "node_change_add_node node_id node = node_change_default\<lparr>add_nodes := [(node_id, node)]\<rparr>"

definition node_change_with_roles ::
  "('n, 'nd) node_change \<Rightarrow> ('n, node_role) btree_map \<Rightarrow> ('n, 'nd) node_change" where
  "node_change_with_roles ch roles = ch\<lparr>nc_roles := roles\<rparr>"

definition edit_nodes ::
  "('n::linorder, 'nd) node_change \<Rightarrow> ('n, 'nd) btree_map \<Rightarrow> ('n, 'nd) btree_map" where
  "edit_nodes ch nodes =
     (let nodes = fold (\<lambda>(node_id, node) nodes.
                    if \<not> bm_contains_key nodes node_id then bm_insert node_id node nodes else nodes)
                  (add_nodes ch) nodes
      in fold bm_remove (remove_nodes ch) nodes)"

definition jc_with_roles ::
  "('q \<Rightarrow> 'n list) \<Rightarrow> ('n, 'nd, 'q) joint_config \<Rightarrow> ('n, node_role) btree_map \<Rightarrow>
   'n + ('n, 'nd, 'q) joint_config" where
  "jc_with_roles rids m roles =
     (case last_opt (joint_parts m) of
        None \<Rightarrow> (case first_opt (bm_keys roles) of Some node_id \<Rightarrow> Inl node_id | None \<Rightarrow> Inr m)
      | Some lst \<Rightarrow>
          (case set_roles rids lst roles of
             Inl e \<Rightarrow> Inl e
           | Inr lst \<Rightarrow> Inr (Joint (butlast (joint_parts m) @ [lst]))))"

definition drop_voters_demoted_to_learners ::
  "('q \<Rightarrow> 'n::linorder list) \<Rightarrow> ('n, 'nd, 'q) joint_config \<Rightarrow> ('n, 'nd, 'q) joint_config \<Rightarrow>
   ('n, 'nd, 'q) joint_config" where
  "drop_voters_demoted_to_learners rids m goal =
     (let demoted = btree_set (concat (map (config_voters rids) (joint_parts m)));
          demoted = filter (\<lambda>node_id.
              case jc_get_node rids goal node_id of
                None \<Rightarrow> False
              | Some node \<Rightarrow> node_ref_is_learner node) demoted
      in Joint (map (\<lambda>config. config\<lparr>cfg_nodes :=
             bm_retain (\<lambda>node_id. node_id \<notin> set demoted) (cfg_nodes config)\<rparr>) (joint_parts goal)))"

text \<open>The metadata of the listed nodes, \<open>None\<close> when \<open>get_node\<close> misses one.\<close>

fun active_nodes ::
  "('q \<Rightarrow> 'n::linorder list) \<Rightarrow> ('n, 'nd, 'q) joint_config \<Rightarrow> 'n list \<Rightarrow> ('n, 'nd) btree_map \<Rightarrow>
   ('n, 'nd) btree_map option" where
  "active_nodes rids m [] nodes = Some nodes"
| "active_nodes rids m (node_id # rest) nodes =
     (case jc_get_node rids m node_id of
        None \<Rightarrow> None
      | Some node \<Rightarrow> active_nodes rids m rest (bm_insert node_id (nr_node node) nodes))"

definition replace_config ::
  "('q \<Rightarrow> 'n::linorder list) \<Rightarrow> ('n, 'nd, 'q) joint_config \<Rightarrow> 'q \<times> 'q \<Rightarrow> ('n, 'nd) node_change \<Rightarrow> bool \<Rightarrow>
   ('n + ('n, 'nd, 'q) joint_config) option" where
  "replace_config rids m rules ch retain =
     (case active_nodes rids m (jc_node_ids rids m) [] of
        None \<Rightarrow> None
      | Some nodes \<Rightarrow>
          (let nodes = edit_nodes ch nodes; (rd, wr) = rules
           in case config_new rids rd wr nodes of
                Inl e \<Rightarrow> Some (Inl e)
              | Inr config \<Rightarrow>
                  (let config = (case last_opt (joint_parts m) of
                                   Some lst \<Rightarrow> keep_roles config lst
                                 | None \<Rightarrow> config)
                   in case set_roles rids config (nc_roles ch) of
                        Inl e \<Rightarrow> Some (Inl e)
                      | Inr config \<Rightarrow>
                          (let target = Joint [config];
                               target = (if \<not> retain then drop_voters_demoted_to_learners rids m target
                                         else target)
                           in Some (Inr target)))))"

lemma active_nodes_total:
  "\<forall>nid \<in> set ids. jc_get_node rids m nid \<noteq> None \<Longrightarrow> \<exists>nodes'. active_nodes rids m ids nodes = Some nodes'"
  by (induction ids arbitrary: nodes) auto

lemma replace_config_total: "\<exists>res. replace_config rids m rules ch retain = Some res"
proof -
  obtain nodes where "active_nodes rids m (jc_node_ids rids m) [] = Some nodes"
    using active_nodes_total[of "jc_node_ids rids m" rids m "[]"] jc_node_ids_active by blast
  then show ?thesis
    by (simp add: replace_config_def Let_def case_prod_unfold split: sum.split)
qed

lemma set_roles_rules:
  assumes "set_roles rids c roles = Inr c'"
  shows "cfg_read c' = cfg_read c" "cfg_write c' = cfg_write c"
    "bm_keys (cfg_nodes c') = bm_keys (cfg_nodes c)"
proof -
  define f where "f = (\<lambda>(node_id, role) (c :: ('a, 'b, 'c) config).
                 let default = default_role (config_is_voter rids c node_id);
                     set_role = (if role = default then None else Some role)
                 in c\<lparr>cfg_nodes := set_node_role node_id set_role (cfg_nodes c)\<rparr>)"
  have step: "cfg_read (f p d) = cfg_read d" "cfg_write (f p d) = cfg_write d"
    "bm_keys (cfg_nodes (f p d)) = bm_keys (cfg_nodes d)" for p d
    by (simp_all add: f_def Let_def case_prod_unfold set_node_role_def bm_keys_def comp_def)
  have "cfg_read (fold f roles d) = cfg_read d \<and> cfg_write (fold f roles d) = cfg_write d \<and>
      bm_keys (cfg_nodes (fold f roles d)) = bm_keys (cfg_nodes d)" for d
    by (induction roles arbitrary: d) (simp_all add: step)
  moreover have "c' = fold f roles c"
    using assms by (simp add: set_roles_def f_def split: option.splits)
  ultimately show "cfg_read c' = cfg_read c" "cfg_write c' = cfg_write c"
    "bm_keys (cfg_nodes c') = bm_keys (cfg_nodes c)" by simp_all
qed

text \<open>The target of an edit is one config with the two given rules.\<close>

lemma replace_config_rules:
  assumes "replace_config rids m (rd, wr) ch retain = Some (Inr target)"
  shows "\<exists>c. joint_parts target = [c] \<and> cfg_read c = rd \<and> cfg_write c = wr"
proof -
  obtain nodes c0 where c0: "config_new rids rd wr nodes = Inr c0" and
    rest: "(let config = (case last_opt (joint_parts m) of Some lst \<Rightarrow> keep_roles c0 lst | None \<Rightarrow> c0)
            in case set_roles rids config (nc_roles ch) of
                 Inl e \<Rightarrow> Some (Inl e)
               | Inr config \<Rightarrow>
                   (let target = Joint [config];
                        target = (if \<not> retain then drop_voters_demoted_to_learners rids m target else target)
                    in Some (Inr target))) = Some (Inr target)"
    using assms by (auto simp: replace_config_def split: option.splits sum.splits)
  define c1 where "c1 = (case last_opt (joint_parts m) of Some lst \<Rightarrow> keep_roles c0 lst | None \<Rightarrow> c0)"
  obtain c where c: "set_roles rids c1 (nc_roles ch) = Inr c"
    and target: "target = (if \<not> retain then drop_voters_demoted_to_learners rids m (Joint [c]) else Joint [c])"
    using rest unfolding c1_def[symmetric] by (auto simp: Let_def split: sum.splits)
  have "cfg_read c1 = rd" "cfg_write c1 = wr"
    using c0 by (auto simp: c1_def config_new_def keep_roles_def Let_def split: sum.splits option.splits)
  then have "cfg_read c = rd" "cfg_write c = wr" using set_roles_rules[OF c] by simp_all
  then show ?thesis using target by (auto simp: drop_voters_demoted_to_learners_def Let_def)
qed

end
