(* ===== verification/StructuredRules.thy ===== *)
theory StructuredRules
  imports ConfigMembership "HOL-Library.List_Lexorder" "HOL-Library.Char_ord"
begin

text \<open>
  Quorum rules of the crate \<open>openraft-membership\<close> with a structure of their own:
  \<open>GridQuorumSet\<close> (\<open>grid/grid_quorum_set.rs\<close>), \<open>ExplicitQuorumSet\<close>
  (\<open>explicit/explicit_quorum_set.rs\<close>) and \<open>HierarchicalQuorumSet\<close>
  (\<open>hierarchical/hierarchical_quorum_set.rs\<close>).  Each is an instance of \<open>quorum_rule\<close>.
\<close>

section \<open>Grids\<close>

datatype grid_rule = FullRow | OnePerRow

datatype 'n invalid_grid =
    NoRow
  | NoColumn
  | RaggedRow nat nat nat
  | DuplicateVoter 'n

record 'n grid_quorum_set =
  g_grid :: "'n list list"
  g_rule :: grid_rule

fun first_duplicate :: "'n list \<Rightarrow> 'n list \<Rightarrow> 'n option" where
  "first_duplicate voters [] = None"
| "first_duplicate voters (voter # rest) =
     (if voter \<in> set voters then Some voter else first_duplicate (voter # voters) rest)"

definition check_grid :: "'n list list \<Rightarrow> 'n invalid_grid + unit" where
  "check_grid grid =
     (case first_opt grid of
        None \<Rightarrow> Inl NoRow
      | Some first_row \<Rightarrow>
          (let column_count = length first_row
           in if column_count = 0 then Inl NoColumn
              else
                (case find (\<lambda>(row, cells). length cells \<noteq> column_count) (enumerate 0 grid) of
                   Some (row, cells) \<Rightarrow> Inl (RaggedRow row (length cells) column_count)
                 | None \<Rightarrow>
                     (case first_duplicate [] (concat grid) of
                        Some voter \<Rightarrow> Inl (DuplicateVoter voter)
                      | None \<Rightarrow> Inr ()))))"

definition grid_new :: "'n list list \<Rightarrow> grid_rule \<Rightarrow> 'n invalid_grid + 'n grid_quorum_set" where
  "grid_new grid rule =
     (case check_grid grid of Inl e \<Rightarrow> Inl e | Inr _ \<Rightarrow> Inr \<lparr>g_grid = grid, g_rule = rule\<rparr>)"

fun grid_accepts :: "'n list list \<Rightarrow> grid_rule \<Rightarrow> 'n list \<Rightarrow> bool" where
  "grid_accepts [] FullRow candidates = False"
| "grid_accepts (row # rows) FullRow candidates =
     (if list_all (\<lambda>x. x \<in> set candidates) row then True else grid_accepts rows FullRow candidates)"
| "grid_accepts [] OnePerRow candidates = True"
| "grid_accepts (row # rows) OnePerRow candidates =
     (if \<not> list_ex (\<lambda>x. x \<in> set candidates) row then False else grid_accepts rows OnePerRow candidates)"

definition grid_is_quorum :: "'n grid_quorum_set \<Rightarrow> 'n list \<Rightarrow> bool" where
  "grid_is_quorum r ids = grid_accepts (g_grid r) (g_rule r) ids"

definition grid_ids :: "'n::linorder grid_quorum_set \<Rightarrow> 'n list" where
  "grid_ids r = btree_set (concat (g_grid r))"

fun meeting_rule :: "grid_rule \<Rightarrow> grid_rule" where
  "meeting_rule FullRow = OnePerRow"
| "meeting_rule OnePerRow = FullRow"

definition grid_intersects_with :: "'n grid_quorum_set \<Rightarrow> 'n grid_quorum_set \<Rightarrow> bool option" where
  "grid_intersects_with r other =
     (case (case (g_rule r, g_rule other) of
              (FullRow, _) \<Rightarrow> Some (r, other)
            | (_, FullRow) \<Rightarrow> Some (other, r)
            | (OnePerRow, OnePerRow) \<Rightarrow> None) of
        None \<Rightarrow> None
      | Some (full_row, compared) \<Rightarrow>
          Some (list_all (\<lambda>row. grid_accepts (g_grid compared) (meeting_rule (g_rule compared)) row)
                  (g_grid full_row)))"

definition grid_wf :: "'n grid_quorum_set \<Rightarrow> bool" where
  "grid_wf r \<longleftrightarrow> check_grid (g_grid r) = Inr ()"

lemma first_duplicate_None:
  "first_duplicate seen xs = None \<longleftrightarrow> distinct xs \<and> set seen \<inter> set xs = {}"
  by (induction seen xs rule: first_duplicate.induct) auto

lemma check_grid_ok:
  "check_grid grid = Inr () \<longleftrightarrow>
   grid \<noteq> [] \<and> distinct (concat grid) \<and>
   (\<exists>n>0. \<forall>row \<in> set grid. length row = n)"
proof -
  have "find (\<lambda>(row, cells). length cells \<noteq> n) (enumerate k g) = None \<longleftrightarrow> (\<forall>row \<in> set g. length row = n)"
    for n k and g :: "'a list list"
    by (induction g arbitrary: k) (auto simp: find_None_iff)
  moreover have "check_grid (a # g) = Inr () \<longleftrightarrow>
      a \<noteq> [] \<and> find (\<lambda>(row, cells). length cells \<noteq> length a) (enumerate 0 (a # g)) = None \<and>
      first_duplicate [] (concat (a # g)) = None" for a and g :: "'a list list"
    by (simp add: check_grid_def first_opt_def Let_def split: option.split)
  moreover have "check_grid ([] :: 'a list list) = Inl NoRow" by (simp add: check_grid_def first_opt_def)
  ultimately show ?thesis by (cases grid) (auto simp: first_duplicate_None)
qed

lemma grid_wf_rows: "grid_wf r \<Longrightarrow> g_grid r \<noteq> [] \<and> (\<forall>row \<in> set (g_grid r). row \<noteq> [])"
  by (auto simp: grid_wf_def check_grid_ok)

lemma grid_accepts_iff [simp]:
  "grid_accepts grid FullRow c \<longleftrightarrow> (\<exists>row \<in> set grid. set row \<subseteq> set c)"
  "grid_accepts grid OnePerRow c \<longleftrightarrow> (\<forall>row \<in> set grid. set row \<inter> set c \<noteq> {})"
  by (induction grid) (auto simp: list_all_iff list_ex_iff)

text \<open>A set meets every quorum of a rule exactly when the other rule over the grid accepts it.\<close>

lemma grid_meeting_rule:
  assumes "\<forall>row \<in> set grid. row \<noteq> []"
  shows "grid_accepts grid (meeting_rule rule) c \<longleftrightarrow> (\<forall>xs. grid_accepts grid rule xs \<longrightarrow> set c \<inter> set xs \<noteq> {})"
proof (cases rule)
  case FullRow
  then show ?thesis by auto
next
  case OnePerRow
  let ?rest = "[x \<leftarrow> concat grid. x \<notin> set c]"
  have "set row \<subseteq> set c \<or> set row \<inter> set ?rest \<noteq> {}" if "row \<in> set grid" for row
    using that by auto
  then have "(\<exists>row \<in> set grid. set row \<subseteq> set c) \<or> grid_accepts grid OnePerRow ?rest" by auto
  moreover have "set c \<inter> set ?rest = {}" by auto
  ultimately have "(\<forall>xs. grid_accepts grid OnePerRow xs \<longrightarrow> set c \<inter> set xs \<noteq> {}) \<Longrightarrow>
      \<exists>row \<in> set grid. set row \<subseteq> set c" by blast
  moreover have "set row \<subseteq> set c \<Longrightarrow> row \<in> set grid \<Longrightarrow> grid_accepts grid OnePerRow xs \<Longrightarrow>
      set c \<inter> set xs \<noteq> {}" for row xs unfolding grid_accepts_iff by blast
  ultimately show ?thesis unfolding OnePerRow meeting_rule.simps grid_accepts_iff(1) by blast
qed

lemma grid_intersects_exact:
  assumes wf: "grid_wf a" "grid_wf b" and answer: "grid_intersects_with a b = Some ans"
  shows "ans \<longleftrightarrow> quorums_meet (grid_is_quorum a) (grid_is_quorum b)"
proof -
  have full: "list_all (\<lambda>row. grid_accepts (g_grid s) (meeting_rule (g_rule s)) row) (g_grid r)
      \<longleftrightarrow> quorums_meet (grid_is_quorum r) (grid_is_quorum s)"
    if r: "g_rule r = FullRow" and s: "grid_wf s" for r s :: "'a grid_quorum_set"
  proof -
    have "grid_is_quorum r xs \<longleftrightarrow> (\<exists>row \<in> set (g_grid r). set row \<subseteq> set xs)" for xs
      by (simp add: grid_is_quorum_def r)
    moreover have "grid_accepts (g_grid s) (meeting_rule (g_rule s)) row \<longleftrightarrow>
        (\<forall>ys. grid_is_quorum s ys \<longrightarrow> set row \<inter> set ys \<noteq> {})" for row
      using grid_wf_rows[OF s] by (simp add: grid_is_quorum_def grid_meeting_rule)
    ultimately show ?thesis unfolding list_all_iff quorums_meet_def by (intro iffI) (blast | force)+
  qed
  show ?thesis
  proof (cases "g_rule a")
    case FullRow
    then show ?thesis using answer full[OF FullRow wf(2)] by (simp add: grid_intersects_with_def)
  next
    case OnePerRow
    then have "g_rule b = FullRow" using answer by (cases "g_rule b") (simp_all add: grid_intersects_with_def)
    then have "ans \<longleftrightarrow> quorums_meet (grid_is_quorum b) (grid_is_quorum a)"
      using answer OnePerRow full[OF _ wf(1)] by (simp add: grid_intersects_with_def list_all_iff)
    then show ?thesis using quorums_meet_sym by blast
  qed
qed

interpretation grid_quorum: quorum_rule grid_wf grid_is_quorum grid_ids grid_intersects_with
proof unfold_locales
  fix r :: "'a grid_quorum_set" and xs ys
  assume wf: "grid_wf r"
  show "\<not> grid_is_quorum r []"
    using grid_wf_rows[OF wf] by (cases "g_rule r") (auto simp: grid_is_quorum_def neq_Nil_conv)
  show "set xs \<subseteq> set ys \<Longrightarrow> grid_is_quorum r xs \<Longrightarrow> grid_is_quorum r ys"
    by (cases "g_rule r") (simp_all add: grid_is_quorum_def, blast+)
  show "grid_is_quorum r xs \<Longrightarrow> grid_is_quorum r (filter (\<lambda>x. x \<in> set (grid_ids r)) xs)"
    by (cases "g_rule r") (simp_all add: grid_is_quorum_def grid_ids_def, blast+)
next
  fix a b :: "'a grid_quorum_set"
  assume wf: "grid_wf a" "grid_wf b"
  show "grid_intersects_with a b = Some True \<Longrightarrow> quorums_meet (grid_is_quorum a) (grid_is_quorum b)"
    using grid_intersects_exact[OF wf, of True] by simp
  show "grid_intersects_with a b = Some False \<Longrightarrow> \<not> quorums_meet (grid_is_quorum a) (grid_is_quorum b)"
    using grid_intersects_exact[OF wf, of False] by simp
qed

section \<open>Explicit quorum lists\<close>

datatype 'n explicit_quorum_set = ExplicitQuorumSet (e_quorums: "'n list list")

definition explicit_new :: "'n::linorder list list \<Rightarrow> 'n explicit_quorum_set option" where
  "explicit_new quorums =
     (if list_ex (\<lambda>quorum. quorum = []) quorums then None
      else
        (let quorums = remdups_adj (sort quorums)
         in Some (ExplicitQuorumSet
                    (filter (\<lambda>quorum. \<not> list_ex (\<lambda>other. other \<noteq> quorum \<and> set other \<subseteq> set quorum) quorums)
                       quorums))))"

definition disjoint_quorums ::
  "'n explicit_quorum_set \<Rightarrow> 'n explicit_quorum_set \<Rightarrow> ('n list \<times> 'n list) option" where
  "disjoint_quorums r other =
     find (\<lambda>(quorum, other_quorum). set quorum \<inter> set other_quorum = {})
       (List.product (e_quorums r) (e_quorums other))"

definition explicit_is_quorum :: "'n explicit_quorum_set \<Rightarrow> 'n list \<Rightarrow> bool" where
  "explicit_is_quorum r ids = list_ex (\<lambda>quorum. list_all (\<lambda>x. x \<in> set ids) quorum) (e_quorums r)"

definition explicit_ids :: "'n::linorder explicit_quorum_set \<Rightarrow> 'n list" where
  "explicit_ids r = btree_set (concat (e_quorums r))"

definition explicit_intersects_with :: "'n explicit_quorum_set \<Rightarrow> 'n explicit_quorum_set \<Rightarrow> bool option" where
  "explicit_intersects_with r other = Some (disjoint_quorums r other = None)"

datatype 'n invalid_quorum_lists =
    NoReadQuorum
  | NoWriteQuorum
  | EmptyReadQuorum
  | EmptyWriteQuorum
  | DisjointQuorums "'n list" "'n list"

definition check_rules ::
  "'n explicit_quorum_set \<Rightarrow> 'n explicit_quorum_set \<Rightarrow> 'n invalid_quorum_lists + unit" where
  "check_rules rd wr =
     (if e_quorums rd = [] then Inl NoReadQuorum
      else if e_quorums wr = [] then Inl NoWriteQuorum
      else (case disjoint_quorums rd wr of
              None \<Rightarrow> Inr ()
            | Some (r, w) \<Rightarrow> Inl (DisjointQuorums r w)))"

definition rules_from_lists ::
  "'n::linorder list list \<Rightarrow> 'n list list \<Rightarrow>
   'n invalid_quorum_lists + ('n explicit_quorum_set \<times> 'n explicit_quorum_set)" where
  "rules_from_lists rd wr =
     (case explicit_new rd of
        None \<Rightarrow> Inl EmptyReadQuorum
      | Some rd \<Rightarrow>
          (case explicit_new wr of
             None \<Rightarrow> Inl EmptyWriteQuorum
           | Some wr \<Rightarrow>
               (case check_rules rd wr of Inl e \<Rightarrow> Inl e | Inr _ \<Rightarrow> Inr (rd, wr))))"

definition explicit_wf :: "'n explicit_quorum_set \<Rightarrow> bool" where
  "explicit_wf r \<longleftrightarrow> [] \<notin> set (e_quorums r)"

lemma explicit_is_quorum_iff:
  "explicit_is_quorum r ids \<longleftrightarrow> (\<exists>quorum \<in> set (e_quorums r). set quorum \<subseteq> set ids)"
  by (auto simp: explicit_is_quorum_def list_ex_iff list_all_iff)

lemma disjoint_quorums_None:
  "disjoint_quorums a b = None \<longleftrightarrow>
   (\<forall>q \<in> set (e_quorums a). \<forall>q' \<in> set (e_quorums b). set q \<inter> set q' \<noteq> {})"
  by (auto simp: disjoint_quorums_def find_None_iff)

lemma explicit_intersects_exact:
  "explicit_intersects_with a b = Some (quorums_meet (explicit_is_quorum a) (explicit_is_quorum b))"
proof -
  have "disjoint_quorums a b = None \<longleftrightarrow> quorums_meet (explicit_is_quorum a) (explicit_is_quorum b)"
    unfolding disjoint_quorums_None quorums_meet_def explicit_is_quorum_iff by (intro iffI) (blast | force)+
  then show ?thesis by (simp add: explicit_intersects_with_def)
qed

interpretation explicit_quorum: quorum_rule explicit_wf explicit_is_quorum explicit_ids explicit_intersects_with
proof unfold_locales
  fix r :: "'a explicit_quorum_set" and xs ys
  assume wf: "explicit_wf r"
  then show "\<not> explicit_is_quorum r []" by (auto simp: explicit_is_quorum_iff explicit_wf_def)
  show "set xs \<subseteq> set ys \<Longrightarrow> explicit_is_quorum r xs \<Longrightarrow> explicit_is_quorum r ys"
    unfolding explicit_is_quorum_iff by blast
  show "explicit_is_quorum r xs \<Longrightarrow> explicit_is_quorum r (filter (\<lambda>x. x \<in> set (explicit_ids r)) xs)"
    by (simp add: explicit_is_quorum_iff explicit_ids_def) blast
qed (simp_all add: explicit_intersects_exact)

text \<open>Dropping the quorums that hold another quorum changes no answer.\<close>

lemma minimal_below:
  assumes "q \<in> set qs" "\<forall>q \<in> set qs. btree_set_wf q"
  shows "\<exists>p \<in> set qs. set p \<subseteq> set q \<and> \<not> (\<exists>other \<in> set qs. other \<noteq> p \<and> set other \<subseteq> set p)"
  using assms(1)
proof (induction "card (set q)" arbitrary: q rule: less_induct)
  case less
  show ?case
  proof (cases "\<exists>other \<in> set qs. other \<noteq> q \<and> set other \<subseteq> set q")
    case True
    then obtain p where p: "p \<in> set qs" "p \<noteq> q" "set p \<subseteq> set q" by blast
    then have "set p \<noteq> set q" using assms(2) less.prems
      by (metis btree_set_wf_iff sorted_distinct_set_unique)
    then have "card (set p) < card (set q)" using p(3) by (simp add: psubset_card_mono psubsetI)
    then show ?thesis using less.hyps p by (meson subset_trans)
  next
    case False
    then show ?thesis using less.prems by blast
  qed
qed

lemma explicit_new_quorum:
  assumes "explicit_new quorums = Some r" "\<forall>q \<in> set quorums. btree_set_wf q"
  shows "explicit_wf r" "explicit_is_quorum r ids \<longleftrightarrow> (\<exists>q \<in> set quorums. set q \<subseteq> set ids)"
proof -
  have ok: "[] \<notin> set quorums" and r: "e_quorums r =
      filter (\<lambda>q. \<not> list_ex (\<lambda>other. other \<noteq> q \<and> set other \<subseteq> set q) (remdups_adj (sort quorums)))
        (remdups_adj (sort quorums))"
    using assms(1) by (auto simp: explicit_new_def Let_def list_ex_iff split: if_splits)
  then show "explicit_wf r" by (auto simp: explicit_wf_def)
  have "q \<in> set quorums \<Longrightarrow> \<exists>p \<in> set (e_quorums r). set p \<subseteq> set q" for q
    using minimal_below[OF _ assms(2), of q] by (auto simp: r list_ex_iff)
  moreover have "set (e_quorums r) \<subseteq> set quorums" by (auto simp: r)
  ultimately show "explicit_is_quorum r ids \<longleftrightarrow> (\<exists>q \<in> set quorums. set q \<subseteq> set ids)"
    unfolding explicit_is_quorum_iff by (meson subset_iff)
qed

section \<open>Hierarchies of groups\<close>

datatype 'n group = Group (quorum_size: nat) (voters: "'n list") (groups: "(string, 'n group) btree_map")

definition of_voters :: "nat \<Rightarrow> 'n::linorder list \<Rightarrow> 'n group" where
  "of_voters q_size vs = Group q_size (btree_set vs) []"

definition of_groups :: "nat \<Rightarrow> (string \<times> 'n group) list \<Rightarrow> 'n group" where
  "of_groups q_size gs = Group q_size [] (bm_of_list gs)"

definition member_count :: "'n group \<Rightarrow> nat" where
  "member_count g = length (voters g) + length (groups g)"

fun is_reached_by :: "'n group \<Rightarrow> 'n list \<Rightarrow> bool" where
  "is_reached_by (Group q_size vs gs) candidates =
     (let held = length (filter (\<lambda>x. x \<in> set candidates) vs);
          reached = length (filter (\<lambda>kg. is_reached_by (snd kg) candidates) gs)
      in held + reached \<ge> q_size)"

fun collect_voters :: "'n::linorder group \<Rightarrow> 'n list" where
  "collect_voters (Group q_size vs gs) = btree_set (vs @ concat (map (\<lambda>kg. collect_voters (snd kg)) gs))"

fun group_dual :: "'n group \<Rightarrow> 'n group" where
  "group_dual (Group q_size vs gs) =
     Group (length vs + length gs - q_size + 1) vs (map (\<lambda>kg. (fst kg, group_dual (snd kg))) gs)"

lemma group_child_size: "(k, g) \<in> set gs \<Longrightarrow> size g < Suc (n + size_list (size_prod (\<lambda>_. 0) size) gs)"
  by (induction gs) auto

text \<open>The children of the two groups are walked in step, as \<open>zip\<close> pairs them.\<close>

function proves_intersection :: "'n group \<Rightarrow> 'n group \<Rightarrow> bool" where
  "proves_intersection (Group q_size vs gs) (Group q_size' vs' gs') =
     (let same_voters = (vs = vs'); same_ids = (bm_keys gs = bm_keys gs')
      in if \<not> same_voters \<or> \<not> same_ids then False
         else
           (let quorum_sizes = q_size + q_size'
            in if quorum_sizes \<le> length vs + length gs then False
               else (\<forall>p \<in> set (zip gs gs'). proves_intersection (snd (fst p)) (snd (snd p)))))"
  by pat_completeness auto
termination
  by (relation "measure (\<lambda>(g, _). size g)") (auto dest!: set_zip_leftD intro!: group_child_size)

datatype 'n invalid_groups =
    EmptyGroup "string list"
  | SharedVoter 'n "string list" "string list"
  | InvalidQuorumSize "string list" nat nat

fun check_voters ::
  "string list \<Rightarrow> 'n::linorder list \<Rightarrow> ('n, string list) btree_map \<Rightarrow>
   'n invalid_groups + ('n, string list) btree_map" where
  "check_voters path [] group_of = Inr group_of"
| "check_voters path (node_id # vs) group_of =
     (case bm_get group_of node_id of
        None \<Rightarrow> check_voters path vs (bm_insert node_id path group_of)
      | Some fst_path \<Rightarrow> Inl (SharedVoter node_id fst_path path))"

function (sequential) check_group ::
    "'n::linorder group \<Rightarrow> string list \<Rightarrow> ('n, string list) btree_map \<Rightarrow>
     'n invalid_groups + ('n, string list) btree_map"
  and check_groups ::
    "(string, 'n group) btree_map \<Rightarrow> string list \<Rightarrow> ('n, string list) btree_map \<Rightarrow>
     'n invalid_groups + ('n, string list) btree_map" where
  "check_group (Group q_size vs gs) path group_of =
     (let mc = length vs + length gs
      in if mc = 0 then Inl (EmptyGroup path)
         else if \<not> (1 \<le> q_size \<and> q_size \<le> mc) then Inl (InvalidQuorumSize path q_size mc)
         else (case check_voters path vs group_of of
                 Inl e \<Rightarrow> Inl e
               | Inr group_of \<Rightarrow> check_groups gs path group_of))"
| "check_groups [] path group_of = Inr group_of"
| "check_groups ((k, child) # rest) path group_of =
     (case check_group child (path @ [k]) group_of of
        Inl e \<Rightarrow> Inl e
      | Inr group_of \<Rightarrow> check_groups rest path group_of)"
  by pat_completeness auto
termination
  by (relation "measure (case_sum (\<lambda>(g, _, _). size g) (\<lambda>(gs, _, _). size_list (size_prod (\<lambda>_. 0) size) gs))")
    auto

datatype 'n hierarchical_quorum_set = HierarchicalQuorumSet (h_root: "'n group")

definition hierarchical_new ::
  "'n::linorder group \<Rightarrow> 'n invalid_groups + 'n hierarchical_quorum_set" where
  "hierarchical_new root =
     (case check_group root [] [] of Inl e \<Rightarrow> Inl e | Inr _ \<Rightarrow> Inr (HierarchicalQuorumSet root))"

definition hierarchical_dual :: "'n hierarchical_quorum_set \<Rightarrow> 'n hierarchical_quorum_set" where
  "hierarchical_dual r = HierarchicalQuorumSet (group_dual (h_root r))"

definition hierarchical_is_quorum :: "'n hierarchical_quorum_set \<Rightarrow> 'n list \<Rightarrow> bool" where
  "hierarchical_is_quorum r ids = is_reached_by (h_root r) ids"

definition hierarchical_ids :: "'n::linorder hierarchical_quorum_set \<Rightarrow> 'n list" where
  "hierarchical_ids r = collect_voters (h_root r)"

definition hierarchical_intersects_with ::
  "'n hierarchical_quorum_set \<Rightarrow> 'n hierarchical_quorum_set \<Rightarrow> bool option" where
  "hierarchical_intersects_with r other =
     (if proves_intersection (h_root r) (h_root other) then Some True else None)"

text \<open>The ordered collections of a group are well formed, and every group can be reached.\<close>

fun group_typed :: "'n::linorder group \<Rightarrow> bool" where
  "group_typed (Group q_size vs gs) \<longleftrightarrow>
     btree_set_wf vs \<and> bm_wf gs \<and> (\<forall>kg \<in> set gs. group_typed (snd kg))"

fun sizes_fit :: "'n group \<Rightarrow> bool" where
  "sizes_fit (Group q_size vs gs) \<longleftrightarrow>
     1 \<le> q_size \<and> q_size \<le> length vs + length gs \<and> (\<forall>kg \<in> set gs. sizes_fit (snd kg))"

definition hierarchical_wf :: "'n::linorder hierarchical_quorum_set \<Rightarrow> bool" where
  "hierarchical_wf r \<longleftrightarrow> group_typed (h_root r) \<and> sizes_fit (h_root r)"

lemma check_group_sizes:
  "check_group g path m = Inr m' \<Longrightarrow> sizes_fit g"
  "check_groups gs path m = Inr m' \<Longrightarrow> \<forall>kg \<in> set gs. sizes_fit (snd kg)"
proof (induction g path m and gs path m arbitrary: m' and m' rule: check_group_check_groups.induct)
  case (1 q_size vs gs path m)
  then show ?case by (auto simp: Let_def split: if_splits sum.splits)
next
  case (3 k child rest path m)
  then show ?case by (auto split: sum.splits)
qed simp

lemma hierarchical_new_wf:
  "group_typed root \<Longrightarrow> hierarchical_new root = Inr r \<Longrightarrow> hierarchical_wf r"
  by (auto simp: hierarchical_new_def hierarchical_wf_def check_group_sizes split: sum.splits)

lemma group_dual_sizes: "sizes_fit g \<Longrightarrow> sizes_fit (group_dual g)"
  by (induction g rule: group_dual.induct) auto

lemma group_dual_typed: "group_typed g \<Longrightarrow> group_typed (group_dual g)"
proof (induction g rule: group_dual.induct)
  case (1 q_size vs gs)
  have "map fst (map (\<lambda>kg. (fst kg, group_dual (snd kg))) gs) = map fst gs" by simp
  then show ?case using 1 by (auto simp: bm_wf_def simp del: map_map)
qed

lemma filter_overlap:
  "\<forall>x \<in> set xs. \<not> (P x \<and> Q x) \<Longrightarrow> length (filter P xs) + length (filter Q xs) \<le> length xs"
  by (induction xs) auto

lemma filter_overlap2:
  "length xs = length ys \<Longrightarrow> \<forall>p \<in> set (zip xs ys). \<not> (P (fst p) \<and> Q (snd p)) \<Longrightarrow>
   length (filter P xs) + length (filter Q ys) \<le> length xs"
  by (induction xs ys rule: list_induct2) auto

text \<open>The intersection check is sound: two sets that reach the two groups share a voter.\<close>

lemma proves_intersection_sound:
  "proves_intersection g g' \<Longrightarrow> is_reached_by g xs \<Longrightarrow> is_reached_by g' ys \<Longrightarrow> set xs \<inter> set ys \<noteq> {}"
proof (induction g g' rule: proves_intersection.induct)
  case (1 q vs gs q' vs' gs')
  let ?P = "\<lambda>kg. is_reached_by (snd kg) xs" and ?Q = "\<lambda>kg. is_reached_by (snd kg) ys"
  have same: "vs' = vs" "length gs' = length gs" and big: "length vs + length gs < q + q'"
    and sub: "\<forall>p \<in> set (zip gs gs'). proves_intersection (snd (fst p)) (snd (snd p))"
    using "1.prems"(1) by (auto simp: Let_def bm_keys_def dest: map_eq_imp_length_eq split: if_splits)
  have "q \<le> length (filter (\<lambda>x. x \<in> set xs) vs) + length (filter ?P gs)"
    "q' \<le> length (filter (\<lambda>x. x \<in> set ys) vs) + length (filter ?Q gs')"
    using "1.prems"(2,3) same by (simp_all add: Let_def)
  then have "(\<exists>x \<in> set vs. x \<in> set xs \<and> x \<in> set ys) \<or> (\<exists>p \<in> set (zip gs gs'). ?P (fst p) \<and> ?Q (snd p))"
    using filter_overlap[of vs "\<lambda>x. x \<in> set xs" "\<lambda>x. x \<in> set ys"] filter_overlap2[of gs gs' ?P ?Q]
      same big by fastforce
  then show ?case
  proof
    assume "\<exists>p \<in> set (zip gs gs'). ?P (fst p) \<and> ?Q (snd p)"
    then obtain p where "p \<in> set (zip gs gs')" "?P (fst p)" "?Q (snd p)" by blast
    then show ?thesis using "1.IH"[OF refl refl _ refl _ \<open>p \<in> _\<close>] "1.prems"(1) sub
      by (auto simp: Let_def split: if_splits)
  qed auto
qed

lemma filter_le: "(\<And>x. x \<in> set xs \<Longrightarrow> P x \<Longrightarrow> Q x) \<Longrightarrow> length (filter P xs) \<le> length (filter Q xs)"
  by (induction xs) auto

lemma is_reached_by_mono: "set xs \<subseteq> set ys \<Longrightarrow> is_reached_by g xs \<Longrightarrow> is_reached_by g ys"
proof (induction g xs rule: is_reached_by.induct)
  case (1 q vs gs xs)
  have "length (filter (\<lambda>x. x \<in> set xs) vs) \<le> length (filter (\<lambda>x. x \<in> set ys) vs)"
    using "1.prems"(1) by (intro filter_le) auto
  moreover have "length (filter (\<lambda>kg. is_reached_by (snd kg) xs) gs)
      \<le> length (filter (\<lambda>kg. is_reached_by (snd kg) ys) gs)"
    using "1.IH" "1.prems"(1) by (intro filter_le) simp
  ultimately show ?case using "1.prems"(2) by (simp add: Let_def)
qed

lemma is_reached_by_cong:
  "\<forall>v \<in> set (collect_voters g). v \<in> set xs \<longleftrightarrow> v \<in> set ys \<Longrightarrow> is_reached_by g xs \<longleftrightarrow> is_reached_by g ys"
proof (induction g xs rule: is_reached_by.induct)
  case (1 q vs gs xs)
  have "filter (\<lambda>x. x \<in> set xs) vs = filter (\<lambda>x. x \<in> set ys) vs"
    using "1.prems" by (intro filter_cong) auto
  moreover have "filter (\<lambda>kg. is_reached_by (snd kg) xs) gs = filter (\<lambda>kg. is_reached_by (snd kg) ys) gs"
    using "1.prems" by (intro filter_cong refl "1.IH") auto
  ultimately show ?case by simp
qed

lemma is_reached_by_Nil: "sizes_fit g \<Longrightarrow> \<not> is_reached_by g []"
proof (induction g rule: sizes_fit.induct)
  case (1 q vs gs)
  then have "filter (\<lambda>kg. is_reached_by (snd kg) []) gs = []" by (auto simp: filter_empty_conv)
  then show ?case using "1.prems" by (simp add: Let_def)
qed

interpretation hierarchical_quorum:
  quorum_rule hierarchical_wf hierarchical_is_quorum hierarchical_ids hierarchical_intersects_with
proof unfold_locales
  fix r :: "'a hierarchical_quorum_set" and xs ys
  show "hierarchical_wf r \<Longrightarrow> \<not> hierarchical_is_quorum r []"
    by (simp add: hierarchical_wf_def hierarchical_is_quorum_def is_reached_by_Nil)
  show "set xs \<subseteq> set ys \<Longrightarrow> hierarchical_is_quorum r xs \<Longrightarrow> hierarchical_is_quorum r ys"
    by (simp add: hierarchical_is_quorum_def is_reached_by_mono)
  show "hierarchical_is_quorum r xs \<Longrightarrow>
        hierarchical_is_quorum r (filter (\<lambda>x. x \<in> set (hierarchical_ids r)) xs)"
    using is_reached_by_cong[of "h_root r" xs "filter (\<lambda>x. x \<in> set (hierarchical_ids r)) xs"]
    by (simp add: hierarchical_is_quorum_def hierarchical_ids_def)
qed (auto simp: hierarchical_intersects_with_def quorums_meet_def hierarchical_is_quorum_def
    dest: proves_intersection_sound split: if_splits)

text \<open>The dual accepts a set exactly when the group does not accept its complement.\<close>

lemma group_dual_complement:
  "sizes_fit g \<Longrightarrow> \<forall>v \<in> set (collect_voters g). v \<in> set ys \<longleftrightarrow> v \<notin> set xs \<Longrightarrow>
   is_reached_by (group_dual g) xs \<longleftrightarrow> \<not> is_reached_by g ys"
proof (induction g rule: group_dual.induct)
  case (1 q vs gs)
  have "filter (\<lambda>x. x \<in> set ys) vs = filter (\<lambda>x. x \<notin> set xs) vs"
    using "1.prems" by (intro filter_cong) auto
  then have vs: "length (filter (\<lambda>x. x \<in> set xs) vs) + length (filter (\<lambda>x. x \<in> set ys) vs) = length vs"
    by (simp add: sum_length_filter_compl)
  have "filter (\<lambda>kg. is_reached_by (group_dual (snd kg)) xs) gs
      = filter (\<lambda>kg. \<not> is_reached_by (snd kg) ys) gs"
    using "1.prems" by (intro filter_cong refl "1.IH") auto
  then have gs: "length (filter (\<lambda>kg. is_reached_by (group_dual (snd kg)) xs) gs)
      + length (filter (\<lambda>kg. is_reached_by (snd kg) ys) gs) = length gs"
    using sum_length_filter_compl[of "\<lambda>kg. is_reached_by (snd kg) ys" gs] by simp
  show ?case using vs gs "1.prems"(1) by (auto simp: Let_def filter_map comp_def)
qed

lemma group_dual_proves: "sizes_fit g \<Longrightarrow> proves_intersection (group_dual g) g"
proof (induction g rule: group_dual.induct)
  case (1 q vs gs)
  have "p \<in> set (zip (map (\<lambda>kg. (fst kg, group_dual (snd kg))) gs) gs) \<Longrightarrow>
      \<exists>kg \<in> set gs. snd (fst p) = group_dual (snd kg) \<and> snd (snd p) = snd kg" for p
    by (force simp: zip_map1 zip_same_conv_map)
  then show ?case using 1 by (fastforce simp: Let_def bm_keys_def)
qed

lemma group_dual_exact:
  fixes g :: "'n::linorder group"
  assumes "sizes_fit g"
  shows "is_reached_by (group_dual g) xs \<longleftrightarrow> (\<forall>ys. is_reached_by g ys \<longrightarrow> set xs \<inter> set ys \<noteq> {})"
proof
  show "is_reached_by (group_dual g) xs \<Longrightarrow> \<forall>ys. is_reached_by g ys \<longrightarrow> set xs \<inter> set ys \<noteq> {}"
    using proves_intersection_sound[OF group_dual_proves[OF assms]] by blast
  assume meets: "\<forall>ys. is_reached_by g ys \<longrightarrow> set xs \<inter> set ys \<noteq> {}"
  let ?ys = "filter (\<lambda>x. x \<notin> set xs) (collect_voters g)"
  have "set xs \<inter> set ?ys = {}" by auto
  then have "\<not> is_reached_by g ?ys" using meets by blast
  then show "is_reached_by (group_dual g) xs" using group_dual_complement[OF assms, of ?ys xs] by simp
qed

end
