(* ===== verification/Memberships.thy ===== *)
theory Memberships
  imports StructuredRules
begin

text \<open>
  The memberships of the crate \<open>openraft-membership\<close> over the weighted, grid, explicit and
  hierarchical rules: their constructors, their conversion from a node map and their changes
  (\<open>*_membership.rs\<close>, \<open>*_change.rs\<close>).  A constructor error is \<open>Inl\<close>; a result
  \<open>None\<close> is a panic.
\<close>

section \<open>Weighted memberships\<close>

type_synonym ('n, 'nd) weighted_membership = "('n, 'nd, 'n weighted_quorum_set) joint_config"

definition weighted_membership_new ::
  "('n::linorder, nat) btree_map \<Rightarrow> nat \<Rightarrow> ('n, 'nd) btree_map \<Rightarrow>
   ('n, 'n invalid_weights) membership_error + ('n, 'nd) weighted_membership" where
  "weighted_membership_new weights write_weight nodes =
     (case rules_from_weights weights write_weight of
        Inl e \<Rightarrow> Inl (UserDefined e)
      | Inr (rd, wr) \<Rightarrow>
          (case config_new weighted_ids rd wr nodes of
             Inl node_id \<Rightarrow> Inl (NodeNotFound node_id)
           | Inr config \<Rightarrow> Inr (Joint [config])))"

definition weighted_membership_from ::
  "('n::linorder, 'nd) btree_map \<Rightarrow> ('n, 'nd) weighted_membership option" where
  "weighted_membership_from nodes =
     (if nodes = [] then Some joint_default
      else
        (let weights = bm_of_list (map (\<lambda>node_id. (node_id, 1)) (bm_keys nodes));
             voter_count = length nodes;
             majority = voter_count div 2 + 1
         in case weighted_membership_new weights majority nodes of
              Inl _ \<Rightarrow> None
            | Inr m \<Rightarrow> Some m))"

record ('n, 'nd) weighted_change =
  wc_node_change :: "('n, 'nd) node_change"
  wc_weights :: "('n, nat) btree_map option"
  wc_write_weight :: "nat option"

definition weighted_change_default :: "('n, 'nd) weighted_change" where
  "weighted_change_default = \<lparr>wc_node_change = node_change_default, wc_weights = None, wc_write_weight = None\<rparr>"

definition weighted_change_weights :: "('n, nat) btree_map \<Rightarrow> ('n, 'nd) weighted_change" where
  "weighted_change_weights weights = weighted_change_default\<lparr>wc_weights := Some weights\<rparr>"

definition weighted_change_write_weight :: "nat \<Rightarrow> ('n, 'nd) weighted_change" where
  "weighted_change_write_weight w = weighted_change_default\<lparr>wc_write_weight := Some w\<rparr>"

definition weighted_change_add_learner :: "'n \<Rightarrow> 'nd \<Rightarrow> ('n, 'nd) weighted_change" where
  "weighted_change_add_learner node_id node =
     weighted_change_default\<lparr>wc_node_change := node_change_add_node node_id node\<rparr>"

text \<open>The edits of all four memberships end alike: the last config is replaced by the new rules.\<close>

definition edit_result :: "('n + 'm) option \<Rightarrow> (('n, 'e) membership_error + 'm) option" where
  "edit_result r = map_option (\<lambda>r. case r of Inl node_id \<Rightarrow> Inl (NodeNotFound node_id) | Inr m \<Rightarrow> Inr m) r"

definition weighted_change_apply ::
  "('n::linorder, 'nd) weighted_change \<Rightarrow> ('n, 'nd) weighted_membership \<Rightarrow> bool \<Rightarrow>
   (('n, 'n invalid_weights) membership_error + ('n, 'nd) weighted_membership) option" where
  "weighted_change_apply ch m retain =
     (case last_opt (joint_parts m) of
        None \<Rightarrow> Some (Inl EmptyMembership)
      | Some lst \<Rightarrow>
          (let last_rule = cfg_write lst;
               weights = (case wc_weights ch of None \<Rightarrow> w_weights last_rule | Some weights \<Rightarrow> weights);
               write_weight = (case wc_write_weight ch of None \<Rightarrow> w_threshold last_rule | Some w \<Rightarrow> w)
           in case rules_from_weights weights write_weight of
                Inl e \<Rightarrow> Some (Inl (UserDefined e))
              | Inr rules \<Rightarrow> edit_result (replace_config weighted_ids m rules (wc_node_change ch) retain)))"

section \<open>Grid memberships\<close>

type_synonym ('n, 'nd) grid_membership = "('n, 'nd, 'n grid_quorum_set) joint_config"

definition rules_from_grid ::
  "'n list list \<Rightarrow> 'n invalid_grid + ('n grid_quorum_set \<times> 'n grid_quorum_set)" where
  "rules_from_grid grid =
     (case grid_new grid FullRow of
        Inl e \<Rightarrow> Inl e
      | Inr rd \<Rightarrow>
          (case grid_new grid OnePerRow of
             Inl e \<Rightarrow> Inl e
           | Inr wr \<Rightarrow> Inr (rd, wr)))"

definition grid_membership_new ::
  "'n::linorder list list \<Rightarrow> ('n, 'nd) btree_map \<Rightarrow>
   ('n, 'n invalid_grid) membership_error + ('n, 'nd) grid_membership" where
  "grid_membership_new grid nodes =
     (case rules_from_grid grid of
        Inl e \<Rightarrow> Inl (UserDefined e)
      | Inr (rd, wr) \<Rightarrow>
          (case config_new grid_ids rd wr nodes of
             Inl node_id \<Rightarrow> Inl (NodeNotFound node_id)
           | Inr config \<Rightarrow> Inr (Joint [config])))"

text \<open>\<open>usize::isqrt\<close> and \<open>slice::chunks\<close> of the standard library.\<close>

definition isqrt :: "nat \<Rightarrow> nat" where
  "isqrt n = List.last (filter (\<lambda>r. r * r \<le> n) [0..<Suc n])"

fun chunks :: "nat \<Rightarrow> 'a list \<Rightarrow> 'a list list" where
  "chunks k [] = []"
| "chunks k (x # xs) = (if k = 0 then [] else take k (x # xs) # chunks k (drop k (x # xs)))"

fun divide_rows :: "nat \<Rightarrow> nat \<Rightarrow> nat" where
  "divide_rows voter_count 0 = 0"
| "divide_rows voter_count (Suc r) =
     (if voter_count mod Suc r \<noteq> 0 then divide_rows voter_count r else Suc r)"

definition grid_membership_from :: "('n::linorder, 'nd) btree_map \<Rightarrow> ('n, 'nd) grid_membership option" where
  "grid_membership_from nodes =
     (let vs = bm_keys nodes
      in if vs = [] then Some joint_default
         else
           (let voter_count = length vs;
                row_count = divide_rows voter_count (isqrt voter_count);
                column_count = voter_count div row_count;
                grid = chunks column_count vs
            in case grid_membership_new grid nodes of
                 Inl _ \<Rightarrow> None
               | Inr m \<Rightarrow> Some m))"

record ('n, 'nd) grid_change =
  gc_node_change :: "('n, 'nd) node_change"
  gc_grid :: "'n list list option"

definition grid_change_default :: "('n, 'nd) grid_change" where
  "grid_change_default = \<lparr>gc_node_change = node_change_default, gc_grid = None\<rparr>"

definition grid_change_apply ::
  "('n::linorder, 'nd) grid_change \<Rightarrow> ('n, 'nd) grid_membership \<Rightarrow> bool \<Rightarrow>
   (('n, 'n invalid_grid) membership_error + ('n, 'nd) grid_membership) option" where
  "grid_change_apply ch m retain =
     (case last_opt (joint_parts m) of
        None \<Rightarrow> Some (Inl EmptyMembership)
      | Some lst \<Rightarrow>
          (case (case gc_grid ch of
                   None \<Rightarrow> Inr (cfg_read lst, cfg_write lst)
                 | Some grid \<Rightarrow> rules_from_grid grid) of
             Inl e \<Rightarrow> Some (Inl (UserDefined e))
           | Inr rules \<Rightarrow> edit_result (replace_config grid_ids m rules (gc_node_change ch) retain)))"

section \<open>Explicit memberships\<close>

type_synonym ('n, 'nd) explicit_membership = "('n, 'nd, 'n explicit_quorum_set) joint_config"

definition explicit_membership_new ::
  "'n::linorder list list \<Rightarrow> 'n list list \<Rightarrow> ('n, 'nd) btree_map \<Rightarrow>
   ('n, 'n invalid_quorum_lists) membership_error + ('n, 'nd) explicit_membership" where
  "explicit_membership_new rd wr nodes =
     (case rules_from_lists rd wr of
        Inl e \<Rightarrow> Inl (UserDefined e)
      | Inr (rd, wr) \<Rightarrow>
          (case config_new explicit_ids rd wr nodes of
             Inl node_id \<Rightarrow> Inl (NodeNotFound node_id)
           | Inr config \<Rightarrow> Inr (Joint [config])))"

definition explicit_membership_from ::
  "('n::linorder, 'nd) btree_map \<Rightarrow> ('n, 'nd) explicit_membership option" where
  "explicit_membership_from nodes =
     (let vs = btree_set (bm_keys nodes)
      in if vs = [] then Some joint_default
         else (case explicit_membership_new [vs] [vs] nodes of
                 Inl _ \<Rightarrow> None
               | Inr m \<Rightarrow> Some m))"

record ('n, 'nd) explicit_change =
  ec_node_change :: "('n, 'nd) node_change"
  ec_read :: "'n list list option"
  ec_write :: "'n list list option"

definition explicit_change_default :: "('n, 'nd) explicit_change" where
  "explicit_change_default = \<lparr>ec_node_change = node_change_default, ec_read = None, ec_write = None\<rparr>"

definition explicit_change_apply ::
  "('n::linorder, 'nd) explicit_change \<Rightarrow> ('n, 'nd) explicit_membership \<Rightarrow> bool \<Rightarrow>
   (('n, 'n invalid_quorum_lists) membership_error + ('n, 'nd) explicit_membership) option" where
  "explicit_change_apply ch m retain =
     (case last_opt (joint_parts m) of
        None \<Rightarrow> Some (Inl EmptyMembership)
      | Some lst \<Rightarrow>
          (case (case ec_read ch of None \<Rightarrow> Some (cfg_read lst) | Some rd \<Rightarrow> explicit_new rd) of
             None \<Rightarrow> Some (Inl (UserDefined EmptyReadQuorum))
           | Some rd \<Rightarrow>
               (case (case ec_write ch of None \<Rightarrow> Some (cfg_write lst) | Some wr \<Rightarrow> explicit_new wr) of
                  None \<Rightarrow> Some (Inl (UserDefined EmptyWriteQuorum))
                | Some wr \<Rightarrow>
                    (case check_rules rd wr of
                       Inl e \<Rightarrow> Some (Inl (UserDefined e))
                     | Inr _ \<Rightarrow>
                         edit_result (replace_config explicit_ids m (rd, wr) (ec_node_change ch) retain)))))"

section \<open>Hierarchical memberships\<close>

type_synonym ('n, 'nd) hierarchical_membership = "('n, 'nd, 'n hierarchical_quorum_set) joint_config"

definition hierarchical_membership_new ::
  "'n::linorder group \<Rightarrow> ('n, 'nd) btree_map \<Rightarrow>
   ('n, 'n invalid_groups) membership_error + ('n, 'nd) hierarchical_membership" where
  "hierarchical_membership_new root nodes =
     (case hierarchical_new root of
        Inl e \<Rightarrow> Inl (UserDefined e)
      | Inr wr \<Rightarrow>
          (let rd = hierarchical_dual wr
           in case config_new hierarchical_ids rd wr nodes of
                Inl node_id \<Rightarrow> Inl (NodeNotFound node_id)
              | Inr config \<Rightarrow> Inr (Joint [config])))"

definition hierarchical_membership_from ::
  "('n::linorder, 'nd) btree_map \<Rightarrow> ('n, 'nd) hierarchical_membership option" where
  "hierarchical_membership_from nodes =
     (let vs = btree_set (bm_keys nodes)
      in if vs = [] then Some joint_default
         else
           (let voter_count = length vs;
                write_size = voter_count div 2 + 1
            in case hierarchical_membership_new (of_voters write_size vs) nodes of
                 Inl _ \<Rightarrow> None
               | Inr m \<Rightarrow> Some m))"

record ('n, 'nd) hierarchical_change =
  hc_node_change :: "('n, 'nd) node_change"
  hc_groups :: "'n group option"

definition hierarchical_change_default :: "('n, 'nd) hierarchical_change" where
  "hierarchical_change_default = \<lparr>hc_node_change = node_change_default, hc_groups = None\<rparr>"

definition hierarchical_change_apply ::
  "('n::linorder, 'nd) hierarchical_change \<Rightarrow> ('n, 'nd) hierarchical_membership \<Rightarrow> bool \<Rightarrow>
   (('n, 'n invalid_groups) membership_error + ('n, 'nd) hierarchical_membership) option" where
  "hierarchical_change_apply ch m retain =
     (case last_opt (joint_parts m) of
        None \<Rightarrow> Some (Inl EmptyMembership)
      | Some lst \<Rightarrow>
          (case (case hc_groups ch of None \<Rightarrow> Inr (cfg_write lst) | Some gs \<Rightarrow> hierarchical_new gs) of
             Inl e \<Rightarrow> Some (Inl (UserDefined e))
           | Inr wr \<Rightarrow>
               (let rd = hierarchical_dual wr
                in edit_result (replace_config hierarchical_ids m (rd, wr) (hc_node_change ch) retain))))"

section \<open>Instances of the membership interface\<close>

abbreviation weighted_ops :: "('n::linorder, 'nd, ('n, 'nd) weighted_membership, 'n weighted_quorum_set joint) membership_ops" where
  "weighted_ops \<equiv> joint_config_ops weighted_is_quorum weighted_ids weighted_intersects_with"

abbreviation grid_ops :: "('n::linorder, 'nd, ('n, 'nd) grid_membership, 'n grid_quorum_set joint) membership_ops" where
  "grid_ops \<equiv> joint_config_ops grid_is_quorum grid_ids grid_intersects_with"

abbreviation explicit_ops :: "('n::linorder, 'nd, ('n, 'nd) explicit_membership, 'n explicit_quorum_set joint) membership_ops" where
  "explicit_ops \<equiv> joint_config_ops explicit_is_quorum explicit_ids explicit_intersects_with"

abbreviation hierarchical_ops :: "('n::linorder, 'nd, ('n, 'nd) hierarchical_membership, 'n hierarchical_quorum_set joint) membership_ops" where
  "hierarchical_ops \<equiv> joint_config_ops hierarchical_is_quorum hierarchical_ids hierarchical_intersects_with"

interpretation weighted_mem: raft_membership weighted_ops "config_valid weighted_wf"
  by (rule weighted_rule.config_membership)

interpretation grid_mem: raft_membership grid_ops "config_valid grid_wf"
  by (rule grid_quorum.config_membership)

interpretation explicit_mem: raft_membership explicit_ops "config_valid explicit_wf"
  by (rule explicit_quorum.config_membership)

interpretation hierarchical_mem: raft_membership hierarchical_ops "config_valid hierarchical_wf"
  by (rule hierarchical_quorum.config_membership)

section \<open>Constructors and changes establish the invariant\<close>

text \<open>In a sound membership the two rules of every config are well formed and intersect.\<close>

definition sound_membership ::
  "('q \<Rightarrow> bool) \<Rightarrow> ('q \<Rightarrow> 'q \<Rightarrow> bool option) \<Rightarrow> ('n, 'nd, 'q) joint_config \<Rightarrow> bool" where
  "sound_membership rule_wf isect m \<longleftrightarrow>
     (\<forall>c \<in> set (joint_parts m).
        rule_wf (cfg_read c) \<and> rule_wf (cfg_write c) \<and> isect (cfg_read c) (cfg_write c) = Some True)"

lemma sound_membership_valid: "sound_membership rule_wf isect m \<Longrightarrow> config_valid rule_wf m"
  by (simp add: sound_membership_def config_valid_def list_all_iff)

lemma sound_membership_intersects:
  assumes "sound_membership rule_wf isect m"
  shows "read_write_quorums_intersect (joint_config_ops is_q rids isect) m = Some True"
proof (cases "joint_parts m")
  case Nil
  then show ?thesis by (simp add: joint_config_ops_def default_read_write_quorums_intersect_def
      jc_read_quorum_set_def jc_write_quorum_set_def joint_from_rules_def joint_intersects_with_def)
next
  case (Cons c cs)
  then show ?thesis using assms
    by (simp add: sound_membership_def joint_config_ops_def default_read_write_quorums_intersect_def
        jc_read_quorum_set_def jc_write_quorum_set_def joint_from_rules_def joint_intersects_with_def)
qed

lemma sound_membership_joint:
  assumes "sound_membership rule_wf isect m" "sound_membership rule_wf isect goal"
    "jc_joint_with rids m goal = Some j"
  shows "sound_membership rule_wf isect j"
proof -
  obtain md where "j = Joint (map (resolve_nodes md) (joint_parts (joint_joint_with m goal)))"
    using jc_joint_with_total[of rids m goal] assms(3) by auto
  then show ?thesis using assms(1,2)
    by (auto simp: sound_membership_def joint_joint_with_def joint_default_def split: if_splits)
qed

lemma sound_membership_last:
  "sound_membership rule_wf isect m \<Longrightarrow> last_opt (joint_parts m) = Some c \<Longrightarrow>
   rule_wf (cfg_read c) \<and> rule_wf (cfg_write c) \<and> isect (cfg_read c) (cfg_write c) = Some True"
  by (auto simp: sound_membership_def last_opt_def split: if_splits)

lemma edit_result_Inr [simp]: "edit_result r = Some (Inr m) \<longleftrightarrow> r = Some (Inr m)"
  by (cases r) (auto simp: edit_result_def split: sum.split)

lemma edit_result_total: "\<exists>r. edit_result (replace_config rids m rules ch retain) = Some r"
  using replace_config_total[of rids m rules ch retain] by (auto simp: edit_result_def)

lemma edited_sound:
  assumes "replace_config rids m (rd, wr) ch retain = Some (Inr target)"
    "rule_wf rd \<and> rule_wf wr \<and> isect rd wr = Some True"
  shows "sound_membership rule_wf isect target"
  using replace_config_rules[OF assms(1)] assms(2) by (auto simp: sound_membership_def)

lemma config_new_rules: "config_new rids rd wr nodes = Inr c \<Longrightarrow> cfg_read c = rd \<and> cfg_write c = wr"
  by (auto simp: config_new_def Let_def split: sum.splits)

lemma created_sound:
  "config_new rids rd wr nodes = Inr c \<Longrightarrow> rule_wf rd \<and> rule_wf wr \<and> isect rd wr = Some True \<Longrightarrow>
   sound_membership rule_wf isect (Joint [c])"
  by (auto simp: sound_membership_def dest: config_new_rules)

subsection \<open>Weighted\<close>

lemma weighted_membership_new_sound:
  assumes "weighted_membership_new weights w nodes = Inr m" "bm_wf weights"
  shows "sound_membership weighted_wf weighted_intersects_with m"
proof -
  obtain rd wr c where rules: "rules_from_weights weights w = Inr (rd, wr)"
    and c: "config_new weighted_ids rd wr nodes = Inr c" and m: "m = Joint [c]"
    using assms(1) by (auto simp: weighted_membership_new_def split: sum.splits)
  show ?thesis unfolding m
    by (rule created_sound[OF c]) (simp add: rules_from_weights_ok[OF assms(2) rules])
qed

lemma weighted_change_sound:
  assumes "weighted_change_apply ch m retain = Some (Inr target)"
    "sound_membership weighted_wf weighted_intersects_with m"
    "\<forall>weights. wc_weights ch = Some weights \<longrightarrow> bm_wf weights"
  shows "sound_membership weighted_wf weighted_intersects_with target"
proof -
  obtain lst where lst: "last_opt (joint_parts m) = Some lst"
    using assms(1) by (auto simp: weighted_change_apply_def split: option.splits)
  define weights where "weights = (case wc_weights ch of None \<Rightarrow> w_weights (cfg_write lst) | Some weights \<Rightarrow> weights)"
  define w where "w = (case wc_write_weight ch of None \<Rightarrow> w_threshold (cfg_write lst) | Some w \<Rightarrow> w)"
  obtain rd wr where rules: "rules_from_weights weights w = Inr (rd, wr)"
    and res: "replace_config weighted_ids m (rd, wr) (wc_node_change ch) retain = Some (Inr target)"
    using assms(1)
    by (cases "rules_from_weights weights w") (auto simp: weighted_change_apply_def lst Let_def weights_def w_def)
  have "bm_wf weights" using assms(3) sound_membership_last[OF assms(2) lst]
    by (auto simp: weights_def weighted_wf_def split: option.splits)
  then show ?thesis by (intro edited_sound[OF res]) (simp add: rules_from_weights_ok[OF _ rules])
qed

lemma weighted_change_total: "\<exists>r. weighted_change_apply ch m retain = Some r"
  using edit_result_total by (auto simp: weighted_change_apply_def Let_def split: option.split sum.split)

subsection \<open>Grid\<close>

lemma rules_from_grid_ok:
  assumes "rules_from_grid grid = Inr (rd, wr)"
  shows "grid_wf rd \<and> grid_wf wr \<and> grid_intersects_with rd wr = Some True"
proof -
  have "check_grid grid = Inr ()" "rd = \<lparr>g_grid = grid, g_rule = FullRow\<rparr>" "wr = \<lparr>g_grid = grid, g_rule = OnePerRow\<rparr>"
    using assms by (auto simp: rules_from_grid_def grid_new_def split: sum.splits)
  then show ?thesis by (auto simp: grid_wf_def grid_intersects_with_def list_all_iff)
qed

lemma grid_membership_new_sound:
  assumes "grid_membership_new grid nodes = Inr m"
  shows "sound_membership grid_wf grid_intersects_with m"
proof -
  obtain rd wr c where rules: "rules_from_grid grid = Inr (rd, wr)"
    and c: "config_new grid_ids rd wr nodes = Inr c" and m: "m = Joint [c]"
    using assms(1) by (auto simp: grid_membership_new_def split: sum.splits)
  show ?thesis unfolding m by (rule created_sound[OF c]) (rule rules_from_grid_ok[OF rules])
qed

lemma grid_change_sound:
  assumes "grid_change_apply ch m retain = Some (Inr target)"
    "sound_membership grid_wf grid_intersects_with m"
  shows "sound_membership grid_wf grid_intersects_with target"
proof -
  obtain lst where lst: "last_opt (joint_parts m) = Some lst"
    using assms(1) by (auto simp: grid_change_apply_def split: option.splits)
  obtain rd wr where "rules_from_grid (the (gc_grid ch)) = Inr (rd, wr) \<or> (rd = cfg_read lst \<and> wr = cfg_write lst)"
    and res: "replace_config grid_ids m (rd, wr) (gc_node_change ch) retain = Some (Inr target)"
    using assms(1) by (auto simp: grid_change_apply_def lst split: option.splits sum.splits)
  then have "grid_wf rd \<and> grid_wf wr \<and> grid_intersects_with rd wr = Some True"
    using rules_from_grid_ok sound_membership_last[OF assms(2) lst] by blast
  then show ?thesis by (rule edited_sound[OF res])
qed

lemma grid_change_total: "\<exists>r. grid_change_apply ch m retain = Some r"
  using edit_result_total by (auto simp: grid_change_apply_def split: option.split sum.split)

subsection \<open>Explicit\<close>

lemma check_rules_ok: "check_rules rd wr = Inr () \<Longrightarrow> explicit_intersects_with rd wr = Some True"
  by (auto simp: check_rules_def explicit_intersects_with_def split: if_splits option.splits)

lemma rules_from_lists_ok:
  assumes "rules_from_lists rl wl = Inr (rd, wr)" "\<forall>q \<in> set rl \<union> set wl. btree_set_wf q"
  shows "explicit_wf rd \<and> explicit_wf wr \<and> explicit_intersects_with rd wr = Some True"
proof -
  have "explicit_new rl = Some rd" "explicit_new wl = Some wr" "check_rules rd wr = Inr ()"
    using assms(1) by (auto simp: rules_from_lists_def split: option.splits sum.splits)
  then show ?thesis using explicit_new_quorum(1) check_rules_ok assms(2) by blast
qed

lemma explicit_membership_new_sound:
  assumes "explicit_membership_new rl wl nodes = Inr m" "\<forall>q \<in> set rl \<union> set wl. btree_set_wf q"
  shows "sound_membership explicit_wf explicit_intersects_with m"
proof -
  obtain rd wr c where rules: "rules_from_lists rl wl = Inr (rd, wr)"
    and c: "config_new explicit_ids rd wr nodes = Inr c" and m: "m = Joint [c]"
    using assms(1) by (auto simp: explicit_membership_new_def split: sum.splits)
  show ?thesis unfolding m by (rule created_sound[OF c]) (rule rules_from_lists_ok[OF rules assms(2)])
qed

lemma explicit_change_sound:
  assumes "explicit_change_apply ch m retain = Some (Inr target)"
    "sound_membership explicit_wf explicit_intersects_with m"
    "\<forall>l \<in> set_option (ec_read ch) \<union> set_option (ec_write ch). \<forall>q \<in> set l. btree_set_wf q"
  shows "sound_membership explicit_wf explicit_intersects_with target"
proof -
  obtain lst where lst: "last_opt (joint_parts m) = Some lst"
    using assms(1) by (auto simp: explicit_change_apply_def split: option.splits)
  obtain rd where rd: "(case ec_read ch of None \<Rightarrow> Some (cfg_read lst) | Some l \<Rightarrow> explicit_new l) = Some rd"
    using assms(1)
    by (cases "case ec_read ch of None \<Rightarrow> Some (cfg_read lst) | Some l \<Rightarrow> explicit_new l")
      (auto simp: explicit_change_apply_def lst)
  obtain wr where wr: "(case ec_write ch of None \<Rightarrow> Some (cfg_write lst) | Some l \<Rightarrow> explicit_new l) = Some wr"
    using assms(1) rd
    by (cases "case ec_write ch of None \<Rightarrow> Some (cfg_write lst) | Some l \<Rightarrow> explicit_new l")
      (auto simp: explicit_change_apply_def lst)
  have ok: "check_rules rd wr = Inr ()"
    and res: "replace_config explicit_ids m (rd, wr) (ec_node_change ch) retain = Some (Inr target)"
    using assms(1) rd wr by (auto simp: explicit_change_apply_def lst split: sum.splits)
  have "explicit_wf rd" "explicit_wf wr"
    using rd wr assms(3) explicit_new_quorum(1) sound_membership_last[OF assms(2) lst]
    by (auto split: option.splits)
  then show ?thesis using check_rules_ok[OF ok] by (intro edited_sound[OF res]) simp
qed

lemma explicit_change_total: "\<exists>r. explicit_change_apply ch m retain = Some r"
  using edit_result_total by (auto simp: explicit_change_apply_def split: option.split sum.split)

subsection \<open>Hierarchical\<close>

lemma hierarchical_dual_ok:
  "hierarchical_wf wr \<Longrightarrow>
   hierarchical_wf (hierarchical_dual wr) \<and> hierarchical_intersects_with (hierarchical_dual wr) wr = Some True"
  by (simp add: hierarchical_wf_def hierarchical_dual_def hierarchical_intersects_with_def
      group_dual_sizes group_dual_typed group_dual_proves)

lemma hierarchical_membership_new_sound:
  assumes "hierarchical_membership_new root nodes = Inr m" "group_typed root"
  shows "sound_membership hierarchical_wf hierarchical_intersects_with m"
proof -
  obtain wr c where wr: "hierarchical_new root = Inr wr"
    and c: "config_new hierarchical_ids (hierarchical_dual wr) wr nodes = Inr c" and m: "m = Joint [c]"
    using assms(1) by (auto simp: hierarchical_membership_new_def Let_def split: sum.splits)
  have "hierarchical_wf wr" using hierarchical_new_wf assms(2) wr by blast
  then show ?thesis unfolding m using hierarchical_dual_ok by (intro created_sound[OF c]) blast
qed

lemma hierarchical_change_sound:
  assumes "hierarchical_change_apply ch m retain = Some (Inr target)"
    "sound_membership hierarchical_wf hierarchical_intersects_with m"
    "\<forall>g \<in> set_option (hc_groups ch). group_typed g"
  shows "sound_membership hierarchical_wf hierarchical_intersects_with target"
proof -
  obtain lst where lst: "last_opt (joint_parts m) = Some lst"
    using assms(1) by (auto simp: hierarchical_change_apply_def split: option.splits)
  obtain wr where wr: "(case hc_groups ch of None \<Rightarrow> Inr (cfg_write lst) | Some gs \<Rightarrow> hierarchical_new gs) = Inr wr"
    and res: "replace_config hierarchical_ids m (hierarchical_dual wr, wr) (hc_node_change ch) retain = Some (Inr target)"
    using assms(1)
    by (cases "case hc_groups ch of None \<Rightarrow> Inr (cfg_write lst) | Some gs \<Rightarrow> hierarchical_new gs")
      (auto simp: hierarchical_change_apply_def lst Let_def)
  have "hierarchical_wf wr"
    using wr assms(3) hierarchical_new_wf sound_membership_last[OF assms(2) lst]
    by (auto split: option.splits)
  then show ?thesis using hierarchical_dual_ok by (intro edited_sound[OF res]) blast
qed

lemma hierarchical_change_total: "\<exists>r. hierarchical_change_apply ch m retain = Some r"
  using edit_result_total by (auto simp: hierarchical_change_apply_def Let_def split: option.split sum.split)

section \<open>Conversions from node maps never panic\<close>

lemma bm_insert_greatest: "\<forall>k' \<in> fst ` set m. k' < k \<Longrightarrow> bm_insert k v m = m @ [(k, v)]"
  by (induction k v m rule: bm_insert.induct) auto

lemma bm_of_list_sorted: "bm_wf kvs \<Longrightarrow> bm_of_list kvs = kvs"
proof -
  have "bm_wf (m @ kvs) \<Longrightarrow> fold (\<lambda>(k, v) m. bm_insert k v m) kvs m = m @ kvs" for m
  proof (induction kvs arbitrary: m)
    case (Cons kv kvs)
    obtain k v where kv: "kv = (k, v)" by force
    have "\<forall>k' \<in> fst ` set m. k' < k" using Cons.prems by (auto simp: kv bm_wf_def sorted_wrt_append)
    then show ?case using Cons.IH[of "m @ [(k, v)]"] Cons.prems by (simp add: kv bm_insert_greatest)
  qed simp
  from this[of "[]"] show "bm_wf kvs \<Longrightarrow> bm_of_list kvs = kvs" by (simp add: bm_of_list_def)
qed

lemma config_new_covers:
  assumes "set (rids rd) \<union> set (rids wr) \<subseteq> set (bm_keys nodes)"
  shows "\<exists>c. config_new rids rd wr nodes = Inr c"
proof -
  let ?nodes = "bm_of_list (map (\<lambda>(node_id, node). (node_id, (node, None))) nodes)"
  have "bm_contains_key ?nodes nid" if "nid \<in> set (bm_keys nodes)" for nid
    using that by (force simp: bm_contains_key_def bm_of_list_get bm_keys_def map_of_eq_None_iff)
  then show ?thesis using assms
    by (auto simp: config_new_def Let_def config_voters_have_nodes_def find_None_iff config_voters_def
        split: sum.split option.split dest!: find_SomeD)
qed

lemma sum_weights_ok:
  "\<forall>(k, w) \<in> set m. 0 < w \<Longrightarrow> tot + weight_of m UNIV \<le> u64_max \<Longrightarrow>
   sum_weights m tot = Inr (tot + weight_of m UNIV)"
  by (induction m tot rule: sum_weights.induct) (auto simp: checked_add_def)

lemma weighted_membership_from_total:
  assumes "bm_wf nodes" "length nodes \<le> u64_max"
  shows "\<exists>m. weighted_membership_from nodes = Some m"
proof (cases "nodes = []")
  case False
  let ?w = "map (\<lambda>node_id. (node_id, 1 :: nat)) (bm_keys nodes)"
  have w: "bm_of_list ?w = ?w" using assms(1) by (intro bm_of_list_sorted) (simp add: bm_wf_def bm_keys_def comp_def)
  have "weight_of (map (\<lambda>x. (x, 1)) xs) UNIV = length xs" for xs :: "'a list" by (induction xs) auto
  from this[of "bm_keys nodes"] have tot: "weight_of ?w UNIV = length nodes" by (simp only: bm_keys_def length_map)
  have "0 + weight_of ?w UNIV \<le> u64_max" unfolding tot using assms(2) by simp
  then have "sum_weights ?w 0 = Inr (0 + weight_of ?w UNIV)" by (intro sum_weights_ok) auto
  then have sum: "sum_weights ?w 0 = Inr (length nodes)" unfolding tot by simp
  have "length nodes div 2 + 1 \<le> length nodes" using False by (cases nodes) auto
  moreover have "weighted_new t ?w = Inr \<lparr>w_weights = ?w, w_threshold = t\<rparr>" if "0 < t" for t
  proof -
    have "find (\<lambda>(_, weight). weight = 0) ?w = None" by (auto simp: find_None_iff)
    then show ?thesis using that by (simp add: weighted_new_def)
  qed
  ultimately obtain rd wr where rules: "rules_from_weights ?w (length nodes div 2 + 1) = Inr (rd, wr)"
    and "w_weights rd = ?w" "w_weights wr = ?w"
    using sum by (simp add: rules_from_weights_def Let_def)
  then obtain c where "config_new weighted_ids rd wr nodes = Inr c"
    using config_new_covers[of weighted_ids rd wr nodes] by (auto simp: weighted_ids_def bm_keys_def comp_def)
  then show ?thesis using rules w by (simp add: weighted_membership_from_def weighted_membership_new_def Let_def)
qed (simp add: weighted_membership_from_def)

lemma divide_rows_divides: "0 < r \<Longrightarrow> divide_rows n r dvd n \<and> 0 < divide_rows n r"
  by (induction n r rule: divide_rows.induct) (auto simp: mod_eq_0_iff_dvd)

lemma isqrt_pos: "0 < n \<Longrightarrow> 0 < isqrt n"
proof -
  assume n: "0 < n"
  have "1 \<in> set (filter (\<lambda>r. r * r \<le> n) [0..<Suc n])" using n by auto
  moreover have "sorted (filter (\<lambda>r. r * r \<le> n) [0..<Suc n])" by (intro sorted_wrt_filter sorted_upt)
  ultimately have "1 \<le> List.last (filter (\<lambda>r. r * r \<le> n) [0..<Suc n])"
    by (cases "filter (\<lambda>r. r * r \<le> n) [0..<Suc n]" rule: rev_cases) (auto simp: sorted_append simp del: upt_Suc)
  then show ?thesis by (simp add: isqrt_def)
qed

lemma chunks_concat: "0 < k \<Longrightarrow> concat (chunks k xs) = xs"
  by (induction k xs rule: chunks.induct) auto

lemma chunks_rows: "0 < k \<Longrightarrow> k dvd length xs \<Longrightarrow> \<forall>row \<in> set (chunks k xs). length row = k"
proof (induction k xs rule: chunks.induct)
  case (2 k x xs)
  let ?ys = "x # xs"
  have k: "0 < k" "k dvd length ?ys" using "2.prems" .
  have "k \<le> length ?ys" by (rule dvd_imp_le[OF k(2)]) simp
  moreover have "k dvd length (drop k ?ys)" unfolding length_drop by (rule dvd_diff_nat[OF k(2) dvd_refl])
  moreover from this have "\<forall>row \<in> set (chunks k (drop k ?ys)). length row = k"
    using k(1) by (intro "2.IH") simp_all
  moreover have "chunks k ?ys = take k ?ys # chunks k (drop k ?ys)" using k(1) by simp
  ultimately show ?case by (simp only: list.set length_take ball_simps min.absorb2)
qed simp

lemma grid_membership_from_total:
  assumes "bm_wf nodes"
  shows "\<exists>m. grid_membership_from nodes = Some m"
proof (cases "bm_keys nodes = []")
  case False
  define n where "n = length (bm_keys nodes)"
  define rows where "rows = divide_rows n (isqrt n)"
  define k where "k = n div rows"
  have n: "0 < n" using False by (simp add: n_def)
  have "rows dvd n" "0 < rows" using divide_rows_divides[OF isqrt_pos[OF n]] by (simp_all add: rows_def)
  then have k: "0 < k" "k dvd n" using n by (auto simp: k_def dvd_imp_le div_greater_zero_iff elim: dvdE)
  let ?grid = "chunks k (bm_keys nodes)"
  have cc: "concat ?grid = bm_keys nodes" using k(1) by (rule chunks_concat)
  have "distinct (concat ?grid)" using assms cc by (simp add: bm_keys_def bm_wf_distinct)
  moreover have "?grid \<noteq> []" using cc False by auto
  moreover have "\<forall>row \<in> set ?grid. length row = k" using k chunks_rows[of k "bm_keys nodes"] by (simp add: n_def)
  ultimately have "check_grid ?grid = Inr ()" using k(1) by (auto simp: check_grid_ok)
  then obtain rd wr where rules: "rules_from_grid ?grid = Inr (rd, wr)" and "g_grid rd = ?grid" "g_grid wr = ?grid"
    by (simp add: rules_from_grid_def grid_new_def)
  then obtain c where "config_new grid_ids rd wr nodes = Inr c"
    using config_new_covers[of grid_ids rd wr nodes] cc by (auto simp: grid_ids_def simp del: set_concat)
  then show ?thesis using rules False
    by (simp add: grid_membership_from_def grid_membership_new_def Let_def n_def[symmetric] rows_def[symmetric] k_def[symmetric])
qed (simp add: grid_membership_from_def)

lemma explicit_membership_from_total:
  "\<exists>m. explicit_membership_from nodes = Some m"
proof (cases "btree_set (bm_keys nodes) = []")
  case False
  let ?vs = "btree_set (bm_keys nodes)"
  have "explicit_new [?vs] = Some (ExplicitQuorumSet [?vs])" using False by (simp add: explicit_new_def)
  moreover from False have "check_rules (ExplicitQuorumSet [?vs]) (ExplicitQuorumSet [?vs]) = Inr ()"
    by (simp add: check_rules_def disjoint_quorums_def split: option.split) (metis btree_set_props(1) set_empty)
  ultimately have rules: "rules_from_lists [?vs] [?vs] = Inr (ExplicitQuorumSet [?vs], ExplicitQuorumSet [?vs])"
    by (simp add: rules_from_lists_def)
  obtain c where "config_new explicit_ids (ExplicitQuorumSet [?vs]) (ExplicitQuorumSet [?vs]) nodes = Inr c"
    using config_new_covers[of explicit_ids "ExplicitQuorumSet [?vs]" "ExplicitQuorumSet [?vs]" nodes]
    by (auto simp: explicit_ids_def)
  then show ?thesis using rules False by (simp add: explicit_membership_from_def explicit_membership_new_def Let_def)
qed (simp add: explicit_membership_from_def)

lemma check_voters_ok:
  "bm_wf m \<Longrightarrow> distinct vs \<Longrightarrow> \<forall>v \<in> set vs. bm_get m v = None \<Longrightarrow> \<exists>m'. check_voters path vs m = Inr m'"
proof (induction path vs m rule: check_voters.induct)
  case (2 path v vs m)
  then have "\<forall>u \<in> set vs. bm_get (bm_insert v path m) u = None" by auto
  then show ?case using 2 by simp
qed simp

lemma hierarchical_membership_from_total:
  "\<exists>m. hierarchical_membership_from nodes = Some m"
proof (cases "btree_set (bm_keys nodes) = []")
  case False
  let ?vs = "btree_set (bm_keys nodes)"
  let ?g = "of_voters (length ?vs div 2 + 1) ?vs"
  have bt: "btree_set ?vs = ?vs" by (simp add: btree_set_def sorted_sort_id)
  obtain m' where "check_voters [] ?vs [] = Inr m'" using check_voters_ok[of "[]" ?vs "[]"] by auto
  moreover have "length ?vs div 2 + 1 \<le> length ?vs" using False by (cases ?vs) auto
  ultimately have rule: "hierarchical_new ?g = Inr (HierarchicalQuorumSet ?g)"
    using False by (simp add: hierarchical_new_def of_voters_def bt)
  obtain c where "config_new hierarchical_ids (hierarchical_dual (HierarchicalQuorumSet ?g))
      (HierarchicalQuorumSet ?g) nodes = Inr c"
    using config_new_covers[of hierarchical_ids "hierarchical_dual (HierarchicalQuorumSet ?g)"
        "HierarchicalQuorumSet ?g" nodes]
    by (auto simp: hierarchical_ids_def hierarchical_dual_def of_voters_def)
  then show ?thesis using rule False
    by (simp add: hierarchical_membership_from_def hierarchical_membership_new_def Let_def)
qed (simp add: hierarchical_membership_from_def)

end
