(* ===== verification/ThresholdMembership.thy ===== *)
theory ThresholdMembership
  imports ConfigMembership
begin

text \<open>
  \<open>ThresholdMembership\<close> and \<open>ThresholdChange\<close> (\<open>membership/src/threshold\<close>): a joint of
  threshold rules with a chosen write size per config.  The read size is derived, so that every
  read quorum of a config meets every write quorum of it.  A result \<open>None\<close> is a panic.
\<close>

section \<open>The membership\<close>

record ('n, 'nd) threshold_membership =
  tm_read :: "'n threshold_quorum_set joint"
  tm_write :: "'n threshold_quorum_set joint"
  tm_nodes :: "('n, 'nd) btree_map"

datatype invalid_thresholds = InvalidThresholds (voter_count: nat) (write_size: nat)

datatype 'n threshold_membership_error =
    TNodeNotFound 'n
  | TInvalidThresholds invalid_thresholds

definition threshold_default :: "('n, 'nd) threshold_membership" where
  "threshold_default = \<lparr>tm_read = joint_default, tm_write = joint_default, tm_nodes = []\<rparr>"

definition check_write_size :: "nat \<Rightarrow> nat \<Rightarrow> invalid_thresholds + nat" where
  "check_write_size voters w =
     (let invalid = InvalidThresholds voters w
      in if w = 0 then Inl invalid
         else if w > voters then Inl invalid
         else Inr w)"

fun rules_from_configs ::
  "('n list \<times> nat) list \<Rightarrow> ('n threshold_quorum_set list \<times> 'n threshold_quorum_set list) option" where
  "rules_from_configs [] = Some ([], [])"
| "rules_from_configs ((voters, w) # rest) =
     (let read_size = wrapping_add (wrapping_sub (length voters) w) 1
      in if read_size = 0 then None
         else (case rules_from_configs rest of
                 None \<Rightarrow> None
               | Some (rds, wrs) \<Rightarrow> Some (threshold_new read_size voters # rds, threshold_new w voters # wrs)))"

definition from_configs ::
  "('n list \<times> nat) list \<Rightarrow> ('n, 'nd) btree_map \<Rightarrow> ('n, 'nd) threshold_membership option" where
  "from_configs configs nodes =
     (case rules_from_configs configs of
        None \<Rightarrow> None
      | Some (rds, wrs) \<Rightarrow>
          Some \<lparr>tm_read = joint_from_rules rds, tm_write = joint_from_rules wrs, tm_nodes = nodes\<rparr>)"

definition threshold_voters_have_nodes :: "('n::linorder, 'nd) threshold_membership \<Rightarrow> 'n + unit" where
  "threshold_voters_have_nodes m =
     (case find (\<lambda>node_id. \<not> bm_contains_key (tm_nodes m) node_id) (joint_ids t_ids (tm_write m)) of
        Some node_id \<Rightarrow> Inl node_id
      | None \<Rightarrow> Inr ())"

definition threshold_is_voter :: "('n, 'nd) threshold_membership \<Rightarrow> 'n \<Rightarrow> bool" where
  "threshold_is_voter m node_id = list_ex (\<lambda>rule. node_id \<in> set (t_ids rule)) (joint_parts (tm_read m))"

definition threshold_membership_new ::
  "'n::linorder list \<Rightarrow> nat \<Rightarrow> ('n, 'nd) btree_map \<Rightarrow>
   ('n threshold_membership_error + ('n, 'nd) threshold_membership) option" where
  "threshold_membership_new voters w nodes =
     (case check_write_size (length voters) w of
        Inl e \<Rightarrow> Some (Inl (TInvalidThresholds e))
      | Inr w \<Rightarrow>
          (case from_configs [(voters, w)] nodes of
             None \<Rightarrow> None
           | Some m \<Rightarrow>
               (case threshold_voters_have_nodes m of
                  Inl node_id \<Rightarrow> Some (Inl (TNodeNotFound node_id))
                | Inr _ \<Rightarrow> Some (Inr m))))"

definition threshold_membership_from ::
  "('n::linorder, 'nd) btree_map \<Rightarrow> ('n, 'nd) threshold_membership option" where
  "threshold_membership_from nodes =
     (let voters = btree_set (bm_keys nodes)
      in if voters = [] then Some threshold_default
         else
           (let majority = saturating_add 1 (length voters div 2)
            in from_configs [(voters, majority)] nodes))"

fun configs_from_write_rules :: "'n threshold_quorum_set list \<Rightarrow> invalid_thresholds + ('n list \<times> nat) list" where
  "configs_from_write_rules [] = Inr []"
| "configs_from_write_rules (rule # rest) =
     (case check_write_size (length (t_ids rule)) (t_quorum_size rule) of
        Inl e \<Rightarrow> Inl e
      | Inr w \<Rightarrow>
          (case configs_from_write_rules rest of
             Inl e \<Rightarrow> Inl e
           | Inr configs \<Rightarrow> Inr ((t_ids rule, w) # configs)))"

text \<open>Deserialization reads the write rules and the nodes, and derives the read rules.\<close>

definition threshold_try_from ::
  "'n::linorder threshold_quorum_set joint \<Rightarrow> ('n, 'nd) btree_map \<Rightarrow>
   ('n threshold_membership_error + ('n, 'nd) threshold_membership) option" where
  "threshold_try_from wr nodes =
     (case configs_from_write_rules (joint_parts wr) of
        Inl e \<Rightarrow> Some (Inl (TInvalidThresholds e))
      | Inr configs \<Rightarrow>
          (case from_configs configs nodes of
             None \<Rightarrow> None
           | Some m \<Rightarrow>
               (case threshold_voters_have_nodes m of
                  Inl node_id \<Rightarrow> Some (Inl (TNodeNotFound node_id))
                | Inr _ \<Rightarrow> Some (Inr m))))"

section \<open>The membership interface\<close>

definition threshold_supports_direct ::
  "('n, 'nd) threshold_membership \<Rightarrow> ('n, 'nd) threshold_membership \<Rightarrow> bool" where
  "threshold_supports_direct m other =
     (if joint_intersects_with threshold_intersects_with (tm_read m) (tm_write other) \<noteq> Some True then False
      else joint_intersects_with threshold_intersects_with (tm_write m) (tm_read other) = Some True)"

definition threshold_get_node :: "('n, 'nd) threshold_membership \<Rightarrow> 'n \<Rightarrow> 'nd node_ref option" where
  "threshold_get_node m node_id =
     (case bm_get (tm_nodes m) node_id of
        None \<Rightarrow> None
      | Some node \<Rightarrow>
          (let is_voter = threshold_is_voter m node_id
           in Some \<lparr>nr_node = node, nr_role = default_role is_voter,
                    nr_is_read_voter = is_voter, nr_is_write_voter = is_voter\<rparr>))"

definition threshold_node_ids :: "('n, 'nd) threshold_membership \<Rightarrow> 'n list" where
  "threshold_node_ids m = bm_keys (tm_nodes m)"

definition threshold_joint_with ::
  "('n::linorder, 'nd) threshold_membership \<Rightarrow> ('n, 'nd) threshold_membership \<Rightarrow>
   ('n, 'nd) threshold_membership option" where
  "threshold_joint_with m goal =
     Some \<lparr>tm_read = joint_joint_with (tm_read m) (tm_read goal),
           tm_write = joint_joint_with (tm_write m) (tm_write goal),
           tm_nodes = fold (\<lambda>(node_id, node) nodes.
             if threshold_is_voter m node_id then bm_or_insert node_id node nodes else nodes)
             (tm_nodes m) (tm_nodes goal)\<rparr>"

definition threshold_ops ::
  "('n::linorder, 'nd, ('n, 'nd) threshold_membership, 'n threshold_quorum_set joint) membership_ops" where
  "threshold_ops =
     \<lparr>m_default = threshold_default,
      read_quorum_set = tm_read,
      write_quorum_set = tm_write,
      read_write_quorums_intersect =
        default_read_write_quorums_intersect tm_read tm_write (joint_intersects_with threshold_intersects_with),
      supports_direct_transition_to = threshold_supports_direct,
      get_node = threshold_get_node,
      node_ids = threshold_node_ids,
      joint_with = threshold_joint_with,
      qs_is_quorum = joint_is_quorum threshold_is_quorum,
      qs_ids = joint_ids t_ids,
      qs_intersects_with = joint_intersects_with threshold_intersects_with\<rparr>"

section \<open>Changes\<close>

record ('n, 'nd) threshold_change =
  tc_add_nodes :: "('n, 'nd) btree_map"
  tc_voters :: "'n list option"
  tc_write_size :: "nat option"
  tc_remove_nodes :: "'n list"

definition threshold_change_default :: "('n, 'nd) threshold_change" where
  "threshold_change_default = \<lparr>tc_add_nodes = [], tc_voters = None, tc_write_size = None, tc_remove_nodes = []\<rparr>"

definition threshold_change_add_learner :: "'n \<Rightarrow> 'nd \<Rightarrow> ('n, 'nd) threshold_change" where
  "threshold_change_add_learner node_id node = threshold_change_default\<lparr>tc_add_nodes := [(node_id, node)]\<rparr>"

definition threshold_change_apply ::
  "('n::linorder, 'nd) threshold_change \<Rightarrow> ('n, 'nd) threshold_membership \<Rightarrow> bool \<Rightarrow>
   (('n, invalid_thresholds) membership_error + ('n, 'nd) threshold_membership) option" where
  "threshold_change_apply ch m retain =
     (case last_opt (joint_parts (tm_write m)) of
        None \<Rightarrow> Some (Inl EmptyMembership)
      | Some last_write \<Rightarrow>
          (let node_change = \<lparr>add_nodes = tc_add_nodes ch, remove_nodes = tc_remove_nodes ch, nc_roles = []\<rparr>;
               nodes = edit_nodes node_change (tm_nodes m);
               voters = (case tc_voters ch of None \<Rightarrow> t_ids last_write | Some voters \<Rightarrow> voters);
               w = (case tc_write_size ch of None \<Rightarrow> t_quorum_size last_write | Some w \<Rightarrow> w)
           in case check_write_size (length voters) w of
                Inl e \<Rightarrow> Some (Inl (UserDefined e))
              | Inr w \<Rightarrow>
                  (case from_configs [(voters, w)] nodes of
                     None \<Rightarrow> None
                   | Some target \<Rightarrow>
                       (case threshold_voters_have_nodes target of
                          Inl node_id \<Rightarrow> Some (Inl (NodeNotFound node_id))
                        | Inr _ \<Rightarrow>
                            Some (Inr (if \<not> retain
                              then fold (\<lambda>node_id target.
                                     if \<not> threshold_is_voter target node_id
                                     then target\<lparr>tm_nodes := bm_remove node_id (tm_nodes target)\<rparr>
                                     else target) (joint_ids t_ids (tm_read m)) target
                              else target))))))"

section \<open>The invariant\<close>

definition threshold_valid :: "('n::linorder, 'nd) threshold_membership \<Rightarrow> bool" where
  "threshold_valid m \<longleftrightarrow> list_all threshold_wf (joint_parts (tm_read m)) \<and> list_all threshold_wf (joint_parts (tm_write m))"

text \<open>A read rule and a write rule of one config: the same voters and sizes that just overlap.\<close>

definition config_pair :: "'n::linorder threshold_quorum_set \<Rightarrow> 'n threshold_quorum_set \<Rightarrow> bool" where
  "config_pair r w \<longleftrightarrow>
     threshold_wf r \<and> threshold_wf w \<and> t_ids r = t_ids w \<and>
     t_quorum_size r + t_quorum_size w = length (t_ids w) + 1"

definition threshold_sound :: "('n::linorder, 'nd) threshold_membership \<Rightarrow> bool" where
  "threshold_sound m \<longleftrightarrow> list_all2 config_pair (joint_parts (tm_read m)) (joint_parts (tm_write m))"

interpretation threshold_mem: raft_membership threshold_ops threshold_valid
proof unfold_locales
  have q: "read_quorum threshold_ops m = joint_is_quorum threshold_is_quorum (tm_read m)"
    "write_quorum threshold_ops m = joint_is_quorum threshold_is_quorum (tm_write m)"
    for m :: "('a, 'b) threshold_membership"
    by (simp_all add: read_quorum_def[abs_def] write_quorum_def[abs_def] threshold_ops_def)
  fix m m' j :: "('a, 'b) threshold_membership" and xs ys
  assume m: "threshold_valid m"
  then have wf: "list_all threshold_wf (joint_parts (tm_read m))" "list_all threshold_wf (joint_parts (tm_write m))"
    by (simp_all add: threshold_valid_def)
  show "set xs \<subseteq> set ys \<Longrightarrow> read_quorum threshold_ops m xs \<Longrightarrow> read_quorum threshold_ops m ys"
    unfolding q by (rule threshold_rule.joint_mono[OF wf(1)])
  show "set xs \<subseteq> set ys \<Longrightarrow> write_quorum threshold_ops m xs \<Longrightarrow> write_quorum threshold_ops m ys"
    unfolding q by (rule threshold_rule.joint_mono[OF wf(2)])
  show "read_write_quorums_intersect threshold_ops m = Some True \<Longrightarrow> consistent threshold_ops m"
    unfolding consistent_def q
    by (rule threshold_rule.joint_sound[OF wf]) (simp add: threshold_ops_def default_read_write_quorums_intersect_def)
  assume m': "threshold_valid m'"
  then have wf': "list_all threshold_wf (joint_parts (tm_read m'))" "list_all threshold_wf (joint_parts (tm_write m'))"
    by (simp_all add: threshold_valid_def)
  show "supports_direct_transition_to threshold_ops m m' \<Longrightarrow> safe_step threshold_ops m m'"
    unfolding safe_step_def q
    using threshold_rule.joint_sound[OF wf(1) wf'(2)] threshold_rule.joint_sound[OF wf(2) wf'(1)] quorums_meet_sym
    by (auto simp: threshold_ops_def threshold_supports_direct_def split: if_splits)
  show "\<exists>j. joint_with threshold_ops m m' = Some j \<and> threshold_valid j"
    using m m' by (auto simp: threshold_ops_def threshold_joint_with_def threshold_valid_def joint_joint_with_def joint_default_def)
  show "joint_with threshold_ops m m' = Some j \<Longrightarrow> read_quorum threshold_ops j xs \<Longrightarrow>
      read_quorum threshold_ops m xs \<and> read_quorum threshold_ops m' xs"
    unfolding q by (auto simp: threshold_ops_def threshold_joint_with_def joint_with_quorum)
  show "joint_with threshold_ops m m' = Some j \<Longrightarrow> write_quorum threshold_ops j xs \<Longrightarrow>
      write_quorum threshold_ops m xs \<and> write_quorum threshold_ops m' xs"
    unfolding q by (auto simp: threshold_ops_def threshold_joint_with_def joint_with_quorum)
qed

lemma threshold_sound_valid: "threshold_sound m \<Longrightarrow> threshold_valid m"
  by (auto simp: threshold_sound_def threshold_valid_def list_all2_conv_all_nth list_all_length config_pair_def)

lemma config_pair_intersects: "config_pair r w \<Longrightarrow> threshold_intersects_with r w = Some True"
  using threshold_intersects_card[of r w]
  by (auto simp: config_pair_def threshold_need_def threshold_wf_def btree_set_wf_distinct distinct_card)

lemma threshold_sound_intersects:
  assumes "threshold_sound m"
  shows "read_write_quorums_intersect threshold_ops m = Some True"
proof (cases "joint_parts (tm_read m)")
  case Nil
  then show ?thesis
    by (simp add: threshold_ops_def default_read_write_quorums_intersect_def joint_intersects_with_def)
next
  case (Cons r rs)
  then obtain w ws where "joint_parts (tm_write m) = w # ws" "config_pair r w"
    using assms by (auto simp: threshold_sound_def list_all2_Cons1)
  then show ?thesis using Cons config_pair_intersects[of r w]
    by (simp add: threshold_ops_def default_read_write_quorums_intersect_def joint_intersects_with_def)
qed

lemma threshold_sound_joint:
  assumes "threshold_sound m" "threshold_sound goal" "threshold_joint_with m goal = Some j"
  shows "threshold_sound j"
proof -
  have "joint_parts (tm_read m) = [] \<longleftrightarrow> joint_parts (tm_write m) = []"
    "joint_parts (tm_read goal) = [] \<longleftrightarrow> joint_parts (tm_write goal) = []"
    using assms(1,2) by (auto simp: threshold_sound_def)
  then show ?thesis using assms
    by (auto simp: threshold_joint_with_def threshold_sound_def joint_joint_with_def joint_default_def
        intro: list_all2_appendI)
qed

text \<open>Building the rules of checked sizes never panics and establishes the invariant.\<close>

definition config_fits :: "'n::linorder list \<times> nat \<Rightarrow> bool" where
  "config_fits c \<longleftrightarrow> btree_set_wf (fst c) \<and> length (fst c) < u64_max \<and> 0 < snd c \<and> snd c \<le> length (fst c)"

lemma rules_from_configs_ok:
  assumes "list_all config_fits configs"
  shows "\<exists>rds wrs. rules_from_configs configs = Some (rds, wrs) \<and> list_all2 config_pair rds wrs \<and>
    map (\<lambda>r. (t_ids r, t_quorum_size r)) wrs = configs"
  using assms
proof (induction configs)
  case (Cons c configs)
  obtain voters w where c: "c = (voters, w)" by force
  have fits: "btree_set_wf voters" "length voters < u64_max" "0 < w" "w \<le> length voters"
    using Cons.prems by (simp_all add: c config_fits_def)
  then have "length voters - w + 1 \<le> u64_max" "w \<le> u64_max" by linarith+
  then have size: "wrapping_add (wrapping_sub (length voters) w) 1 = length voters - w + 1"
    using fits(2-4) by (simp add: wrapping_sub_small wrapping_add_small u64_max_def)
  have pair: "config_pair (threshold_new (length voters - w + 1) voters) (threshold_new w voters)"
    using fits \<open>length voters - w + 1 \<le> u64_max\<close> \<open>w \<le> u64_max\<close> by (auto simp: config_pair_def threshold_wf_def threshold_new_def)
  obtain rds wrs where ih: "rules_from_configs configs = Some (rds, wrs)" "list_all2 config_pair rds wrs"
    "map (\<lambda>r. (t_ids r, t_quorum_size r)) wrs = configs" using Cons by auto
  have "rules_from_configs (c # configs) =
      Some (threshold_new (length voters - w + 1) voters # rds, threshold_new w voters # wrs)"
    unfolding c rules_from_configs.simps Let_def size ih(1) by simp
  then show ?case using pair ih(2,3) by (simp add: c threshold_new_def)
qed simp

lemma from_configs_ok:
  assumes "list_all config_fits configs"
  obtains m where "from_configs configs nodes = Some m" "threshold_sound m" "tm_nodes m = nodes"
    "map (\<lambda>r. (t_ids r, t_quorum_size r)) (joint_parts (tm_write m)) = configs"
  using rules_from_configs_ok[OF assms]
  by (auto simp: from_configs_def threshold_sound_def joint_from_rules_def)

lemma check_write_size_Inr: "check_write_size n w = Inr w' \<longleftrightarrow> w' = w \<and> 0 < w \<and> w \<le> n"
  by (auto simp: check_write_size_def Let_def)

lemma threshold_sound_last:
  assumes "threshold_sound m" "last_opt (joint_parts (tm_write m)) = Some w"
  shows "threshold_wf w"
proof -
  have "w \<in> set (joint_parts (tm_write m))" using assms(2) by (auto simp: last_opt_def split: if_splits)
  then show ?thesis using threshold_sound_valid[OF assms(1)] by (auto simp: threshold_valid_def list_all_iff)
qed

lemma drop_nodes_rules:
  fixes t :: "('n::linorder, 'nd) threshold_membership"
  shows "tm_read (fold (\<lambda>node_id target.
      if \<not> threshold_is_voter target node_id then target\<lparr>tm_nodes := bm_remove node_id (tm_nodes target)\<rparr>
      else target) ids t) = tm_read t \<and>
    tm_write (fold (\<lambda>node_id target.
      if \<not> threshold_is_voter target node_id then target\<lparr>tm_nodes := bm_remove node_id (tm_nodes target)\<rparr>
      else target) ids t) = tm_write t"
  by (induction ids arbitrary: t) auto

text \<open>
  A change never panics; its target is one config over the requested voters with the requested
  write size, and it satisfies the invariant.
\<close>

lemma threshold_change_ok:
  assumes sound: "threshold_sound m"
    and typed: "\<forall>voters. tc_voters ch = Some voters \<longrightarrow> btree_set_wf voters \<and> length voters < u64_max"
  shows "\<exists>r. threshold_change_apply ch m retain = Some r \<and>
    (\<forall>target. r = Inr target \<longrightarrow> threshold_sound target \<and>
       (\<exists>w. joint_parts (tm_write target) = [w] \<and>
          (\<forall>voters. tc_voters ch = Some voters \<longrightarrow> t_ids w = voters) \<and>
          (\<forall>n. tc_write_size ch = Some n \<longrightarrow> t_quorum_size w = n)))"
proof (cases "last_opt (joint_parts (tm_write m))")
  case None
  then show ?thesis by (simp add: threshold_change_apply_def)
next
  case (Some lw)
  define voters where "voters = (case tc_voters ch of None \<Rightarrow> t_ids lw | Some voters \<Rightarrow> voters)"
  define w where "w = (case tc_write_size ch of None \<Rightarrow> t_quorum_size lw | Some w \<Rightarrow> w)"
  define nodes where "nodes = edit_nodes \<lparr>add_nodes = tc_add_nodes ch, remove_nodes = tc_remove_nodes ch, nc_roles = []\<rparr>
    (tm_nodes m)"
  have voters: "btree_set_wf voters" "length voters < u64_max"
    using threshold_sound_last[OF sound Some] typed
    by (auto simp: voters_def threshold_wf_def split: option.splits)
  show ?thesis
  proof (cases "check_write_size (length voters) w")
    case (Inl e)
    then show ?thesis by (simp add: threshold_change_apply_def Some voters_def w_def Let_def)
  next
    case (Inr w')
    then have w': "w' = w" "0 < w" "w \<le> length voters" by (simp_all add: check_write_size_Inr)
    obtain t where t: "from_configs [(voters, w)] nodes = Some t" "threshold_sound t"
      and rules: "map (\<lambda>r. (t_ids r, t_quorum_size r)) (joint_parts (tm_write t)) = [(voters, w)]"
      by (rule from_configs_ok[of "[(voters, w)]" nodes]) (use voters w' in \<open>auto simp: config_fits_def\<close>)
    have "threshold_change_apply ch m retain =
        (case threshold_voters_have_nodes t of
           Inl node_id \<Rightarrow> Some (Inl (NodeNotFound node_id))
         | Inr _ \<Rightarrow> Some (Inr (if \<not> retain
             then fold (\<lambda>node_id target.
                    if \<not> threshold_is_voter target node_id
                    then target\<lparr>tm_nodes := bm_remove node_id (tm_nodes target)\<rparr>
                    else target) (joint_ids t_ids (tm_read m)) t
             else t)))"
      using Inr t(1) unfolding w'(1)
      by (simp add: threshold_change_apply_def Some Let_def voters_def[symmetric] w_def[symmetric] nodes_def[symmetric])
    then show ?thesis
      using t(2) rules drop_nodes_rules[of "joint_ids t_ids (tm_read m)" t]
      by (auto simp: threshold_sound_def voters_def w_def split: sum.splits)
  qed
qed

text \<open>A membership is read back from its write rules and its nodes as it was.\<close>

lemma config_pair_unique:
  assumes "list_all2 config_pair rs ws" "list_all2 config_pair rs' ws'"
    "map (\<lambda>r. (t_ids r, t_quorum_size r)) ws = map (\<lambda>r. (t_ids r, t_quorum_size r)) ws'"
  shows "rs = rs' \<and> ws = ws'"
  using assms
proof (induction rs ws arbitrary: rs' ws' rule: list_all2_induct)
  case (Cons r rs w ws)
  obtain w' vs' where ws': "ws' = w' # vs'" and weq: "t_ids w = t_ids w'" "t_quorum_size w = t_quorum_size w'"
    "map (\<lambda>r. (t_ids r, t_quorum_size r)) ws = map (\<lambda>r. (t_ids r, t_quorum_size r)) vs'"
    using Cons.prems(2) by (cases ws') auto
  obtain r' qs' where rs': "rs' = r' # qs'" "config_pair r' w'" "list_all2 config_pair qs' vs'"
    using Cons.prems(1) ws' by (auto simp: list_all2_Cons2)
  have "w = w'" using weq by simp
  moreover have "r = r'" using Cons.hyps(1) rs'(2) weq by (auto simp: config_pair_def)
  ultimately show ?case using Cons.IH rs' weq(3) ws' by auto
qed auto

lemma configs_from_write_rules_ok:
  "\<forall>w \<in> set ws. 0 < t_quorum_size w \<and> t_quorum_size w \<le> length (t_ids w) \<Longrightarrow>
   configs_from_write_rules ws = Inr (map (\<lambda>r. (t_ids r, t_quorum_size r)) ws)"
  by (induction ws) (auto simp: check_write_size_def)

lemma threshold_round_trip:
  assumes sound: "threshold_sound m" and "threshold_voters_have_nodes m = Inr ()"
  shows "threshold_try_from (tm_write m) (tm_nodes m) = Some (Inr m)"
proof -
  let ?ws = "joint_parts (tm_write m)" and ?pair = "\<lambda>r. (t_ids r, t_quorum_size r)"
  have fit: "threshold_wf w \<and> t_quorum_size w \<le> length (t_ids w)" if w: "w \<in> set ?ws" for w
  proof -
    obtain i where "i < length ?ws" "w = ?ws ! i" using w by (auto simp: in_set_conv_nth)
    then have "config_pair (joint_parts (tm_read m) ! i) w"
      using sound by (auto simp: threshold_sound_def list_all2_conv_all_nth)
    then show ?thesis by (auto simp: config_pair_def threshold_wf_def)
  qed
  have "configs_from_write_rules ?ws = Inr (map ?pair ?ws)"
    by (rule configs_from_write_rules_ok) (use fit in \<open>simp add: threshold_wf_def\<close>)
  moreover have "list_all config_fits (map ?pair ?ws)"
    using fit by (simp add: list_all_iff config_fits_def threshold_wf_def)
  then obtain m' where m': "from_configs (map ?pair ?ws) (tm_nodes m) = Some m'" "threshold_sound m'"
    "tm_nodes m' = tm_nodes m" "map ?pair (joint_parts (tm_write m')) = map ?pair ?ws"
    by (rule from_configs_ok)
  have "joint_parts (tm_read m') = joint_parts (tm_read m) \<and> joint_parts (tm_write m') = joint_parts (tm_write m)"
    by (rule config_pair_unique[OF m'(2)[unfolded threshold_sound_def] sound[unfolded threshold_sound_def] m'(4)])
  then have "tm_read m' = tm_read m" "tm_write m' = tm_write m" by (simp_all add: joint.expand)
  then have "m' = m" using m'(3) by (intro threshold_membership.equality) simp_all
  ultimately show ?thesis using m'(1) assms(2) by (simp add: threshold_try_from_def)
qed

end
