(* ===== verification/MembershipState.thy ===== *)
theory MembershipState
  imports RaftMembership LogIds
begin

text \<open>
  The committed and the effective membership of a node: \<open>StoredMembership\<close>
  (\<open>membership/stored_membership.rs\<close>) and \<open>MembershipState\<close>
  (\<open>raft_state/membership_state/mod.rs\<close>).  The trait \<open>RaftMembership\<close> is the argument
  \<open>M\<close>; the result of a membership edit's \<open>apply\<close> is an argument of \<open>next_membership\<close>,
  where \<open>None\<close> is a panic.
\<close>

section \<open>State\<close>

record ('c, 'm) stored_membership =
  sm_log_id :: "'c log_id option"
  sm_membership :: 'm

definition stored_membership_default :: "('n, 'nd, 'm, 'q) membership_ops \<Rightarrow> ('c, 'm) stored_membership" where
  "stored_membership_default M = \<lparr>sm_log_id = None, sm_membership = m_default M\<rparr>"

definition stored_is_campaigner ::
  "('n, 'nd, 'm, 'q) membership_ops \<Rightarrow> ('c, 'm) stored_membership \<Rightarrow> 'n \<Rightarrow> bool" where
  "stored_is_campaigner M s nid = mem_is_campaigner M (sm_membership s) nid"

definition stored_get_node ::
  "('n, 'nd, 'm, 'q) membership_ops \<Rightarrow> ('c, 'm) stored_membership \<Rightarrow> 'n \<Rightarrow> 'nd option" where
  "stored_get_node M s nid = map_option nr_node (get_node M (sm_membership s) nid)"

record ('c, 'm) membership_state =
  ms_committed :: "('c, 'm) stored_membership"
  ms_effective :: "('c, 'm) stored_membership"

definition membership_state_default :: "('n, 'nd, 'm, 'q) membership_ops \<Rightarrow> ('c, 'm) membership_state" where
  "membership_state_default M =
     \<lparr>ms_committed = stored_membership_default M, ms_effective = stored_membership_default M\<rparr>"

definition ms_contains :: "('n, 'nd, 'm, 'q) membership_ops \<Rightarrow> ('c, 'm) membership_state \<Rightarrow> 'n \<Rightarrow> bool" where
  "ms_contains M s nid = mem_contains M (sm_membership (ms_effective s)) nid"

definition ms_is_campaigner :: "('n, 'nd, 'm, 'q) membership_ops \<Rightarrow> ('c, 'm) membership_state \<Rightarrow> 'n \<Rightarrow> bool" where
  "ms_is_campaigner M s nid = mem_is_campaigner M (sm_membership (ms_effective s)) nid"

definition is_campaigner_in_effective_or_committed ::
  "('n, 'nd, 'm, 'q) membership_ops \<Rightarrow> ('c, 'm) membership_state \<Rightarrow> 'n \<Rightarrow> bool" where
  "is_campaigner_in_effective_or_committed M s nid \<longleftrightarrow>
     stored_is_campaigner M (ms_effective s) nid \<or> stored_is_campaigner M (ms_committed s) nid"

section \<open>Proposing a change\<close>

definition ensure_committed ::
  "('c, 'm) membership_state \<Rightarrow> ('c log_id, 'n, 'e) change_membership_error + unit" where
  "ensure_committed s =
     (if sm_log_id (ms_effective s) = sm_log_id (ms_committed s) then Inr ()
      else Inl (InProgress (sm_log_id (ms_committed s)) (sm_log_id (ms_effective s))))"

text \<open>The checks that both ways of proposing a membership make of it, in order.\<close>

definition ensure_membership_usable ::
  "('n::linorder, 'nd, 'm, 'q) membership_ops \<Rightarrow> 'm \<Rightarrow> ('n, 'e) membership_error + unit" where
  "ensure_membership_usable M goal =
     (case ensure_non_empty_config M goal of
        Inl e \<Rightarrow> Inl e
      | Inr _ \<Rightarrow>
          (case ensure_voters_have_nodes M goal of
             Inl e \<Rightarrow> Inl e
           | Inr _ \<Rightarrow>
               (case ensure_write_voters_receive_logs M goal of
                  Inl e \<Rightarrow> Inl e
                | Inr _ \<Rightarrow> ensure_read_write_quorums_intersect M goal)))"

definition next_membership ::
  "('n::linorder, 'nd, 'm, 'q) membership_ops \<Rightarrow> ('m \<Rightarrow> bool \<Rightarrow> (('n, 'f) membership_error + 'm) option) \<Rightarrow>
   ('f \<Rightarrow> 'e) \<Rightarrow> ('c, 'm) membership_state \<Rightarrow> bool \<Rightarrow>
   (('c log_id, 'n, 'e) change_membership_error + ('m \<times> bool)) option" where
  "next_membership M change_apply wrap s retain =
     (case ensure_committed s of
        Inl e \<Rightarrow> Some (Inl e)
      | Inr _ \<Rightarrow>
          (let effective = sm_membership (ms_effective s)
           in case change_apply effective retain of
                None \<Rightarrow> None
              | Some (Inl e) \<Rightarrow> Some (Inl (into_change_membership_error (map_user_defined wrap e)))
              | Some (Inr goal) \<Rightarrow>
                  (case ensure_membership_usable M goal of
                     Inl e \<Rightarrow> Some (Inl (into_change_membership_error e))
                   | Inr _ \<Rightarrow>
                       if allows_direct_transition_to M effective goal then Some (Inr (goal, False))
                       else (case joint_with M effective goal of
                               None \<Rightarrow> None
                             | Some joint \<Rightarrow> Some (Inr (joint, True))))))"

definition validate_append_membership ::
  "('n::linorder, 'nd, 'm, 'q) membership_ops \<Rightarrow> ('c, 'm) membership_state \<Rightarrow> 'm \<Rightarrow>
   ('c log_id, 'n, 'e) change_membership_error + unit" where
  "validate_append_membership M s proposed =
     (case ensure_committed s of
        Inl e \<Rightarrow> Inl e
      | Inr _ \<Rightarrow>
          (case ensure_membership_usable M proposed of
             Inl e \<Rightarrow> Inl (into_change_membership_error e)
           | Inr _ \<Rightarrow>
               (let effective = sm_membership (ms_effective s)
                in case ensure_node_metadata_unchanged M effective proposed of
                     Inl nid \<Rightarrow> Inl (CNodeMetadataChanged nid)
                   | Inr _ \<Rightarrow>
                       if \<not> allows_direct_transition_to M effective proposed
                       then Inl CUnsupportedMembershipTransition
                       else Inr ())))"

section \<open>Updates\<close>

definition ms_commit :: "('c::linorder, 'm) membership_state \<Rightarrow> 'c log_id option \<Rightarrow> ('c, 'm) membership_state" where
  "ms_commit s committed_log_id =
     (let current = sm_log_id (ms_committed s); lst = sm_log_id (ms_effective s)
      in if committed_log_id \<ge> lst \<and> current < lst then s\<lparr>ms_committed := ms_effective s\<rparr> else s)"

definition install_membership_snapshot ::
  "('c::linorder, 'm) membership_state \<Rightarrow> ('c, 'm) stored_membership \<Rightarrow> nat \<Rightarrow> ('c, 'm) membership_state" where
  "install_membership_snapshot s snap snapshot_last_log_index =
     (let effective_is_purged = (opt_index (sm_log_id (ms_effective s)) \<le> Some snapshot_last_log_index)
      in if effective_is_purged then \<lparr>ms_committed = snap, ms_effective = snap\<rparr>
         else
           (let s = (if opt_index (sm_log_id snap) \<ge> opt_index (sm_log_id (ms_effective s))
                     then s\<lparr>ms_effective := snap\<rparr> else s)
            in if sm_log_id snap > sm_log_id (ms_committed s) then s\<lparr>ms_committed := snap\<rparr> else s))"

definition ms_append :: "('c, 'm) membership_state \<Rightarrow> ('c, 'm) stored_membership \<Rightarrow> ('c, 'm) membership_state" where
  "ms_append s m = \<lparr>ms_committed = ms_effective s, ms_effective = m\<rparr>"

definition ms_truncate ::
  "('c, 'm) membership_state \<Rightarrow> nat \<Rightarrow> ('c, 'm) membership_state \<times> ('c, 'm) stored_membership option" where
  "ms_truncate s since =
     (if Some since \<le> opt_index (sm_log_id (ms_effective s))
      then (s\<lparr>ms_effective := ms_committed s\<rparr>, Some (ms_committed s))
      else (s, None))"

definition membership_state_validate :: "('c::linorder, 'm) membership_state \<Rightarrow> bool" where
  "membership_state_validate s \<longleftrightarrow>
     sm_log_id (ms_committed s) \<le> sm_log_id (ms_effective s) \<and>
     opt_index (sm_log_id (ms_committed s)) \<le> opt_index (sm_log_id (ms_effective s))"

section \<open>The order of the two memberships\<close>

lemma ms_commit_validate: "membership_state_validate s \<Longrightarrow> membership_state_validate (ms_commit s c)"
  by (simp add: membership_state_validate_def ms_commit_def Let_def)

lemma ms_commit_effective [simp]: "ms_effective (ms_commit s c) = ms_effective s"
  by (simp add: ms_commit_def Let_def)

lemma ms_commit_committed:
  assumes "membership_state_validate s"
  shows "sm_log_id (ms_committed (ms_commit s c)) =
    (if sm_log_id (ms_effective s) \<le> c then sm_log_id (ms_effective s) else sm_log_id (ms_committed s))"
  using assms by (auto simp: membership_state_validate_def ms_commit_def Let_def)

lemma ms_append_validate:
  "sm_log_id (ms_effective s) \<le> sm_log_id m \<Longrightarrow>
   opt_index (sm_log_id (ms_effective s)) \<le> opt_index (sm_log_id m) \<Longrightarrow>
   membership_state_validate (ms_append s m)"
  by (simp add: membership_state_validate_def ms_append_def)

lemma ms_truncate_validate: "membership_state_validate s \<Longrightarrow> membership_state_validate (fst (ms_truncate s since))"
  by (simp add: membership_state_validate_def ms_truncate_def)

text \<open>
  After a truncation no membership is above the log that is left, as long as the truncation
  spares the committed membership.
\<close>

lemma ms_truncate_below:
  assumes "opt_index (sm_log_id (ms_committed s)) < Some since"
  shows "opt_index (sm_log_id (ms_effective (fst (ms_truncate s since)))) < Some since"
    "ms_committed (fst (ms_truncate s since)) = ms_committed s"
    "snd (ms_truncate s since) \<noteq> None \<longleftrightarrow> ms_effective (fst (ms_truncate s since)) \<noteq> ms_effective s \<or>
       Some since \<le> opt_index (sm_log_id (ms_effective s))"
  using assms by (auto simp: ms_truncate_def)

text \<open>
  Installing a snapshot that covers its own membership log keeps the order when the ids are
  those of one log, where a greater id has a greater index.
\<close>

definition same_log :: "'c::linorder log_id option set \<Rightarrow> bool" where
  "same_log ids \<longleftrightarrow> (\<forall>a \<in> ids. \<forall>b \<in> ids. a \<le> b \<longleftrightarrow> opt_index a \<le> opt_index b)"

lemma install_membership_snapshot_validate:
  assumes "membership_state_validate s" "opt_index (sm_log_id snap) \<le> Some i"
    "same_log {sm_log_id snap, sm_log_id (ms_effective s)}"
  shows "membership_state_validate (install_membership_snapshot s snap i)"
proof (cases "opt_index (sm_log_id (ms_effective s)) \<le> Some i")
  case True
  then show ?thesis by (simp add: install_membership_snapshot_def membership_state_validate_def)
next
  case False
  then have above: "opt_index (sm_log_id snap) < opt_index (sm_log_id (ms_effective s))"
    using assms(2) by auto
  then have "sm_log_id snap \<le> sm_log_id (ms_effective s)" using assms(3) by (auto simp: same_log_def)
  then show ?thesis using False above assms(1)
    by (auto simp: install_membership_snapshot_def membership_state_validate_def Let_def)
qed

section \<open>Safety of membership changes\<close>

lemma ensure_committed_Inr: "ensure_committed s = Inr () \<longleftrightarrow> sm_log_id (ms_effective s) = sm_log_id (ms_committed s)"
  by (simp add: ensure_committed_def)

definition membership_usable :: "('n::linorder, 'nd, 'm, 'q) membership_ops \<Rightarrow> 'm \<Rightarrow> bool" where
  "membership_usable M m \<longleftrightarrow>
     usable_quorum_set M (read_quorum_set M m) \<and> usable_quorum_set M (write_quorum_set M m) \<and>
     (\<forall>nid \<in> set (mem_voter_ids M m). mem_contains M m nid) \<and>
     (\<forall>nid \<in> set (qs_ids M (write_quorum_set M m)). mem_receives_logs M m nid) \<and>
     read_write_quorums_intersect M m = Some True"

lemma find_none_ball: "find P xs = None \<longleftrightarrow> (\<forall>x \<in> set xs. \<not> P x)"
  by (auto simp: find_None_iff)

lemma find_error_Inr:
  "(case find P xs of None \<Rightarrow> Inr () | Some x \<Rightarrow> Inl (f x)) = Inr () \<longleftrightarrow> (\<forall>x \<in> set xs. \<not> P x)"
  unfolding find_none_ball[symmetric] by (simp split: option.split)

lemma ensure_Inr:
  "ensure_non_empty_config M m = Inr () \<longleftrightarrow>
     usable_quorum_set M (read_quorum_set M m) \<and> usable_quorum_set M (write_quorum_set M m)"
  "ensure_voters_have_nodes M m = Inr () \<longleftrightarrow> (\<forall>nid \<in> set (mem_voter_ids M m). mem_contains M m nid)"
  "ensure_write_voters_receive_logs M m = Inr () \<longleftrightarrow>
     (\<forall>nid \<in> set (qs_ids M (write_quorum_set M m)). mem_receives_logs M m nid)"
  "ensure_read_write_quorums_intersect M m = Inr () \<longleftrightarrow> read_write_quorums_intersect M m = Some True"
  by (simp_all add: ensure_non_empty_config_def ensure_voters_have_nodes_def ensure_write_voters_receive_logs_def
      ensure_read_write_quorums_intersect_def find_error_Inr)

lemma result_seq_Inr: "(case r of Inl e \<Rightarrow> Inl e | Inr _ \<Rightarrow> k) = Inr () \<longleftrightarrow> r = Inr () \<and> k = Inr ()"
  by (cases r) auto

lemma ensure_membership_usable_Inr: "ensure_membership_usable M m = Inr () \<longleftrightarrow> membership_usable M m"
  by (simp add: ensure_membership_usable_def membership_usable_def result_seq_Inr ensure_Inr)

context raft_membership
begin

text \<open>
  A change that is accepted yields the goal itself when the step to it is safe, else a joint
  from which the step to the goal is safe.  Either way the step that is proposed now is safe, and
  elections of the new membership see its own commits.
\<close>

lemma next_membership_safe:
  fixes s :: "('c, 'm) membership_state" and wrap :: "'f \<Rightarrow> 'e"
  assumes eff: "valid (sm_membership (ms_effective s))" "consistent M (sm_membership (ms_effective s))"
    and edit: "\<And>goal. change_apply (sm_membership (ms_effective s)) retain = Some (Inr goal) \<Longrightarrow> valid goal"
    and res: "next_membership M change_apply wrap s retain = Some (Inr (m', is_joint))"
  shows "valid m' \<and> consistent M m' \<and> safe_step M (sm_membership (ms_effective s)) m' \<and>
    sm_log_id (ms_effective s) = sm_log_id (ms_committed s) \<and>
    (\<exists>goal. change_apply (sm_membership (ms_effective s)) retain = Some (Inr goal) \<and>
       (if is_joint then safe_step M m' goal else m' = goal))"
proof -
  let ?eff = "sm_membership (ms_effective s)"
  have com: "sm_log_id (ms_effective s) = sm_log_id (ms_committed s)"
    using res by (auto simp: next_membership_def ensure_committed_def split: if_splits)
  then have ok: "ensure_committed s = (Inr () :: ('c log_id, 'n, 'e) change_membership_error + unit)"
    by (simp add: ensure_committed_def)
  obtain goal where goal: "change_apply ?eff retain = Some (Inr goal)"
    using res by (auto simp: next_membership_def ok Let_def split: option.splits sum.splits)
  have usable: "ensure_membership_usable M goal = (Inr () :: ('n, 'e) membership_error + unit)"
    using res by (auto simp: next_membership_def Let_def ok goal split: sum.splits)
  have v: "valid goal" using edit goal by blast
  have c: "consistent M goal"
    using usable intersect_sound[OF v] by (simp add: ensure_membership_usable_Inr membership_usable_def)
  show ?thesis
  proof (cases "allows_direct_transition_to M ?eff goal")
    case True
    then have "m' = goal" "\<not> is_joint"
      using res by (auto simp: next_membership_def Let_def ok goal usable split: option.splits)
    then show ?thesis using v c True goal com allows_direct_safe[OF eff(1) v] by auto
  next
    case False
    then obtain j where "joint_with M ?eff goal = Some j" "m' = j" "is_joint"
      using res by (auto simp: next_membership_def Let_def ok goal usable split: option.splits)
    then show ?thesis
      using v c goal com eff joint_safe_from[OF eff(1) v _ eff(2)] joint_safe_to[OF eff(1) v _ c]
        joint_total[OF eff(1) v] by auto
  qed
qed

lemma next_membership_total:
  assumes eff: "valid (sm_membership (ms_effective s))"
    and edit: "\<exists>r. change_apply (sm_membership (ms_effective s)) retain = Some r \<and> (\<forall>goal. r = Inr goal \<longrightarrow> valid goal)"
  shows "\<exists>r. next_membership M change_apply wrap s retain = Some r"
proof -
  obtain r where r: "change_apply (sm_membership (ms_effective s)) retain = Some r" "\<forall>goal. r = Inr goal \<longrightarrow> valid goal"
    using edit by blast
  show ?thesis
  proof (cases r)
    case (Inl e)
    then show ?thesis using r by (simp add: next_membership_def split: sum.split)
  next
    case (Inr goal)
    then obtain j where "joint_with M (sm_membership (ms_effective s)) goal = Some j"
      using joint_total[OF eff] r(2) by blast
    then show ?thesis using r Inr by (simp add: next_membership_def Let_def split: sum.split)
  qed
qed

lemma validate_append_membership_safe:
  assumes "valid (sm_membership (ms_effective s))" "valid proposed"
    and res: "validate_append_membership M s proposed = (Inr () :: ('c log_id, 'n, 'e) change_membership_error + unit)"
  shows "safe_step M (sm_membership (ms_effective s)) proposed \<and> consistent M proposed \<and>
    sm_log_id (ms_effective s) = sm_log_id (ms_committed s)"
proof -
  have "ensure_committed s = (Inr () :: ('c log_id, 'n, 'e) change_membership_error + unit)"
    using res by (auto simp: validate_append_membership_def split: sum.splits)
  moreover have "ensure_membership_usable M proposed = (Inr () :: ('n, 'e) membership_error + unit)"
    using res by (auto simp: validate_append_membership_def split: sum.splits)
  moreover have "allows_direct_transition_to M (sm_membership (ms_effective s)) proposed"
    using res by (auto simp: validate_append_membership_def Let_def split: sum.splits if_splits)
  ultimately show ?thesis
    using intersect_sound[OF assms(2)] allows_direct_safe[OF assms(1,2)]
    by (simp add: ensure_membership_usable_Inr ensure_committed_Inr membership_usable_def)
qed

end

end
