(* ===== verification/MembershipChanges.thy ===== *)
theory MembershipChanges
  imports Memberships ThresholdMembership MembershipState
begin

text \<open>
  A cluster's membership over a whole history: proposals that \<open>next_membership\<close> accepts, commits
  and truncations of the log, in any order.  The locale \<open>membership_editing\<close> is the contract between
  a membership type with its change operation (\<open>MembershipChange::apply\<close>) and the code that drives
  changes; each membership type of the repository satisfies it.
\<close>

section \<open>Histories\<close>

inductive membership_run ::
  "('n::linorder, 'nd, 'm, 'q) membership_ops \<Rightarrow> ('ch \<Rightarrow> 'm \<Rightarrow> bool \<Rightarrow> (('n, 'f) membership_error + 'm) option) \<Rightarrow>
   ('ch \<Rightarrow> bool) \<Rightarrow> ('c::linorder, 'm) membership_state \<Rightarrow> ('c, 'm) membership_state \<Rightarrow> bool"
  for M change_apply allowed s0 where
  start: "membership_run M change_apply allowed s0 s0"
| propose: "\<lbrakk>membership_run M change_apply allowed s0 s; allowed ch; sm_log_id (ms_effective s) < Some log_id;
    next_membership M (change_apply ch) (\<lambda>e. e) s retain = Some (Inr (m', is_joint))\<rbrakk> \<Longrightarrow>
    membership_run M change_apply allowed s0 (ms_append s \<lparr>sm_log_id = Some log_id, sm_membership = m'\<rparr>)"
| commit: "membership_run M change_apply allowed s0 s \<Longrightarrow>
    membership_run M change_apply allowed s0 (ms_commit s committed_log_id)"
| truncate: "membership_run M change_apply allowed s0 s \<Longrightarrow>
    membership_run M change_apply allowed s0 (fst (ms_truncate s since))"

text \<open>
  The invariant of a history: the memberships are sound, the log id tells them apart, and every
  election under one of them sees the commits under the other.
\<close>

definition run_inv ::
  "('n, 'nd, 'm, 'q) membership_ops \<Rightarrow> ('m \<Rightarrow> bool) \<Rightarrow> ('c, 'm) membership_state \<Rightarrow> bool" where
  "run_inv M sound s \<longleftrightarrow>
     sound (sm_membership (ms_committed s)) \<and> sound (sm_membership (ms_effective s)) \<and>
     (sm_log_id (ms_effective s) = sm_log_id (ms_committed s) \<longrightarrow> ms_effective s = ms_committed s) \<and>
     safe_step M (sm_membership (ms_committed s)) (sm_membership (ms_effective s))"

lemma safe_step_refl [simp]: "safe_step M m m \<longleftrightarrow> consistent M m"
  by (simp add: safe_step_def consistent_def)

section \<open>The contract of a change operation\<close>

locale membership_editing = raft_membership M valid
  for M :: "('n::linorder, 'nd, 'm, 'q) membership_ops" and valid :: "'m \<Rightarrow> bool" +
  fixes sound :: "'m \<Rightarrow> bool"
    and change_apply :: "'ch \<Rightarrow> 'm \<Rightarrow> bool \<Rightarrow> (('n, 'f) membership_error + 'm) option"
    and allowed :: "'ch \<Rightarrow> bool"
  assumes sound_valid: "sound m \<Longrightarrow> valid m"
    and sound_consistent: "sound m \<Longrightarrow> consistent M m"
    and edit_total: "sound m \<Longrightarrow> allowed ch \<Longrightarrow> \<exists>r. change_apply ch m retain = Some r"
    and edit_sound: "sound m \<Longrightarrow> allowed ch \<Longrightarrow> change_apply ch m retain = Some (Inr goal) \<Longrightarrow> sound goal"
    and joint_sound: "sound m \<Longrightarrow> sound goal \<Longrightarrow> joint_with M m goal = Some j \<Longrightarrow> sound j"
begin

lemma next_total:
  assumes "sound (sm_membership (ms_effective s))" "allowed ch"
  shows "\<exists>r. next_membership M (change_apply ch) wrap s retain = Some r"
proof (rule next_membership_total)
  show "valid (sm_membership (ms_effective s))" using assms sound_valid by blast
  obtain r where "change_apply ch (sm_membership (ms_effective s)) retain = Some r"
    using edit_total assms by blast
  then show "\<exists>r. change_apply ch (sm_membership (ms_effective s)) retain = Some r \<and> (\<forall>goal. r = Inr goal \<longrightarrow> valid goal)"
    using edit_sound assms sound_valid by blast
qed

lemma next_safe:
  assumes eff: "sound (sm_membership (ms_effective s))" and ch: "allowed ch"
    and res: "next_membership M (change_apply ch) wrap s retain = Some (Inr (m', is_joint))"
  shows "sound m' \<and> safe_step M (sm_membership (ms_effective s)) m' \<and>
    sm_log_id (ms_effective s) = sm_log_id (ms_committed s) \<and>
    (\<exists>goal. change_apply ch (sm_membership (ms_effective s)) retain = Some (Inr goal) \<and> sound goal \<and>
       (if is_joint then safe_step M m' goal else m' = goal))"
proof -
  let ?eff = "sm_membership (ms_effective s)"
  have *: "consistent M m' \<and> safe_step M ?eff m' \<and> sm_log_id (ms_effective s) = sm_log_id (ms_committed s)"
    and goal: "\<exists>goal. change_apply ch ?eff retain = Some (Inr goal) \<and> (if is_joint then safe_step M m' goal else m' = goal)"
    using next_membership_safe[OF sound_valid[OF eff] sound_consistent[OF eff] _ res]
      edit_sound[OF eff ch] sound_valid by blast+
  then obtain goal where g: "change_apply ch ?eff retain = Some (Inr goal)" "sound goal"
    "if is_joint then safe_step M m' goal else m' = goal"
    using edit_sound[OF eff ch] by blast
  have "sound m'"
    using res g(1,2) joint_sound[OF eff g(2)]
    by (auto simp: next_membership_def Let_def split: sum.splits if_splits option.splits)
  then show ?thesis using * g by blast
qed

lemma run_invariant:
  assumes "membership_run M change_apply allowed s0 s" "run_inv M sound s0"
  shows "run_inv M sound s"
  using assms
proof (induction rule: membership_run.induct)
  case (propose s ch log_id retain m' is_joint)
  then show ?case using next_safe[OF _ propose.hyps(2,4)] by (auto simp: run_inv_def ms_append_def)
next
  case (commit s committed_log_id)
  then show ?case by (auto simp: run_inv_def ms_commit_def Let_def sound_consistent)
next
  case (truncate s since)
  then show ?case by (auto simp: run_inv_def ms_truncate_def sound_consistent)
qed simp

end

section \<open>The membership types\<close>

lemma config_editing:
  fixes is_q :: "'q \<Rightarrow> 'n::linorder list \<Rightarrow> bool" and rids :: "'q \<Rightarrow> 'n list" and isect :: "'q \<Rightarrow> 'q \<Rightarrow> bool option"
    and change_apply :: "'ch \<Rightarrow> ('n, 'nd, 'q) joint_config \<Rightarrow> bool \<Rightarrow>
      (('n, 'f) membership_error + ('n, 'nd, 'q) joint_config) option"
  defines "M \<equiv> joint_config_ops is_q rids isect :: ('n, 'nd, ('n, 'nd, 'q) joint_config, 'q joint) membership_ops"
  assumes mem: "raft_membership M (config_valid rule_wf)"
    and tot: "\<And>ch m retain. \<exists>r. change_apply ch m retain = Some r"
    and edit: "\<And>ch m retain goal. sound_membership rule_wf isect m \<Longrightarrow> allowed ch \<Longrightarrow>
      change_apply ch m retain = Some (Inr goal) \<Longrightarrow> sound_membership rule_wf isect goal"
  shows "membership_editing M (config_valid rule_wf) (sound_membership rule_wf isect) change_apply allowed"
proof (intro membership_editing.intro mem membership_editing_axioms.intro)
  fix m goal j :: "('n, 'nd, 'q) joint_config"
  assume m: "sound_membership rule_wf isect m"
  show "consistent M m"
    using raft_membership.intersect_sound[OF mem sound_membership_valid[OF m]]
      sound_membership_intersects[OF m] unfolding M_def by blast
  assume "sound_membership rule_wf isect goal" "joint_with M m goal = Some j"
  then show "sound_membership rule_wf isect j"
    using sound_membership_joint[OF m, of goal rids j] by (simp add: M_def joint_config_ops_def)
qed (use tot edit sound_membership_valid in blast)+

definition weighted_typed :: "('n::linorder, 'nd) weighted_change \<Rightarrow> bool" where
  "weighted_typed ch \<longleftrightarrow> (case wc_weights ch of None \<Rightarrow> True | Some weights \<Rightarrow> bm_wf weights)"

definition explicit_typed :: "('n::linorder, 'nd) explicit_change \<Rightarrow> bool" where
  "explicit_typed ch \<longleftrightarrow>
     (\<forall>l \<in> set_option (ec_read ch) \<union> set_option (ec_write ch). \<forall>q \<in> set l. btree_set_wf q)"

definition hierarchical_typed :: "('n::linorder, 'nd) hierarchical_change \<Rightarrow> bool" where
  "hierarchical_typed ch \<longleftrightarrow> (\<forall>g \<in> set_option (hc_groups ch). group_typed g)"

definition threshold_typed :: "('n::linorder, 'nd) threshold_change \<Rightarrow> bool" where
  "threshold_typed ch \<longleftrightarrow>
     (case tc_voters ch of None \<Rightarrow> True | Some vs \<Rightarrow> btree_set_wf vs \<and> length vs < u64_max)"

interpretation weighted_edit:
  membership_editing weighted_ops "config_valid weighted_wf" "sound_membership weighted_wf weighted_intersects_with"
    weighted_change_apply weighted_typed
  by (rule config_editing[OF weighted_mem.raft_membership_axioms weighted_change_total])
    (auto simp: weighted_typed_def intro: weighted_change_sound)

interpretation grid_edit:
  membership_editing grid_ops "config_valid grid_wf" "sound_membership grid_wf grid_intersects_with"
    grid_change_apply "\<lambda>_. True"
  by (rule config_editing[OF grid_mem.raft_membership_axioms grid_change_total]) (rule grid_change_sound)

interpretation explicit_edit:
  membership_editing explicit_ops "config_valid explicit_wf" "sound_membership explicit_wf explicit_intersects_with"
    explicit_change_apply explicit_typed
  by (rule config_editing[OF explicit_mem.raft_membership_axioms explicit_change_total])
    (auto simp: explicit_typed_def intro: explicit_change_sound)

interpretation hierarchical_edit:
  membership_editing hierarchical_ops "config_valid hierarchical_wf"
    "sound_membership hierarchical_wf hierarchical_intersects_with" hierarchical_change_apply hierarchical_typed
  by (rule config_editing[OF hierarchical_mem.raft_membership_axioms hierarchical_change_total])
    (auto simp: hierarchical_typed_def intro: hierarchical_change_sound)

interpretation threshold_edit:
  membership_editing threshold_ops threshold_valid threshold_sound threshold_change_apply threshold_typed
proof (rule membership_editing.intro[OF threshold_mem.raft_membership_axioms], unfold_locales)
  fix m goal j :: "('a, 'b) threshold_membership" and ch :: "('a, 'b) threshold_change" and retain
  assume m: "threshold_sound m"
  then show "threshold_valid m" by (rule threshold_sound_valid)
  show "consistent threshold_ops m"
    by (rule threshold_mem.intersect_sound[OF threshold_sound_valid[OF m] threshold_sound_intersects[OF m]])
  show "threshold_sound j" if "threshold_sound goal" "joint_with threshold_ops m goal = Some j"
    using threshold_sound_joint[OF m] that by (simp add: threshold_ops_def)
  assume "threshold_typed ch"
  then have typed: "\<forall>vs. tc_voters ch = Some vs \<longrightarrow> btree_set_wf vs \<and> length vs < u64_max"
    by (auto simp: threshold_typed_def)
  show "\<exists>r. threshold_change_apply ch m retain = Some r" using threshold_change_ok[OF m typed] by blast
  show "threshold_sound goal" if "threshold_change_apply ch m retain = Some (Inr goal)"
    using threshold_change_ok[OF m typed, of retain] that by auto
qed

end
