(* ===== verification/RaftState.thy ===== *)
theory RaftState
  imports LogIdList IOState Timing MembershipState
begin

text \<open>
  The state of a node, \<open>RaftState\<close> (\<open>raft_state/mod.rs\<close>), with the log state reader
  (\<open>raft_state/log_state_reader.rs\<close>).  \<open>L\<close> are the leader id operations and \<open>M\<close> the
  membership operations of the type config.  The shared id generator
  (\<open>base/shared_id_generator.rs\<close>) is the counter \<open>progress_id_gen\<close>: all clones of the
  generator read this one counter.
\<close>

section \<open>State\<close>

datatype server_state = Learner | Follower | Candidate | Leader | Shutdown

record ('c, 'm) snapshot_meta =
  snap_last_log_id :: "'c log_id option"
  snap_last_membership :: "('c, 'm) stored_membership"

record ('l, 'c, 'm) raft_state =
  st_vote :: "'l vote leased"
  st_log_ids :: "'c log_id_list"
  st_membership_state :: "('c, 'm) membership_state"
  st_snapshot_meta :: "('c, 'm) snapshot_meta"
  last_inflight_id :: nat
  st_server_state :: server_state
  st_io_state :: "('l, 'c) io_state"
  st_purge_upto :: "'c log_id option"
  progress_id_gen :: nat

definition raft_state_new ::
  "(nat, 'n, 'l, 'c) leader_id_ops \<Rightarrow> ('n, 'nd, 'm, 'q) membership_ops \<Rightarrow> 'n \<Rightarrow> ('l, 'c, 'm) raft_state" where
  "raft_state_new L M node_id =
     \<lparr>st_vote = leased_without_last_update (vote_new_with_default_term L node_id),
      st_log_ids = log_id_list_default,
      st_membership_state = membership_state_default M,
      st_snapshot_meta = \<lparr>snap_last_log_id = None, snap_last_membership = stored_membership_default M\<rparr>,
      last_inflight_id = 0,
      st_server_state = Learner,
      st_io_state = io_state_default,
      st_purge_upto = None,
      progress_id_gen = 1\<rparr>"

definition vote_ref :: "('l, 'c, 'm) raft_state \<Rightarrow> 'l vote" where
  "vote_ref s = leased_data (st_vote s)"

section \<open>Reading the log state\<close>

definition last_log_id :: "('l, 'c, 'm) raft_state \<Rightarrow> 'c log_id option" where
  "last_log_id s = log_last (st_log_ids s)"

definition ref_log_id :: "('l, 'c, 'm) raft_state \<Rightarrow> nat \<Rightarrow> 'c log_id option" where
  "ref_log_id s index = ref_at (st_log_ids s) index"

definition get_log_id :: "('l, 'c, 'm) raft_state \<Rightarrow> nat \<Rightarrow> 'c log_id option" where
  "get_log_id s index = ref_log_id s index"

definition prev_log_id :: "('l, 'c, 'm) raft_state \<Rightarrow> nat \<Rightarrow> 'c log_id option" where
  "prev_log_id s index = (if index = 0 then None else get_log_id s (index - 1))"

definition local_committed :: "('l, 'c, 'm) raft_state \<Rightarrow> 'c log_id option" where
  "local_committed s = accepted (apply_progress (st_io_state s))"

definition cluster_committed :: "('l, 'c, 'm) raft_state \<Rightarrow> 'c log_id option" where
  "cluster_committed s = Option.bind (mono_value (io_cluster_committed (st_io_state s))) lio_log_id"

definition snapshot_last_log_id :: "('l, 'c, 'm) raft_state \<Rightarrow> 'c log_id option" where
  "snapshot_last_log_id s = snap_last_log_id (st_snapshot_meta s)"

definition last_purged_log_id :: "('l, 'c, 'm) raft_state \<Rightarrow> 'c log_id option" where
  "last_purged_log_id s = purged (st_log_ids s)"

definition accepted_log_io :: "('l, 'c, 'm) raft_state \<Rightarrow> ('l, 'c) io_id option" where
  "accepted_log_io s = accepted (log_progress (st_io_state s))"

definition has_log_id :: "('l, 'c, 'm) raft_state \<Rightarrow> 'c log_id \<Rightarrow> bool" where
  "has_log_id s log_id =
     (if idx log_id < next_index (local_committed s) then True
      else (case ref_log_id s (idx log_id) of
              Some loc \<Rightarrow> log_id = loc
            | None \<Rightarrow> False))"

definition raft_state_validate :: "(nat, 'n, 'l, 'c::linorder) leader_id_ops \<Rightarrow> ('l, 'c, 'm) raft_state \<Rightarrow> bool" where
  "raft_state_validate L s \<longleftrightarrow>
     (last_purged_log_id s = None \<longrightarrow> map_option idx (log_first (st_log_ids s)) \<le> Some 0) \<and>
     last_purged_log_id s \<le> st_purge_upto s \<and>
     (if snapshot_last_log_id s = None then st_purge_upto s \<le> local_committed s
      else st_purge_upto s \<le> snapshot_last_log_id s) \<and>
     snapshot_last_log_id s \<le> local_committed s \<and>
     local_committed s \<le> last_log_id s \<and>
     membership_state_validate (st_membership_state s) \<and>
     io_state_validate L (st_io_state s)"

definition is_initialized :: "(nat, 'n, 'l, 'c) leader_id_ops \<Rightarrow> ('l, 'c, 'm) raft_state \<Rightarrow> bool" where
  "is_initialized L s =
     (if last_log_id s \<noteq> None then True
      else if vote_term L (vote_ref s) \<noteq> 0 then True
      else False)"

section \<open>Updating the state\<close>

definition accept_log_io ::
  "(nat, 'n, 'l, 'c::linorder) leader_id_ops \<Rightarrow> ('l, 'c, 'm) raft_state \<Rightarrow> ('l, 'c) io_id \<Rightarrow>
   ('l, 'c) io_id option \<times> ('l, 'c, 'm) raft_state" where
  "accept_log_io L s acc =
     (let curr_accepted = accepted_log_io s
      in (curr_accepted,
          if opt_lt (io_lt L) curr_accepted (Some acc)
          then s\<lparr>st_io_state := (st_io_state s)\<lparr>log_progress := io_accept (log_progress (st_io_state s)) acc\<rparr>\<rparr>
          else s))"

definition extend_log_ids_from_same_leader :: "('l, 'c, 'm) raft_state \<Rightarrow> 'c log_id list \<Rightarrow> ('l, 'c, 'm) raft_state" where
  "extend_log_ids_from_same_leader s ids = s\<lparr>st_log_ids := extend_from_same_leader (st_log_ids s) ids\<rparr>"

definition extend_log_ids :: "('l, 'c, 'm) raft_state \<Rightarrow> 'c log_id list \<Rightarrow> ('l, 'c, 'm) raft_state" where
  "extend_log_ids s ids = s\<lparr>st_log_ids := log_extend (st_log_ids s) ids\<rparr>"

definition update_local_committed ::
  "('l, 'c::linorder, 'm) raft_state \<Rightarrow> 'c log_id option \<Rightarrow> ('l, 'c, 'm) raft_state" where
  "update_local_committed s c =
     (case c of
        Some x \<Rightarrow>
          if c > local_committed s then
            s\<lparr>st_io_state := (st_io_state s)\<lparr>apply_progress := io_accept (apply_progress (st_io_state s)) x\<rparr>,
              st_membership_state := ms_commit (st_membership_state s) c\<rparr>
          else s
      | None \<Rightarrow> s)"

definition update_committed ::
  "(nat, 'n, 'l, 'c::linorder) leader_id_ops \<Rightarrow> ('l, 'c, 'm) raft_state \<Rightarrow> ('l, 'c) log_io_id \<Rightarrow>
   ('l, 'c, 'm) raft_state" where
  "update_committed L s cc =
     (let s = s\<lparr>st_io_state := (st_io_state s)\<lparr>io_cluster_committed :=
                snd (try_update (log_io_lt L) (io_cluster_committed (st_io_state s)) cc)\<rparr>\<rparr>
      in update_local_committed s (calculate_local_committed L (st_io_state s)))"

fun first_conflict :: "('l, 'c, 'm) raft_state \<Rightarrow> nat \<Rightarrow> 'c log_id list \<Rightarrow> nat option" where
  "first_conflict s i [] = None"
| "first_conflict s i (log_id # rest) =
     (if \<not> has_log_id s log_id then Some i else first_conflict s (i + 1) rest)"

definition first_conflicting_index :: "('l, 'c, 'm) raft_state \<Rightarrow> 'c log_id list \<Rightarrow> nat" where
  "first_conflicting_index s ids =
     (let l = length ids in case first_conflict s 0 ids of Some i \<Rightarrow> i | None \<Rightarrow> l)"

definition accept_purge :: "('l, 'c, 'm) raft_state \<Rightarrow> 'c log_id \<Rightarrow> ('l, 'c, 'm) raft_state" where
  "accept_purge s up_to =
     s\<lparr>st_log_ids := log_purge (st_log_ids s) up_to,
       st_io_state := (st_io_state s)\<lparr>purged_progress := io_accept (purged_progress (st_io_state s)) up_to\<rparr>\<rparr>"

definition new_inflight_id :: "('l, 'c, 'm) raft_state \<Rightarrow> nat \<times> ('l, 'c, 'm) raft_state" where
  "new_inflight_id s =
     (let i = wrapping_add (last_inflight_id s) 1 in (i, s\<lparr>last_inflight_id := i\<rparr>))"

definition next_id :: "('l, 'c, 'm) raft_state \<Rightarrow> nat \<times> ('l, 'c, 'm) raft_state" where
  "next_id s = (progress_id_gen s, s\<lparr>progress_id_gen := wrapping_add (progress_id_gen s) 1\<rparr>)"

section \<open>The server state\<close>

definition is_leading ::
  "(nat, 'n, 'l, 'c) leader_id_ops \<Rightarrow> ('n, 'nd, 'm, 'q) membership_ops \<Rightarrow> ('l, 'c, 'm) raft_state \<Rightarrow> 'n \<Rightarrow> bool" where
  "is_leading L M s nid =
     (let is_member = ms_contains M (st_membership_state s) nid;
          is_committed_campaigner = stored_is_campaigner M (ms_committed (st_membership_state s)) nid;
          owns_vote = (leader_node_id L (vote_ref s) = nid)
      in (is_member \<or> is_committed_campaigner) \<and> owns_vote)"

definition is_leader ::
  "(nat, 'n, 'l, 'c) leader_id_ops \<Rightarrow> ('n, 'nd, 'm, 'q) membership_ops \<Rightarrow> ('l, 'c, 'm) raft_state \<Rightarrow> 'n \<Rightarrow> bool" where
  "is_leader L M s nid \<longleftrightarrow> is_leading L M s nid \<and> v_committed (vote_ref s)"

definition calc_following_state ::
  "('n, 'nd, 'm, 'q) membership_ops \<Rightarrow> ('l, 'c, 'm) raft_state \<Rightarrow> 'n \<Rightarrow> server_state" where
  "calc_following_state M s nid =
     (let membership = sm_membership (ms_effective (st_membership_state s));
          is_member = mem_contains M membership nid;
          is_learner = mem_is_learner M membership nid
      in if \<not> is_member \<or> is_learner then Learner else Follower)"

definition calc_server_state ::
  "(nat, 'n, 'l, 'c) leader_id_ops \<Rightarrow> ('n, 'nd, 'm, 'q) membership_ops \<Rightarrow> ('l, 'c, 'm) raft_state \<Rightarrow> 'n \<Rightarrow>
   server_state" where
  "calc_server_state L M s nid =
     (if is_leader L M s nid then Leader
      else if is_leading L M s nid then Candidate
      else calc_following_state M s nid)"

definition is_campaigner ::
  "('n, 'nd, 'm, 'q) membership_ops \<Rightarrow> ('l, 'c, 'm) raft_state \<Rightarrow> 'n \<Rightarrow> bool" where
  "is_campaigner M s nid = ms_is_campaigner M (st_membership_state s) nid"

text \<open>The leader id and node that \<open>ForwardToLeader\<close> carries, when they are known.\<close>

definition new_forward_to_leader ::
  "('n, 'nd, 'm, 'q) membership_ops \<Rightarrow> ('l, 'c, 'm) raft_state \<Rightarrow> 'n \<Rightarrow> ('n \<times> 'nd) option" where
  "new_forward_to_leader M s to =
     (case stored_get_node M (ms_effective (st_membership_state s)) to of
        Some n \<Rightarrow> Some (to, n)
      | None \<Rightarrow> None)"

definition forward_to_leader ::
  "(nat, 'n, 'l, 'c) leader_id_ops \<Rightarrow> ('n, 'nd, 'm, 'q) membership_ops \<Rightarrow> ('l, 'c, 'm) raft_state \<Rightarrow>
   ('n \<times> 'nd) option" where
  "forward_to_leader L M s =
     (if v_committed (vote_ref s) then new_forward_to_leader M s (leader_node_id L (vote_ref s)) else None)"

section \<open>Lemmas\<close>

lemma update_local_committed_frame [state_simps]:
  "st_log_ids (update_local_committed s c) = st_log_ids s"
  "st_vote (update_local_committed s c) = st_vote s"
  "ms_effective (st_membership_state (update_local_committed s c)) = ms_effective (st_membership_state s)"
  "st_purge_upto (update_local_committed s c) = st_purge_upto s"
  "st_snapshot_meta (update_local_committed s c) = st_snapshot_meta s"
  "log_progress (st_io_state (update_local_committed s c)) = log_progress (st_io_state s)"
  "purged_progress (st_io_state (update_local_committed s c)) = purged_progress (st_io_state s)"
  "snapshot_progress (st_io_state (update_local_committed s c)) = snapshot_progress (st_io_state s)"
  "last_inflight_id (update_local_committed s c) = last_inflight_id s"
  "progress_id_gen (update_local_committed s c) = progress_id_gen s"
  "st_server_state (update_local_committed s c) = st_server_state s"
  by (simp_all add: update_local_committed_def split: option.split)

lemma update_local_committed_value [simp]:
  "local_committed (update_local_committed s c) = max (local_committed s) c"
  by (cases c; cases "local_committed s") (auto simp: update_local_committed_def local_committed_def io_accept_def max_def)

definition with_cluster_committed ::
  "(nat, 'n, 'l, 'c::linorder) leader_id_ops \<Rightarrow> ('l, 'c, 'm) raft_state \<Rightarrow> ('l, 'c) log_io_id \<Rightarrow>
   ('l, 'c, 'm) raft_state" where
  "with_cluster_committed L s cc =
     s\<lparr>st_io_state := (st_io_state s)\<lparr>io_cluster_committed :=
         snd (try_update (log_io_lt L) (io_cluster_committed (st_io_state s)) cc)\<rparr>\<rparr>"

lemma update_committed_eq:
  "update_committed L s cc =
   update_local_committed (with_cluster_committed L s cc)
     (calculate_local_committed L (st_io_state (with_cluster_committed L s cc)))"
  by (simp add: update_committed_def with_cluster_committed_def Let_def)

lemma with_cluster_committed_frame [state_simps]:
  "st_log_ids (with_cluster_committed L s cc) = st_log_ids s"
  "st_vote (with_cluster_committed L s cc) = st_vote s"
  "st_membership_state (with_cluster_committed L s cc) = st_membership_state s"
  "st_purge_upto (with_cluster_committed L s cc) = st_purge_upto s"
  "st_snapshot_meta (with_cluster_committed L s cc) = st_snapshot_meta s"
  "log_progress (st_io_state (with_cluster_committed L s cc)) = log_progress (st_io_state s)"
  "apply_progress (st_io_state (with_cluster_committed L s cc)) = apply_progress (st_io_state s)"
  "snapshot_progress (st_io_state (with_cluster_committed L s cc)) = snapshot_progress (st_io_state s)"
  "purged_progress (st_io_state (with_cluster_committed L s cc)) = purged_progress (st_io_state s)"
  "local_committed (with_cluster_committed L s cc) = local_committed s"
  "last_inflight_id (with_cluster_committed L s cc) = last_inflight_id s"
  "progress_id_gen (with_cluster_committed L s cc) = progress_id_gen s"
  "st_server_state (with_cluster_committed L s cc) = st_server_state s"
  by (simp_all add: with_cluster_committed_def local_committed_def)

lemma update_committed_frame [state_simps]:
  "st_log_ids (update_committed L s cc) = st_log_ids s"
  "st_vote (update_committed L s cc) = st_vote s"
  "ms_effective (st_membership_state (update_committed L s cc)) = ms_effective (st_membership_state s)"
  "st_purge_upto (update_committed L s cc) = st_purge_upto s"
  "st_snapshot_meta (update_committed L s cc) = st_snapshot_meta s"
  "log_progress (st_io_state (update_committed L s cc)) = log_progress (st_io_state s)"
  "last_inflight_id (update_committed L s cc) = last_inflight_id s"
  "progress_id_gen (update_committed L s cc) = progress_id_gen s"
  "st_server_state (update_committed L s cc) = st_server_state s"
  by (simp_all add: update_committed_eq state_simps)

lemma update_committed_value:
  "local_committed (update_committed L s cc) =
   max (local_committed s) (calculate_local_committed L (st_io_state (with_cluster_committed L s cc)))"
  by (simp add: update_committed_eq state_simps)

lemma update_committed_mono: "local_committed s \<le> local_committed (update_committed L s cc)"
  by (simp add: update_committed_value)

text \<open>The node never commits a log id past the log that it accepted from the current leader.\<close>

lemma calculate_bound:
  assumes "calculate_local_committed L io = Some x"
  shows "\<exists>acc cv. accepted (log_progress io) = Some acc \<and> io_to_committed_vote acc = Some cv \<and>
    Some x \<le> io_last_log_id acc \<and> clid x \<le> cv_committed_leader_id L cv"
proof -
  obtain acc y cv where acc: "accepted (log_progress io) = Some acc" "io_to_committed_vote acc = Some cv"
    and x: "Some x = min (io_last_log_id acc) (Some y)" and y: "clid y \<le> cv_committed_leader_id L cv"
    using calculate_local_committed_Some[OF assms] by blast
  have "Some x \<le> io_last_log_id acc" "Some x \<le> Some y" by (simp_all only: x min.cobounded1 min.cobounded2)
  moreover from this have "clid x \<le> clid y" by (auto simp: less_eq_log_id_def)
  ultimately show ?thesis using acc y by auto
qed

lemma update_committed_accepted:
  assumes "local_committed (update_committed L s cc) \<noteq> local_committed s"
  shows "\<exists>acc cv x. accepted_log_io s = Some acc \<and> io_to_committed_vote acc = Some cv \<and>
    local_committed (update_committed L s cc) = Some x \<and> Some x \<le> io_last_log_id acc \<and>
    clid x \<le> cv_committed_leader_id L cv"
proof -
  let ?c = "calculate_local_committed L (st_io_state (with_cluster_committed L s cc))"
  have gt: "local_committed s < ?c" using assms by (auto simp: update_committed_value max_def split: if_splits)
  then obtain x where x: "?c = Some x" by (cases ?c) auto
  show ?thesis using calculate_bound[OF x] gt
    by (auto simp: update_committed_value accepted_log_io_def state_simps x max_def)
qed

lemma first_conflict_spec:
  "case first_conflict s k ids of
     None \<Rightarrow> \<forall>x \<in> set ids. has_log_id s x
   | Some i \<Rightarrow> k \<le> i \<and> i < k + length ids \<and> (\<forall>x \<in> set (take (i - k) ids). has_log_id s x) \<and>
       \<not> has_log_id s (ids ! (i - k))"
proof (induction ids arbitrary: k)
  case (Cons x ids)
  show ?case
  proof (cases "has_log_id s x")
    case True
    then show ?thesis using Cons.IH[of "Suc k"]
      by (auto split: option.splits simp: Suc_le_eq take_Cons' nth_Cons')
  qed simp
qed simp

lemma first_conflicting_index_spec:
  "first_conflicting_index s ids \<le> length ids"
  "\<forall>x \<in> set (take (first_conflicting_index s ids) ids). has_log_id s x"
  "first_conflicting_index s ids < length ids \<Longrightarrow> \<not> has_log_id s (ids ! first_conflicting_index s ids)"
  using first_conflict_spec[where s = s and k = 0 and ids = ids]
  by (auto simp: first_conflicting_index_def Let_def split: option.splits)

lemma new_inflight_id_fresh:
  "last_inflight_id s < u64_max \<Longrightarrow> fst (new_inflight_id s) = last_inflight_id s + 1"
  by (simp add: new_inflight_id_def Let_def wrapping_add_small u64_max_def)

lemma calc_server_state_cases:
  "calc_server_state L M s nid = Leader \<longleftrightarrow> is_leader L M s nid"
  "calc_server_state L M s nid = Candidate \<longleftrightarrow> is_leading L M s nid \<and> \<not> v_committed (vote_ref s)"
  by (auto simp: calc_server_state_def is_leader_def calc_following_state_def Let_def)

end
