(* ===== verification/Progress.thy ===== *)
theory Progress
  imports RaftState
begin

text \<open>
  The leader's view of one follower (\<open>progress/inflight/mod.rs\<close>, \<open>progress/entry/mod.rs\<close>,
  \<open>progress/entry/update.rs\<close>) and the engine's configuration (\<open>engine/engine_config.rs\<close>).
  A progress entry knows the last matching log id and an upper bound of where the two logs may still
  match; \<open>next_send\<close> picks the next request, and the updater applies responses, which carry the id
  of the request they answer.
\<close>

section \<open>The configuration of the engine\<close>

record 'n engine_config =
  ec_id :: 'n
  max_in_snapshot_log_to_keep :: nat
  purge_batch_size :: nat
  max_payload_entries :: nat
  ec_allow_log_reversion :: bool
  election_timeout_min :: nat
  election_timeout_max :: nat
  timer_config :: time_config
  enable_leader_restore :: bool
  quorum_loss_probe_interval :: "nat option"

text \<open>
  The random number generator is an argument: the value it draws from the half-open range.  It is a
  number of milliseconds; durations count nanoseconds.
\<close>

definition from_millis :: "nat \<Rightarrow> nat" where
  "from_millis ms = ms * 1000000"

definition resample_election_timeout :: "(nat \<Rightarrow> nat \<Rightarrow> nat) \<Rightarrow> 'n engine_config \<Rightarrow> 'n engine_config" where
  "resample_election_timeout random_range c =
     (let timeout = random_range (election_timeout_min c) (election_timeout_max c)
      in c\<lparr>timer_config := (timer_config c)\<lparr>election_timeout := from_millis timeout\<rparr>\<rparr>)"

section \<open>Requests in flight\<close>

datatype 'c inflight =
    InflightNone
  | Probe (log_id_range: "'c log_id_range") (inflight_id: nat)
  | LogsSince (since_prev: "'c log_id option") (inflight_id: nat)
  | SendSnapshot (inflight_id: nat)

definition inflight_validate :: "'c::linorder inflight \<Rightarrow> bool" where
  "inflight_validate i =
     (case i of
        InflightNone \<Rightarrow> True
      | Probe r _ \<Rightarrow> log_id_range_validate r
      | LogsSince _ _ \<Rightarrow> True
      | SendSnapshot _ \<Rightarrow> True)"

definition inflight_probe :: "'c::linorder log_id option \<Rightarrow> 'c log_id option \<Rightarrow> nat \<Rightarrow> 'c inflight" where
  "inflight_probe prev lst i = (if \<not> prev < lst then InflightNone else Probe (log_id_range_new prev lst) i)"

definition inflight_snapshot :: "nat \<Rightarrow> 'c inflight" where
  "inflight_snapshot i = SendSnapshot i"

definition inflight_is_none :: "'c inflight \<Rightarrow> bool" where
  "inflight_is_none i \<longleftrightarrow> InflightNone = i"

definition is_logs_since :: "'c inflight \<Rightarrow> bool" where
  "is_logs_since i = (case i of LogsSince _ _ \<Rightarrow> True | _ \<Rightarrow> False)"

text \<open>The result of \<open>ack\<close> and \<open>conflict\<close>: whether the response was applied, and the new state.\<close>

definition inflight_ack :: "'c::linorder inflight \<Rightarrow> 'c log_id option \<Rightarrow> nat \<Rightarrow> bool \<times> 'c inflight" where
  "inflight_ack i up_to from_inflight_id =
     (case i of
        InflightNone \<Rightarrow> (False, i)
      | Probe r iid \<Rightarrow>
          if iid \<noteq> from_inflight_id then (False, i)
          else if up_to \<ge> r_prev r then (True, InflightNone)
          else (True, i)
      | SendSnapshot iid \<Rightarrow>
          if iid \<noteq> from_inflight_id then (False, i) else (True, InflightNone)
      | LogsSince prev iid \<Rightarrow>
          if iid \<noteq> from_inflight_id then (False, i) else (True, LogsSince up_to iid))"

text \<open>\<^const>\<open>None\<close> is the panic of a conflict that answers a snapshot.\<close>

definition inflight_conflict :: "'c inflight \<Rightarrow> nat \<Rightarrow> (bool \<times> 'c inflight) option" where
  "inflight_conflict i from_inflight_id =
     (case i of
        InflightNone \<Rightarrow> Some (False, i)
      | Probe _ iid \<Rightarrow>
          if iid \<noteq> from_inflight_id then Some (False, i) else Some (True, InflightNone)
      | SendSnapshot iid \<Rightarrow>
          if iid \<noteq> from_inflight_id then Some (False, i) else None
      | LogsSince _ iid \<Rightarrow>
          if iid \<noteq> from_inflight_id then Some (False, i) else Some (True, InflightNone))"

section \<open>Progress entries\<close>

record 'c progress_data =
  stream_id :: nat
  pd_inflight :: "'c inflight"
  searching_end :: nat
  probe_start :: "nat option"
  allow_log_reversion :: bool

record ('n, 'c) progress_entry =
  pe_id :: 'n
  matching :: "'c log_id option"
  pe_data :: "'c progress_data"

definition progress_data_new :: "nat \<Rightarrow> nat \<Rightarrow> 'c progress_data" where
  "progress_data_new sid end_index =
     \<lparr>stream_id = sid, pd_inflight = InflightNone, searching_end = end_index, probe_start = None,
      allow_log_reversion = False\<rparr>"

definition progress_entry_empty :: "'n \<Rightarrow> nat \<Rightarrow> nat \<Rightarrow> ('n, 'c) progress_entry" where
  "progress_entry_empty nid sid end_index =
     \<lparr>pe_id = nid, matching = None, pe_data = progress_data_new sid end_index\<rparr>"

definition with_probe_start :: "('n, 'c) progress_entry \<Rightarrow> nat \<Rightarrow> ('n, 'c) progress_entry" where
  "with_probe_start e start = e\<lparr>pe_data := (pe_data e)\<lparr>probe_start := Some start\<rparr>\<rparr>"

definition set_inflight :: "'c inflight \<Rightarrow> ('n, 'c) progress_entry \<Rightarrow> ('n, 'c) progress_entry" where
  "set_inflight i e = e\<lparr>pe_data := (pe_data e)\<lparr>pd_inflight := i\<rparr>\<rparr>"

abbreviation inflight_of :: "('n, 'c) progress_entry \<Rightarrow> 'c inflight" where
  "inflight_of e \<equiv> pd_inflight (pe_data e)"

abbreviation search_end :: "('n, 'c) progress_entry \<Rightarrow> nat" where
  "search_end e \<equiv> searching_end (pe_data e)"

abbreviation matching_next :: "('n, 'c) progress_entry \<Rightarrow> nat" where
  "matching_next e \<equiv> next_index (matching e)"

definition is_log_range_inflight :: "('n, 'c::linorder) progress_entry \<Rightarrow> 'c log_id \<Rightarrow> bool" where
  "is_log_range_inflight e up_to =
     (case inflight_of e of
        InflightNone \<Rightarrow> False
      | Probe r _ \<Rightarrow> Some up_to > r_prev r
      | SendSnapshot _ \<Rightarrow> False
      | LogsSince prev _ \<Rightarrow> Some up_to > prev)"

definition calc_mid :: "nat \<Rightarrow> nat \<Rightarrow> nat" where
  "calc_mid m_next end_index =
     (let d = end_index - m_next;
          offset = d div 16 * 8
      in m_next + offset)"

definition next_send ::
  "('n, 'c::linorder) progress_entry \<Rightarrow> ('l, 'c, 'm) raft_state \<Rightarrow> nat \<Rightarrow>
   ('c inflight + 'c inflight) \<times> ('n, 'c) progress_entry \<times> ('l, 'c, 'm) raft_state" where
  "next_send e log_state max_entries =
     (if \<not> inflight_is_none (inflight_of e) then (Inl (inflight_of e), e, log_state)
      else
        (let last_next = next_index (last_log_id log_state);
             purge_upto_next = next_index (st_purge_upto log_state);
             (i, log_state) = new_inflight_id log_state;
             pending = probe_start (pe_data e);
             e = e\<lparr>pe_data := (pe_data e)\<lparr>probe_start := None\<rparr>\<rparr>;
             send = (\<lambda>fl. (Inr fl, set_inflight fl e, log_state))
         in if search_end e < purge_upto_next then send (inflight_snapshot i)
            else
              (let m_next = matching_next e;
                   hinted =
                     (case pending of
                        None \<Rightarrow> None
                      | Some pending \<Rightarrow>
                          (let start = max pending purge_upto_next;
                               end_index = min (start + max_entries) last_next;
                               in_search_range = (m_next \<le> start \<and> start \<le> search_end e)
                           in if in_search_range \<and> start < end_index
                              then Some (inflight_probe (prev_log_id log_state start) (prev_log_id log_state end_index) i)
                              else None))
               in case hinted of
                    Some fl \<Rightarrow> send fl
                  | None \<Rightarrow>
                      if m_next < search_end e then
                        (let mid = calc_mid m_next (search_end e);
                             start = max mid purge_upto_next;
                             end_index = min (start + max_entries) last_next
                         in if start = end_index then send (inflight_snapshot i)
                            else send (inflight_probe (prev_log_id log_state start) (prev_log_id log_state end_index) i))
                      else send (LogsSince (matching e) i))))"

definition progress_entry_validate :: "('n, 'c::linorder) progress_entry \<Rightarrow> bool" where
  "progress_entry_validate e \<longleftrightarrow>
     matching_next e \<le> search_end e \<and> inflight_validate (inflight_of e) \<and>
     (case inflight_of e of
        InflightNone \<Rightarrow> True
      | Probe r _ \<Rightarrow> matching e \<le> r_prev r \<and> next_index (r_prev r) \<le> search_end e
      | SendSnapshot _ \<Rightarrow> True
      | LogsSince _ _ \<Rightarrow> True)"

section \<open>Applying responses\<close>

definition pe_update_conflicting ::
  "'n engine_config \<Rightarrow> ('n, 'c) progress_entry \<Rightarrow> nat \<Rightarrow> nat option \<Rightarrow> (bool \<times> ('n, 'c) progress_entry) option" where
  "pe_update_conflicting cfg e conflict iid =
     (case (case iid of
              Some i \<Rightarrow> inflight_conflict (inflight_of e) i
            | None \<Rightarrow> Some (True, inflight_of e)) of
        None \<Rightarrow> None
      | Some (applied, fl) \<Rightarrow>
          if \<not> applied then Some (False, e)
          else
            (let e = set_inflight fl e
             in if conflict \<ge> search_end e then Some (True, e)
                else
                  (let e = e\<lparr>pe_data := (pe_data e)\<lparr>searching_end := conflict\<rparr>\<rparr>;
                       allow_reset = (allow_log_reversion (pe_data e) \<or> ec_allow_log_reversion cfg)
                   in if allow_reset \<and> conflict < matching_next e then
                        (let e = e\<lparr>matching := None, pe_data := (pe_data e)\<lparr>allow_log_reversion := False\<rparr>\<rparr>
                         in Some (True, if is_logs_since (inflight_of e) then set_inflight InflightNone e else e))
                      else Some (True, e))))"

definition pe_update_matching ::
  "('n, 'c::linorder) progress_entry \<Rightarrow> 'c log_id option \<Rightarrow> nat option \<Rightarrow> ('n, 'c) progress_entry" where
  "pe_update_matching e new_matching iid =
     (let (applied, fl) =
        (case iid of Some i \<Rightarrow> inflight_ack (inflight_of e) new_matching i | None \<Rightarrow> (True, inflight_of e))
      in if \<not> applied then e
         else
           (let e = set_inflight fl e
            in if new_matching \<le> matching e then e
               else
                 (let e = e\<lparr>matching := new_matching\<rparr>
                  in e\<lparr>pe_data := (pe_data e)\<lparr>searching_end := max (search_end e) (matching_next e)\<rparr>\<rparr>)))"

section \<open>Sending\<close>

text \<open>
  A leader may send to a follower when the purge boundary and the search range lie within its log,
  and its log holds the follower's matching log id or has purged it.
\<close>

definition matching_in_log :: "('n, 'c::linorder) progress_entry \<Rightarrow> 'c log_id_list \<Rightarrow> bool" where
  "matching_in_log e l \<longleftrightarrow>
     (\<forall>m i x. matching e = Some m \<and> idx m \<le> i \<and> log_get l i = Some x \<longrightarrow> m \<le> x)"

definition can_send :: "('n, 'c::linorder) progress_entry \<Rightarrow> ('l, 'c, 'm) raft_state \<Rightarrow> bool" where
  "can_send e s \<longleftrightarrow>
     log_wf (st_log_ids s) \<and> first_index (st_log_ids s) \<le> next_index (st_purge_upto s) \<and>
     next_index (st_purge_upto s) \<le> next_index (last_log_id s) \<and>
     matching_next e \<le> search_end e \<and> search_end e \<le> next_index (last_log_id s) \<and>
     matching_in_log e (st_log_ids s)"

lemma inflight_frame [simp, state_simps]:
  "matching (set_inflight i e) = matching e" "search_end (set_inflight i e) = search_end e"
  "inflight_of (set_inflight i e) = i" "pe_id (set_inflight i e) = pe_id e"
  "stream_id (pe_data (set_inflight i e)) = stream_id (pe_data e)"
  "allow_log_reversion (pe_data (set_inflight i e)) = allow_log_reversion (pe_data e)"
  "probe_start (pe_data (set_inflight i e)) = probe_start (pe_data e)"
  by (simp_all add: set_inflight_def)

lemma new_inflight_id_frame [simp, state_simps]:
  "st_log_ids (s\<lparr>last_inflight_id := i\<rparr>) = st_log_ids s"
  "last_log_id (s\<lparr>last_inflight_id := i\<rparr>) = last_log_id s"
  "prev_log_id (s\<lparr>last_inflight_id := i\<rparr>) = prev_log_id s"
  by (simp_all add: last_log_id_def prev_log_id_def get_log_id_def ref_log_id_def fun_eq_iff)

lemma calc_mid_bounds: "m \<le> e \<Longrightarrow> m \<le> calc_mid m e \<and> calc_mid m e \<le> e" "m < e \<Longrightarrow> calc_mid m e < e"
  by (auto simp: calc_mid_def Let_def)

lemma prev_log_id_known:
  assumes wf: "log_wf (st_log_ids s)" and i: "first_index (st_log_ids s) \<le> i" "i \<le> next_index (last_log_id s)"
  shows "next_index (prev_log_id s i) = i"
proof (cases "i = 0")
  case False
  let ?l = "st_log_ids s"
  have "log_get ?l (i - 1) \<noteq> None"
  proof (cases "first_index ?l \<le> i - 1")
    case True
    then show ?thesis using False log_view_dom[OF wf, of "i - 1"] i log_get_view[OF wf True]
      by (auto simp: last_log_id_def)
  next
    case F: False
    then obtain p where p: "purged ?l = Some p" "idx p = i - 1"
      using i(1) \<open>i \<noteq> 0\<close> by (cases "purged ?l") (auto simp: first_index_def)
    then have "ref_at ?l (i - 1) = Some p" using F by (simp add: ref_at_view[OF wf])
    then show ?thesis by (simp add: log_get_def)
  qed
  then obtain x where "log_get ?l (i - 1) = Some x" by blast
  then show ?thesis using False log_get_clid_idx[OF wf, of "i - 1" x]
    by (simp add: prev_log_id_def get_log_id_def ref_log_id_def log_get_def)
qed (simp add: prev_log_id_def)

lemma prev_log_id_mono:
  assumes wf: "log_wf (st_log_ids s)" and i: "first_index (st_log_ids s) \<le> i" "i < j" "j \<le> next_index (last_log_id s)"
  shows "prev_log_id s i < prev_log_id s j"
proof -
  have n: "next_index (prev_log_id s i) = i" "next_index (prev_log_id s j) = j"
    using prev_log_id_known[OF wf] i by auto
  then obtain y where y: "prev_log_id s j = Some y" "idx y = j - 1" using i(2) by (cases "prev_log_id s j") auto
  show ?thesis
  proof (cases "prev_log_id s i")
    case (Some x)
    then have x: "idx x = i - 1" "i \<noteq> 0" using n by (auto simp: prev_log_id_def)
    have "clid x \<le> clid y"
      using log_get_mono[OF wf, of "i - 1" "j - 1" x y] Some y i(2) x(2)
      by (simp add: prev_log_id_def get_log_id_def ref_log_id_def log_get_def split: if_splits)
    then show ?thesis using Some y x i(2) by (auto simp: less_log_id_def)
  qed (simp add: y)
qed

lemma matching_below_prev:
  assumes "can_send e s" "matching_next e \<le> start" "first_index (st_log_ids s) \<le> start" "start \<le> next_index (last_log_id s)"
  shows "matching e \<le> prev_log_id s start"
proof (cases "matching e")
  case (Some m)
  have wf: "log_wf (st_log_ids s)" using assms(1) by (simp add: can_send_def)
  obtain x where x: "prev_log_id s start = Some x"
    using prev_log_id_known[OF wf assms(3,4)] assms(2) Some by (cases "prev_log_id s start") auto
  then have "log_get (st_log_ids s) (start - 1) = Some x"
    by (simp add: prev_log_id_def get_log_id_def ref_log_id_def log_get_def split: if_splits)
  moreover have "idx m \<le> start - 1" using assms(2) Some by simp
  ultimately have "m \<le> x" using assms(1) Some by (auto simp: can_send_def matching_in_log_def)
  then show ?thesis using Some x by simp
qed simp

lemma probe_ok:
  assumes "can_send e s" "matching_next e \<le> start" "next_index (st_purge_upto s) \<le> start"
    "start \<le> search_end e" "start < end_index" "end_index \<le> next_index (last_log_id s)"
  shows "\<exists>r. inflight_probe (prev_log_id s start) (prev_log_id s end_index) i = Probe r i \<and>
    log_id_range_validate r \<and> matching e \<le> r_prev r \<and> next_index (r_prev r) = start \<and> next_index (r_last r) = end_index"
proof -
  have wf: "log_wf (st_log_ids s)" and s: "first_index (st_log_ids s) \<le> start"
    using assms by (auto simp: can_send_def)
  then have "prev_log_id s start < prev_log_id s end_index" using prev_log_id_mono assms by blast
  moreover have "matching e \<le> prev_log_id s start" using matching_below_prev[OF assms(1,2) s] assms by simp
  ultimately show ?thesis using prev_log_id_known[OF wf] s assms
    by (auto simp: inflight_probe_def log_id_range_validate_def)
qed

text \<open>What a request may be, given the entry it is for and the leader's state.\<close>

definition request_ok :: "('n, 'c::linorder) progress_entry \<Rightarrow> ('l, 'c, 'm) raft_state \<Rightarrow> 'c inflight \<Rightarrow> bool" where
  "request_ok e s fl \<longleftrightarrow>
     (case fl of
        InflightNone \<Rightarrow> False
      | Probe r _ \<Rightarrow>
          log_id_range_validate r \<and> matching e \<le> r_prev r \<and>
          matching_next e \<le> next_index (r_prev r) \<and> next_index (r_prev r) \<le> search_end e \<and>
          next_index (st_purge_upto s) \<le> next_index (r_prev r) \<and> next_index (r_prev r) < next_index (r_last r) \<and>
          next_index (r_last r) \<le> next_index (last_log_id s) \<and>
          r_prev r = prev_log_id s (next_index (r_prev r)) \<and> r_last r = prev_log_id s (next_index (r_last r))
      | LogsSince prev _ \<Rightarrow>
          prev = matching e \<and> matching_next e = search_end e \<and> next_index (st_purge_upto s) \<le> matching_next e
      | SendSnapshot _ \<Rightarrow>
          search_end e < next_index (st_purge_upto s) \<or>
          (matching_next e < search_end e \<and> st_purge_upto s \<noteq> None \<and>
           next_index (st_purge_upto s) = next_index (last_log_id s)))"

lemma probe_request:
  assumes "can_send e s" "matching_next e \<le> start" "next_index (st_purge_upto s) \<le> start"
    "start \<le> search_end e" "start < end_index" "end_index \<le> next_index (last_log_id s)"
  shows "request_ok e s (inflight_probe (prev_log_id s start) (prev_log_id s end_index) i)"
    "inflight_id (inflight_probe (prev_log_id s start) (prev_log_id s end_index) i) = i"
proof -
  obtain r where r: "inflight_probe (prev_log_id s start) (prev_log_id s end_index) i = Probe r i"
    "log_id_range_validate r" "matching e \<le> r_prev r" "next_index (r_prev r) = start" "next_index (r_last r) = end_index"
    using probe_ok[OF assms] by blast
  moreover from r(1) have "r_prev r = prev_log_id s start" "r_last r = prev_log_id s end_index"
    by (auto simp: inflight_probe_def split: if_splits)
  ultimately show "request_ok e s (inflight_probe (prev_log_id s start) (prev_log_id s end_index) i)"
    "inflight_id (inflight_probe (prev_log_id s start) (prev_log_id s end_index) i) = i"
    using assms by (auto simp: request_ok_def)
qed

lemma binary_probe_request:
  fixes e :: "('n, 'c::linorder) progress_entry"
  assumes ok: "can_send e s" and probing: "matching_next e < search_end e" and max: "0 < max_entries"
    and purge: "next_index (st_purge_upto s) \<le> search_end e"
  defines "start \<equiv> max (calc_mid (matching_next e) (search_end e)) (next_index (st_purge_upto s))"
  defines "end_index \<equiv> min (start + max_entries) (next_index (last_log_id s))"
  shows "start = end_index \<Longrightarrow> st_purge_upto s \<noteq> None \<and> next_index (st_purge_upto s) = next_index (last_log_id s)"
    "start \<noteq> end_index \<Longrightarrow> request_ok e s (inflight_probe (prev_log_id s start) (prev_log_id s end_index) i)"
    "start \<noteq> end_index \<Longrightarrow> inflight_id (inflight_probe (prev_log_id s start) (prev_log_id s end_index) i) = i"
proof -
  have mid: "matching_next e \<le> calc_mid (matching_next e) (search_end e)"
    "calc_mid (matching_next e) (search_end e) < search_end e"
    using calc_mid_bounds(1)[of "matching_next e" "search_end e"]
      calc_mid_bounds(2)[of "matching_next e" "search_end e"] probing by auto
  have last: "search_end e \<le> next_index (last_log_id s)" using ok by (simp add: can_send_def)
  have start: "matching_next e \<le> start" "next_index (st_purge_upto s) \<le> start" "start \<le> search_end e"
    using mid purge by (auto simp: start_def)
  have end_index: "start \<le> end_index" "end_index \<le> next_index (last_log_id s)"
    using start last by (auto simp: end_index_def)
  show "st_purge_upto s \<noteq> None \<and> next_index (st_purge_upto s) = next_index (last_log_id s)" if "start = end_index"
    using that max mid last purge probing
    by (cases "st_purge_upto s") (auto simp: end_index_def start_def max_def min_def split: if_splits)
  show "request_ok e s (inflight_probe (prev_log_id s start) (prev_log_id s end_index) i)"
    "inflight_id (inflight_probe (prev_log_id s start) (prev_log_id s end_index) i) = i" if "start \<noteq> end_index"
    using probe_request[OF ok start _ end_index(2)] end_index(1) that by auto
qed


text \<open>The request that \<open>next_send\<close> picks, apart from the bookkeeping.\<close>

definition hinted_request ::
  "('n, 'c::linorder) progress_entry \<Rightarrow> ('l, 'c, 'm) raft_state \<Rightarrow> nat \<Rightarrow> nat \<Rightarrow> nat \<Rightarrow> 'c inflight option" where
  "hinted_request e s max_entries i pending =
     (let start = max pending (next_index (st_purge_upto s));
          end_index = min (start + max_entries) (next_index (last_log_id s))
      in if (matching_next e \<le> start \<and> start \<le> search_end e) \<and> start < end_index
         then Some (inflight_probe (prev_log_id s start) (prev_log_id s end_index) i) else None)"

definition next_request ::
  "('n, 'c::linorder) progress_entry \<Rightarrow> ('l, 'c, 'm) raft_state \<Rightarrow> nat \<Rightarrow> nat \<Rightarrow> 'c inflight" where
  "next_request e s max_entries i =
     (if search_end e < next_index (st_purge_upto s) then SendSnapshot i
      else
        (case Option.bind (probe_start (pe_data e)) (hinted_request e s max_entries i) of
           Some fl \<Rightarrow> fl
         | None \<Rightarrow>
             if matching_next e < search_end e then
               (let start = max (calc_mid (matching_next e) (search_end e)) (next_index (st_purge_upto s));
                    end_index = min (start + max_entries) (next_index (last_log_id s))
                in if start = end_index then SendSnapshot i
                   else inflight_probe (prev_log_id s start) (prev_log_id s end_index) i)
             else LogsSince (matching e) i))"

lemma next_send_eq:
  assumes "inflight_of e = InflightNone"
  shows "next_send e s max_entries =
    (let fl = next_request e s max_entries (fst (new_inflight_id s))
     in (Inr fl, e\<lparr>pe_data := (pe_data e)\<lparr>probe_start := None, pd_inflight := fl\<rparr>\<rparr>, snd (new_inflight_id s)))"
  using assms
  by (cases "probe_start (pe_data e)")
    (simp_all add: next_send_def next_request_def hinted_request_def inflight_is_none_def new_inflight_id_def
      Let_def set_inflight_def inflight_snapshot_def)

lemma next_request_ok:
  assumes ok: "can_send e s" and max: "0 < max_entries"
  shows "request_ok e s (next_request e s max_entries i) \<and> inflight_id (next_request e s max_entries i) = i"
proof (cases "search_end e < next_index (st_purge_upto s)")
  case True
  then show ?thesis by (simp add: next_request_def request_ok_def)
next
  case False
  show ?thesis
  proof (cases "Option.bind (probe_start (pe_data e)) (hinted_request e s max_entries i)")
    case (Some fl)
    then obtain pending where "hinted_request e s max_entries i pending = Some fl" by (auto simp: bind_eq_Some_conv)
    then have "request_ok e s fl" "inflight_id fl = i"
      using probe_request[OF ok, where start = "max pending (next_index (st_purge_upto s))" and i = i
          and end_index = "min (max pending (next_index (st_purge_upto s)) + max_entries) (next_index (last_log_id s))"]
      by (auto simp: hinted_request_def Let_def split: if_splits)
    then show ?thesis using False Some by (simp add: next_request_def)
  next
    case None
    then show ?thesis
      using False ok binary_probe_request(1)[OF ok _ max] binary_probe_request(2,3)[OF ok _ max, where i = i]
      by (auto simp: next_request_def Let_def request_ok_def[of e s "SendSnapshot i"]
          request_ok_def[of e s "LogsSince (matching e) i"] can_send_def)
  qed
qed

lemma request_validate:
  assumes "can_send e s" "request_ok e s fl" "matching e' = matching e" "search_end e' = search_end e" "inflight_of e' = fl"
  shows "progress_entry_validate e'"
  using assms by (cases fl) (auto simp: progress_entry_validate_def can_send_def request_ok_def inflight_validate_def)

section \<open>Responses\<close>

definition awaits :: "('n, 'c) progress_entry \<Rightarrow> nat \<Rightarrow> bool" where
  "awaits e iid \<longleftrightarrow> inflight_of e \<noteq> InflightNone \<and> inflight_id (inflight_of e) = iid"

lemma set_inflight_same [simp]: "set_inflight (inflight_of e) e = e"
  by (simp add: set_inflight_def)

lemma stale_ack: "\<not> awaits e iid \<Longrightarrow> pe_update_matching e m (Some iid) = e"
  by (cases "inflight_of e") (auto simp: pe_update_matching_def inflight_ack_def awaits_def)

lemma stale_conflict: "\<not> awaits e iid \<Longrightarrow> pe_update_conflicting cfg e c (Some iid) = Some (False, e)"
  by (cases "inflight_of e") (auto simp: pe_update_conflicting_def inflight_conflict_def awaits_def)

lemma update_matching_range:
  "matching_next e \<le> search_end e \<Longrightarrow>
   matching_next (pe_update_matching e m iid) \<le> search_end (pe_update_matching e m iid)"
  by (auto simp: pe_update_matching_def Let_def split: prod.split)

lemma update_matching_mono: "matching e \<le> matching (pe_update_matching e m iid)"
  by (auto simp: pe_update_matching_def Let_def split: prod.split)

lemma update_conflicting_range:
  assumes "pe_update_conflicting cfg e c iid = Some (r, e')" "matching_next e \<le> search_end e"
    "matching_next e \<le> c \<or> allow_log_reversion (pe_data e) \<or> ec_allow_log_reversion cfg"
  shows "matching_next e' \<le> search_end e'"
  using assms
  by (auto simp: pe_update_conflicting_def Let_def set_inflight_def split: prod.splits option.splits if_splits)

text \<open>
  One round of probing: a request is sent, and the follower acknowledges a part of it, down to what
  precedes it, or refuses what precedes it, or the request fails.  A follower that keeps its log
  refuses no log id up to the one known to match.
\<close>

datatype 'c probe_answer = ProbeAcked "'c log_id option" | ProbeRefused | ProbeFailed

inductive probe_round ::
  "'n engine_config \<Rightarrow> nat \<Rightarrow> 'c::linorder probe_answer \<Rightarrow> ('n, 'c) progress_entry \<times> ('l, 'c, 'm) raft_state \<Rightarrow>
   ('n, 'c) progress_entry \<times> ('l, 'c, 'm) raft_state \<Rightarrow> bool"
  for cfg max_entries where
  acked: "next_send e s max_entries = (Inr (Probe r i), e', s') \<Longrightarrow>
    next_index (r_prev r) \<le> n \<Longrightarrow> n \<le> next_index (r_last r) \<Longrightarrow> m = prev_log_id s n \<Longrightarrow>
    probe_round cfg max_entries (ProbeAcked m) (e, s) (pe_update_matching e' m (Some i), s')"
| refused: "next_send e s max_entries = (Inr (Probe r i), e', s') \<Longrightarrow> r_prev r = Some p \<Longrightarrow>
    matching_next e \<le> idx p \<Longrightarrow> pe_update_conflicting cfg e' (idx p) (Some i) = Some (applied, e'') \<Longrightarrow>
    probe_round cfg max_entries ProbeRefused (e, s) (e'', s')"
| failed: "next_send e s max_entries = (Inr (Probe r i), e', s') \<Longrightarrow>
    probe_round cfg max_entries ProbeFailed (e, s) (set_inflight InflightNone e', s')"

definition search_range :: "('n, 'c) progress_entry \<times> ('l, 'c, 'm) raft_state \<Rightarrow> nat \<times> nat" where
  "search_range = (\<lambda>(e, s). (matching_next e, search_end e))"

text \<open>An answer that tells the leader more than it knows.\<close>

definition informs :: "'c probe_answer \<Rightarrow> ('n, 'c) progress_entry \<Rightarrow> bool" where
  "informs a e =
     (case a of ProbeAcked m \<Rightarrow> matching_next e < next_index m | ProbeRefused \<Rightarrow> True | ProbeFailed \<Rightarrow> False)"

definition probe_measure :: "('n, 'c) progress_entry \<times> ('l, 'c, 'm) raft_state \<Rightarrow> nat" where
  "probe_measure = (\<lambda>(e, s). (next_index (last_log_id s) - matching_next e) + (search_end e - matching_next e))"

lemma sent_probe:
  assumes "can_send e s" "inflight_of e = InflightNone" "0 < max_entries"
    "next_send e s max_entries = (Inr (Probe r i), e', s')"
  shows "request_ok e s (Probe r i)" "s' = snd (new_inflight_id s)"
    "e' = e\<lparr>pe_data := (pe_data e)\<lparr>probe_start := None, pd_inflight := Probe r i\<rparr>\<rparr>"
  using next_request_ok[OF assms(1,3), of "fst (new_inflight_id s)"] assms(4)
  by (auto simp: next_send_eq[OF assms(2)] Let_def)

lemma can_send_state: "can_send e (snd (new_inflight_id s)) \<longleftrightarrow> can_send e s"
  by (simp add: can_send_def new_inflight_id_def Let_def)

lemma log_id_in_log:
  assumes "log_wf (st_log_ids s)" "prev_log_id s n = Some m" "idx m \<le> i" "log_get (st_log_ids s) i = Some x"
  shows "m \<le> x"
proof -
  have m: "log_get (st_log_ids s) (n - 1) = Some m"
    using assms(2) by (auto simp: prev_log_id_def get_log_id_def ref_log_id_def log_get_def split: if_splits)
  have "idx m = n - 1" "idx x = i" using log_get_clid_idx[OF assms(1)] m assms(4) by blast+
  then show ?thesis using log_get_mono[OF assms(1) _ m assms(4)] assms(3) by (auto simp: less_eq_log_id_def)
qed

lemma acked_probe:
  assumes ok: "can_send e s" "request_ok e s (Probe r i)"
    and n: "next_index (r_prev r) \<le> n" "n \<le> next_index (r_last r)" and m: "m = prev_log_id s n"
  defines "e' \<equiv> pe_update_matching (e\<lparr>pe_data := (pe_data e)\<lparr>probe_start := None, pd_inflight := Probe r i\<rparr>\<rparr>) m (Some i)"
  shows "can_send e' s" "inflight_of e' = InflightNone" "matching_next e \<le> matching_next e'" "matching_next e' = next_index m"
    "next_index m \<le> next_index (last_log_id s)" "search_end e' = max (search_end e) (next_index m)"
proof -
  have wf: "log_wf (st_log_ids s)" and first: "first_index (st_log_ids s) \<le> next_index (r_prev r)"
    and prev: "matching e \<le> r_prev r" "matching_next e \<le> next_index (r_prev r)" "next_index (r_last r) \<le> next_index (last_log_id s)"
      "r_prev r = prev_log_id s (next_index (r_prev r))"
    using ok by (auto simp: request_ok_def can_send_def)
  have next_m: "next_index m = n" unfolding m by (rule prev_log_id_known[OF wf]) (use first n prev(3) in simp_all)
  have le: "r_prev r \<le> m"
    using prev_log_id_mono[OF wf first, of n] n prev(3,4) by (cases "next_index (r_prev r) = n") (auto simp: m)
  then have "matching e \<le> m" using prev(1) by simp
  moreover have "matching_next e \<le> search_end e" using ok(1) by (simp add: can_send_def)
  ultimately have e': "e' = e\<lparr>matching := m, pe_data := (pe_data e)\<lparr>probe_start := None, pd_inflight := InflightNone,
      searching_end := max (search_end e) (next_index m)\<rparr>\<rparr>"
    using le by (auto simp: e'_def pe_update_matching_def inflight_ack_def set_inflight_def Let_def max_def)
  show "inflight_of e' = InflightNone" "matching_next e \<le> matching_next e'" "matching_next e' = next_index m"
    "next_index m \<le> next_index (last_log_id s)" "search_end e' = max (search_end e) (next_index m)"
    using n prev(2,3) next_m by (simp_all add: e')
  have "matching_in_log e' (st_log_ids s)"
    using log_id_in_log[OF wf, of n] by (auto simp: matching_in_log_def e' m)
  then show "can_send e' s" using ok(1) n prev(2,3) next_m by (auto simp: can_send_def e')
qed

lemma failed_probe:
  assumes "can_send e s" "e' = set_inflight InflightNone (e\<lparr>pe_data := (pe_data e)\<lparr>probe_start := None, pd_inflight := fl\<rparr>\<rparr>)"
  shows "can_send e' s" "inflight_of e' = InflightNone" "matching e' = matching e" "search_end e' = search_end e"
  using assms(1) by (auto simp: assms(2) can_send_def matching_in_log_def set_inflight_def)

lemma sent_state [simp]: "next_index (last_log_id (snd (new_inflight_id s))) = next_index (last_log_id s)"
  by (simp add: new_inflight_id_def Let_def)

lemma refused_probe:
  assumes ok: "can_send e s" "request_ok e s (Probe r i)" and p: "r_prev r = Some p" "matching_next e \<le> idx p"
    and upd: "pe_update_conflicting cfg (e\<lparr>pe_data := (pe_data e)\<lparr>probe_start := None, pd_inflight := Probe r i\<rparr>\<rparr>)
      (idx p) (Some i) = Some (applied, e')"
  shows "can_send e' s" "inflight_of e' = InflightNone" "matching e' = matching e" "search_end e' = idx p"
    "idx p < search_end e"
proof -
  show lt: "idx p < search_end e" using ok(2) p by (auto simp: request_ok_def)
  then have e': "e' = e\<lparr>pe_data := (pe_data e)\<lparr>probe_start := None, pd_inflight := InflightNone, searching_end := idx p\<rparr>\<rparr>"
    using upd p(2) by (simp add: pe_update_conflicting_def inflight_conflict_def set_inflight_def Let_def)
  then show "inflight_of e' = InflightNone" "matching e' = matching e" "search_end e' = idx p" by simp_all
  show "can_send e' s" using ok(1) p(2) lt by (auto simp: can_send_def e' matching_in_log_def)
qed

text \<open>A round leaves the search range as it is, or brings the end of the search closer.\<close>

lemma probe_round_step:
  assumes "probe_round cfg max_entries a (e, s) (e', s')" "can_send e s" "inflight_of e = InflightNone" "0 < max_entries"
  shows "can_send e' s'" "inflight_of e' = InflightNone"
    "probe_measure (e', s') + (if informs a e then 1 else 0) \<le> probe_measure (e, s)"
    "\<not> informs a e \<Longrightarrow> search_range (e', s') = search_range (e, s)"
proof -
  have range: "matching_next e \<le> search_end e" "search_end e \<le> next_index (last_log_id s)"
    using assms(2) by (auto simp: can_send_def)
  have "can_send e' s' \<and> inflight_of e' = InflightNone \<and>
    probe_measure (e', s') + (if informs a e then 1 else 0) \<le> probe_measure (e, s) \<and>
    (\<not> informs a e \<longrightarrow> search_range (e', s') = search_range (e, s))"
    using assms(1)
  proof cases
    case (acked r i e2 n m)
    note sent = sent_probe[OF assms(2-4) acked(3)]
    note step = acked_probe[OF assms(2) sent(1) acked(4,5,6)]
    show ?thesis using step acked(1,2) range
      by (auto simp: sent can_send_state probe_measure_def search_range_def informs_def)
  next
    case (refused r i e2 p applied)
    note sent = sent_probe[OF assms(2-4) refused(2)]
    show ?thesis
      using refused_probe[OF assms(2) sent(1) refused(3,4) refused(5)[unfolded sent(3)]] refused(1,4) range
      by (auto simp: sent can_send_state probe_measure_def search_range_def informs_def)
  next
    case (failed r i e2)
    note sent = sent_probe[OF assms(2-4) failed(3)]
    show ?thesis using failed_probe[OF assms(2) failed(2)[unfolded sent(3)]] failed(1)
      by (auto simp: sent can_send_state probe_measure_def search_range_def informs_def)
  qed
  then show "can_send e' s'" "inflight_of e' = InflightNone"
    "probe_measure (e', s') + (if informs a e then 1 else 0) \<le> probe_measure (e, s)"
    "\<not> informs a e \<Longrightarrow> search_range (e', s') = search_range (e, s)"
    by blast+
qed

text \<open>A history of rounds: the answers, each with the state before and after it.\<close>

inductive probing ::
  "'n engine_config \<Rightarrow> nat \<Rightarrow> ('n, 'c::linorder) progress_entry \<times> ('l, 'c, 'm) raft_state \<Rightarrow>
   ('c probe_answer \<times> (('n, 'c) progress_entry \<times> ('l, 'c, 'm) raft_state) \<times> (('n, 'c) progress_entry \<times> ('l, 'c, 'm) raft_state)) list \<Rightarrow> bool"
  for cfg max_entries where
  stop: "probing cfg max_entries x []"
| go: "probe_round cfg max_entries a x y \<Longrightarrow> probing cfg max_entries y rounds \<Longrightarrow> probing cfg max_entries x ((a, x, y) # rounds)"

lemma probing_bounded:
  assumes "probing cfg max_entries x rounds" "can_send (fst x) (snd x)" "inflight_of (fst x) = InflightNone" "0 < max_entries"
  shows "length (filter (\<lambda>(a, y, z). informs a (fst y)) rounds) \<le> probe_measure x"
    "(a, y, z) \<in> set rounds \<Longrightarrow> \<not> informs a (fst y) \<Longrightarrow> search_range z = search_range y"
proof -
  have "length (filter (\<lambda>(a, y, z). informs a (fst y)) rounds) \<le> probe_measure x \<and>
    ((a, y, z) \<in> set rounds \<longrightarrow> \<not> informs a (fst y) \<longrightarrow> search_range z = search_range y)"
    using assms(1-3)
  proof (induction rule: probing.induct)
    case (go b x w rounds)
    obtain e s e' s' where x: "x = (e, s)" "w = (e', s')" by (cases x; cases w)
    note step = probe_round_step[OF go.hyps(1)[unfolded x] _ _ assms(4)]
    show ?case using go.IH step go.prems by (auto simp: x split: if_splits)
  qed simp
  then show "length (filter (\<lambda>(a, y, z). informs a (fst y)) rounds) \<le> probe_measure x"
    "(a, y, z) \<in> set rounds \<Longrightarrow> \<not> informs a (fst y) \<Longrightarrow> search_range z = search_range y"
    by blast+
qed

text \<open>
  Without log reversion a conflict below the matching log id is only ruled out by a
  \<open>debug_assert\<close>: a release build empties the search range past the matching log id.
\<close>

lemma conflict_below_matching:
  assumes "\<not> allow_log_reversion (pe_data e)" "\<not> ec_allow_log_reversion cfg" "c < matching_next e" "c < search_end e"
  shows "\<exists>e'. pe_update_conflicting cfg e c None = Some (True, e') \<and> search_end e' < matching_next e'"
  using assms by (simp add: pe_update_conflicting_def Let_def set_inflight_def)

end
