(* ===== verification/Proposer.thy ===== *)
theory Proposer
  imports Progress
begin

text \<open>
  The two phases of a proposer (\<open>proposer/leader.rs\<close>, \<open>proposer/candidate.rs\<close>): a
  candidate that collects votes and a leader that assigns log ids, tracks the replication to every
  node and the times at which a quorum acknowledged it.  The container \<open>VecProgress\<close> and the
  quorum sets built over it come from the package \<open>quorum-set\<close>: they are the fields of
  \<open>raft_type_config\<close>.  A constructor of entries also threads the shared id generator.
\<close>

section \<open>What the type config provides\<close>

datatype send_stamp = SendStamp (stamp_time: nat) (stamp_round: nat)

definition stamp_le :: "send_stamp \<Rightarrow> send_stamp \<Rightarrow> bool" where
  "stamp_le a b \<longleftrightarrow> stamp_time a < stamp_time b \<or> (stamp_time a = stamp_time b \<and> stamp_round a \<le> stamp_round b)"

definition stamp_gt :: "send_stamp \<Rightarrow> send_stamp \<Rightarrow> bool" where
  "stamp_gt a b \<longleftrightarrow> \<not> stamp_le a b"

text \<open>\<open>VecProgress\<close> of progress entries; a missing node gives \<open>None\<close>.\<close>

record ('n, 'c, 'q, 'pp) progress_ops =
  pp_new :: "'q \<Rightarrow> 'n list \<Rightarrow> ('n \<Rightarrow> nat \<Rightarrow> ('n, 'c) progress_entry \<times> nat) \<Rightarrow> nat \<Rightarrow> 'pp \<times> nat"
  pp_upgrade_quorum_set :: "'pp \<Rightarrow> 'q \<Rightarrow> 'n list \<Rightarrow> ('n \<Rightarrow> nat \<Rightarrow> ('n, 'c) progress_entry \<times> nat) \<Rightarrow> nat \<Rightarrow> 'pp \<times> nat"
  pp_update_entry_with :: "'pp \<Rightarrow> 'n \<Rightarrow> (('n, 'c) progress_entry \<Rightarrow> ('n, 'c) progress_entry) \<Rightarrow> ('c log_id option \<times> 'pp) option"
  pp_reset_entry_with :: "'pp \<Rightarrow> 'n \<Rightarrow> (('n, 'c) progress_entry \<Rightarrow> ('n, 'c) progress_entry) \<Rightarrow> 'pp option"
  pp_update_data_with :: "'pp \<Rightarrow> 'n \<Rightarrow> ('c progress_data \<Rightarrow> 'c progress_data) \<Rightarrow> 'pp option"
  pp_try_get :: "'pp \<Rightarrow> 'n \<Rightarrow> ('n, 'c) progress_entry option"
  pp_iter :: "'pp \<Rightarrow> ('n, 'c) progress_entry list"
  pp_write_back :: "'pp \<Rightarrow> ('n, 'c) progress_entry list \<Rightarrow> 'pp"

text \<open>\<open>VecProgress\<close> of the times of acknowledged requests.\<close>

record ('n, 'q, 'cp) clock_ops =
  cp_new :: "'q \<Rightarrow> 'n list \<Rightarrow> 'cp"
  cp_upgrade_quorum_set :: "'cp \<Rightarrow> 'q \<Rightarrow> 'n list \<Rightarrow> 'cp"
  cp_increase_to :: "'cp \<Rightarrow> 'n \<Rightarrow> send_stamp option \<Rightarrow> (send_stamp option \<times> 'cp) option"
  cp_quorum_accepted :: "'cp \<Rightarrow> send_stamp option"
  cp_voter_count :: "'cp \<Rightarrow> nat"
  cp_iter :: "'cp \<Rightarrow> ('n \<times> send_stamp option) list"
  cp_is_voter :: "'cp \<Rightarrow> 'n \<Rightarrow> bool option"
  cp_quorum_set :: "'cp \<Rightarrow> 'q"
  cp_try_get :: "'cp \<Rightarrow> 'n \<Rightarrow> send_stamp option option"

text \<open>\<open>VecProgress\<close> of granted votes over \<open>ReadOrBoth\<close> of a read and a write quorum set.\<close>

record ('n, 'q, 'gp) election_ops =
  gp_new_read :: "'q \<Rightarrow> 'gp"
  gp_new_both :: "'q \<Rightarrow> 'q \<Rightarrow> 'gp"
  gp_update_progress :: "'gp \<Rightarrow> 'n \<Rightarrow> bool \<Rightarrow> (bool \<times> 'gp) option"

record ('n, 'nd, 'l, 'c, 'm, 'q, 'pp, 'cp, 'gp) raft_type_config =
  tc_lid :: "(nat, 'n, 'l, 'c) leader_id_ops"
  tc_mem :: "('n, 'nd, 'm, 'q) membership_ops"
  tc_progress :: "('n, 'c, 'q, 'pp) progress_ops"
  tc_clock :: "('n, 'q, 'cp) clock_ops"
  tc_election :: "('n, 'q, 'gp) election_ops"

section \<open>Leader\<close>

record ('n, 'l, 'c, 'pp, 'cp) leader =
  transfer_to :: "('n \<times> nat) option"
  ld_committed_vote :: "'l committed_vote"
  next_heartbeat :: nat
  ld_heartbeat_round :: nat
  ld_last_log_id :: "'c log_id option"
  noop_log_id :: "'c log_id"
  ld_progress :: 'pp
  clock_progress :: 'cp
  self_quorum :: bool

definition ld_node_id :: "(nat, 'n, 'l, 'c) leader_id_ops \<Rightarrow> ('n, 'l, 'c, 'pp, 'cp) leader \<Rightarrow> 'n" where
  "ld_node_id L ld = lid_node_id L (cv_leader_id (ld_committed_vote ld))"

definition increase_clock ::
  "('n, 'q, 'cp) clock_ops \<Rightarrow> 'cp \<Rightarrow> 'n \<Rightarrow> send_stamp option \<Rightarrow> 'cp" where
  "increase_clock K cp nid v = (case cp_increase_to K cp nid v of None \<Rightarrow> cp | Some (_, cp') \<Rightarrow> cp')"

definition calc_self_quorum ::
  "('n, 'nd, 'l, 'c, 'm, 'q, 'pp, 'cp, 'gp) raft_type_config \<Rightarrow> ('n, 'l, 'c, 'pp, 'cp) leader \<Rightarrow> bool" where
  "calc_self_quorum C ld =
     qs_is_quorum (tc_mem C) (cp_quorum_set (tc_clock C) (clock_progress ld)) [ld_node_id (tc_lid C) ld]"

definition update_self_quorum ::
  "('n, 'nd, 'l, 'c, 'm, 'q, 'pp, 'cp, 'gp) raft_type_config \<Rightarrow> ('n, 'l, 'c, 'pp, 'cp) leader \<Rightarrow>
   ('n, 'l, 'c, 'pp, 'cp) leader" where
  "update_self_quorum C ld = ld\<lparr>self_quorum := calc_self_quorum C ld\<rparr>"

text \<open>The entry that \<open>Leader::new\<close> creates for a node, with a fresh stream id.\<close>

definition fresh_entry :: "nat \<Rightarrow> nat \<Rightarrow> 'n \<Rightarrow> nat \<Rightarrow> ('n, 'c) progress_entry \<times> nat" where
  "fresh_entry end_index start nid id_gen =
     (with_probe_start (progress_entry_empty nid id_gen end_index) start, wrapping_add id_gen 1)"

definition leader_new ::
  "('n, 'nd, 'l, 'c, 'm, 'q, 'pp, 'cp, 'gp) raft_type_config \<Rightarrow> nat \<Rightarrow> 'l committed_vote \<Rightarrow> 'm \<Rightarrow>
   'c leader_log_ids option \<Rightarrow> nat \<Rightarrow> ('n, 'l, 'c, 'pp, 'cp) leader \<times> nat" where
  "leader_new C now cv membership last_leader_log_ids id_gen =
     (let M = tc_mem C;
          cl_id = cv_committed_leader_id (tc_lid C) cv;
          non_write_voter_ids = mem_non_write_voter_ids M membership;
          first_ref = map_option ll_first_ref last_leader_log_ids;
          last_ref = map_option ll_last_ref last_leader_log_ids;
          noop = (if map_option clid first_ref = Some cl_id then the first_ref
                  else LogId cl_id (next_index last_ref));
          wq = write_quorum_set M membership;
          (progress, id_gen) =
            pp_new (tc_progress C) wq non_write_voter_ids (fresh_entry (next_index last_ref) (idx noop)) id_gen;
          clock = cp_new (tc_clock C) wq non_write_voter_ids;
          clock = increase_clock (tc_clock C) clock (lid_node_id (tc_lid C) (cv_leader_id cv)) (Some (SendStamp now 0));
          ld = \<lparr>transfer_to = None, ld_committed_vote = cv, next_heartbeat = now, ld_heartbeat_round = 0,
                ld_last_log_id = last_ref, noop_log_id = noop, ld_progress = progress,
                clock_progress = clock, self_quorum = False\<rparr>
      in (update_self_quorum C ld, id_gen))"

definition mark_transfer :: "nat \<Rightarrow> ('n, 'l, 'c, 'pp, 'cp) leader \<Rightarrow> 'n \<Rightarrow> nat \<Rightarrow> ('n, 'l, 'c, 'pp, 'cp) leader" where
  "mark_transfer now ld to timeout = ld\<lparr>transfer_to := Some (to, now + timeout)\<rparr>"

definition get_transfer_to :: "('n, 'l, 'c, 'pp, 'cp) leader \<Rightarrow> 'n option" where
  "get_transfer_to ld = map_option fst (transfer_to ld)"

definition is_transfer_expired :: "nat \<Rightarrow> ('n, 'l, 'c, 'pp, 'cp) leader \<Rightarrow> bool" where
  "is_transfer_expired now ld = (case transfer_to ld of None \<Rightarrow> False | Some (_, deadline) \<Rightarrow> now \<ge> deadline)"

definition assign_log_ids ::
  "(nat, 'n, 'l, 'c) leader_id_ops \<Rightarrow> ('n, 'l, 'c, 'pp, 'cp) leader \<Rightarrow> nat \<Rightarrow>
   'c leader_log_ids option \<times> ('n, 'l, 'c, 'pp, 'cp) leader" where
  "assign_log_ids L ld count =
     (if count = 0 then (None, ld)
      else
        (let c = cv_committed_leader_id L (ld_committed_vote ld);
             first = next_index (ld_last_log_id ld);
             lst = first + count - 1
         in (Some (leader_log_ids_new c first lst), ld\<lparr>ld_last_log_id := Some (LogId c lst)\<rparr>)))"

text \<open>The overflow of the round is a panic, as is a target that the clock does not track.\<close>

definition next_heartbeat_round ::
  "('n, 'l, 'c, 'pp, 'cp) leader \<Rightarrow> (nat \<times> ('n, 'l, 'c, 'pp, 'cp) leader) option" where
  "next_heartbeat_round ld =
     (case checked_add (ld_heartbeat_round ld) 1 of
        None \<Rightarrow> None
      | Some round \<Rightarrow> Some (round, ld\<lparr>ld_heartbeat_round := round\<rparr>))"

definition update_clock ::
  "('n, 'nd, 'l, 'c, 'm, 'q, 'pp, 'cp, 'gp) raft_type_config \<Rightarrow> ('n, 'l, 'c, 'pp, 'cp) leader \<Rightarrow> 'n \<Rightarrow> send_stamp \<Rightarrow>
   (send_stamp option \<times> ('n, 'l, 'c, 'pp, 'cp) leader) option" where
  "update_clock C ld target sending_time =
     (let clock = increase_clock (tc_clock C) (clock_progress ld) (ld_node_id (tc_lid C) ld) (Some sending_time)
      in case cp_increase_to (tc_clock C) clock target (Some sending_time) of
           None \<Rightarrow> None
         | Some (granted, clock) \<Rightarrow> Some (granted, ld\<lparr>clock_progress := clock\<rparr>))"

definition last_quorum_acked_stamp ::
  "('n, 'nd, 'l, 'c, 'm, 'q, 'pp, 'cp, 'gp) raft_type_config \<Rightarrow> ('n, 'l, 'c, 'pp, 'cp) leader \<Rightarrow> send_stamp option" where
  "last_quorum_acked_stamp C ld = cp_quorum_accepted (tc_clock C) (clock_progress ld)"

definition last_quorum_acked_time ::
  "('n, 'nd, 'l, 'c, 'm, 'q, 'pp, 'cp, 'gp) raft_type_config \<Rightarrow> ('n, 'l, 'c, 'pp, 'cp) leader \<Rightarrow> nat option" where
  "last_quorum_acked_time C ld = map_option stamp_time (last_quorum_acked_stamp C ld)"

text \<open>The set of nodes that \<open>QuorumNotEnough\<close> reports.\<close>

definition clock_quorum_not_enough ::
  "('n::linorder, 'nd, 'l, 'c, 'm, 'q, 'pp, 'cp, 'gp) raft_type_config \<Rightarrow> ('n, 'l, 'c, 'pp, 'cp) leader \<Rightarrow>
   send_stamp \<Rightarrow> 'n list" where
  "clock_quorum_not_enough C ld min_acked_at =
     (let K = tc_clock C; clock = clock_progress ld;
          voters = take (cp_voter_count K clock) (cp_iter K clock);
          got = btree_set (map fst (filter (\<lambda>(_, v). case v of None \<Rightarrow> False | Some at \<Rightarrow> stamp_gt at min_acked_at) voters));
          nid = ld_node_id (tc_lid C) ld
      in if cp_is_voter K clock nid = Some True then btree_set (nid # got) else got)"

definition ld_is_lease_valid ::
  "('n, 'nd, 'l, 'c, 'm, 'q, 'pp, 'cp, 'gp) raft_type_config \<Rightarrow> nat \<Rightarrow> ('n, 'l, 'c, 'pp, 'cp) leader \<Rightarrow> nat \<Rightarrow> bool" where
  "ld_is_lease_valid C now ld ls =
     (let is_transferring = (transfer_to ld \<noteq> None)
      in if self_quorum ld \<and> \<not> is_transferring then True
         else (case last_quorum_acked_time C ld of None \<Rightarrow> False | Some acked \<Rightarrow> now < acked + ls))"

definition need_heartbeat ::
  "('n, 'nd, 'l, 'c, 'm, 'q, 'pp, 'cp, 'gp) raft_type_config \<Rightarrow> ('n, 'l, 'c, 'pp, 'cp) leader \<Rightarrow> 'n \<Rightarrow> nat \<Rightarrow> nat \<Rightarrow> bool" where
  "need_heartbeat C ld target now min_interval =
     (case Option.bind (cp_try_get (tc_clock C) (clock_progress ld) target) (\<lambda>v. v) of
        None \<Rightarrow> True
      | Some sending_time \<Rightarrow> now \<ge> stamp_time sending_time + min_interval)"

definition is_replication_stream_valid ::
  "('n, 'nd, 'l, 'c, 'm, 'q, 'pp, 'cp, 'gp) raft_type_config \<Rightarrow> ('n, 'l, 'c, 'pp, 'cp) leader \<Rightarrow> 'n \<Rightarrow> nat \<Rightarrow> bool" where
  "is_replication_stream_valid C ld target sid =
     (case pp_try_get (tc_progress C) (ld_progress ld) target of
        None \<Rightarrow> False
      | Some entry \<Rightarrow> stream_id (pe_data entry) = sid)"

section \<open>Candidate\<close>

record ('l, 'c, 'm, 'gp) candidate =
  starting_time :: nat
  cd_vote :: "'l vote"
  cd_last_log_id :: "'c log_id option"
  cd_progress :: 'gp
  cd_membership :: 'm

definition candidate_new ::
  "('n, 'nd, 'l, 'c, 'm, 'q, 'pp, 'cp, 'gp) raft_type_config \<Rightarrow> nat \<Rightarrow> 'l vote \<Rightarrow> 'c log_id option \<Rightarrow> 'm \<Rightarrow>
   ('l, 'c, 'm, 'gp) candidate" where
  "candidate_new C now v lst membership =
     (let M = tc_mem C;
          rq = read_quorum_set M membership;
          progress = (if lid_totally_ordered (tc_lid C) then gp_new_read (tc_election C) rq
                      else gp_new_both (tc_election C) rq (write_quorum_set M membership))
      in \<lparr>starting_time = now, cd_vote = v, cd_last_log_id = lst, cd_progress = progress, cd_membership = membership\<rparr>)"

definition grant_by ::
  "('n, 'nd, 'l, 'c, 'm, 'q, 'pp, 'cp, 'gp) raft_type_config \<Rightarrow> ('l, 'c, 'm, 'gp) candidate \<Rightarrow> 'n \<Rightarrow>
   bool \<times> ('l, 'c, 'm, 'gp) candidate" where
  "grant_by C cd target =
     (case gp_update_progress (tc_election C) (cd_progress cd) target True of
        None \<Rightarrow> (False, cd)
      | Some (granted, progress) \<Rightarrow> (granted, cd\<lparr>cd_progress := progress\<rparr>))"

definition into_leader ::
  "('n, 'nd, 'l, 'c, 'm, 'q, 'pp, 'cp, 'gp) raft_type_config \<Rightarrow> nat \<Rightarrow> ('l, 'c, 'm, 'gp) candidate \<Rightarrow> nat \<Rightarrow>
   ('n, 'l, 'c, 'pp, 'cp) leader \<times> nat" where
  "into_leader C now cd id_gen =
     leader_new C now (to_committed (cd_vote cd)) (cd_membership cd)
       (map_option leader_log_ids_new_single (cd_last_log_id cd)) id_gen"

text \<open>\<open>RaftState::new_leader\<close>: the leader shares the id generator with the state.\<close>

definition state_new_leader ::
  "('n, 'nd, 'l, 'c, 'm, 'q, 'pp, 'cp, 'gp) raft_type_config \<Rightarrow> nat \<Rightarrow> ('l, 'c, 'm) raft_state \<Rightarrow>
   ('n, 'l, 'c, 'pp, 'cp) leader \<times> ('l, 'c, 'm) raft_state" where
  "state_new_leader C now s =
     (let em = sm_membership (ms_effective (st_membership_state s));
          (ld, id_gen) = leader_new C now (to_committed (vote_ref s)) em (by_last_leader (st_log_ids s)) (progress_id_gen s)
      in (ld, s\<lparr>progress_id_gen := id_gen\<rparr>))"

end
