(* ===== verification/Commands.thy ===== *)
theory Commands
  imports Proposer
begin

text \<open>
  What the engine hands to the task that runs it: log entries (\<open>entry/payload.rs\<close>), messages,
  commands with their conditions (\<open>engine/command.rs\<close>, \<open>core/sm/command.rs\<close>), the queue of
  commands (\<open>engine/engine_output.rs\<close>, \<open>engine/command_scheduler.rs\<close>) and the responses that
  wait for I/O (\<open>engine/pending_responds.rs\<close>).  A response channel is a number that identifies it.
\<close>

section \<open>Entries and messages\<close>

datatype ('d, 'm) entry_payload = Blank | Normal 'd | MembershipPayload 'm

record ('c, 'd, 'm) entry =
  ent_log_id :: "'c log_id"
  ent_payload :: "('d, 'm) entry_payload"

definition get_membership :: "('d, 'm) entry_payload \<Rightarrow> 'm option" where
  "get_membership p = (case p of MembershipPayload m \<Rightarrow> Some m | _ \<Rightarrow> None)"

record ('c, 'd, 'm) log_segment =
  seg_prev_log_id :: "'c log_id option"
  seg_entries :: "('c, 'd, 'm) entry list"

definition segment_last :: "('c, 'd, 'm) log_segment \<Rightarrow> 'c log_id option" where
  "segment_last seg =
     (case map_option ent_log_id (last_opt (seg_entries seg)) of Some x \<Rightarrow> Some x | None \<Rightarrow> seg_prev_log_id seg)"

record ('l, 'c) vote_request =
  vq_vote :: "'l vote"
  vq_last_log_id :: "'c log_id option"
  leadership_transfer_from :: "'l vote option"

definition vote_request_new :: "'l vote \<Rightarrow> 'c log_id option \<Rightarrow> ('l, 'c) vote_request" where
  "vote_request_new v lst = \<lparr>vq_vote = v, vq_last_log_id = lst, leadership_transfer_from = None\<rparr>"

record ('l, 'c) vote_response =
  vp_vote :: "'l vote"
  vote_granted :: bool
  vp_last_log_id :: "'c log_id option"

definition vote_response_new :: "'l vote \<Rightarrow> 'c log_id option \<Rightarrow> bool \<Rightarrow> ('l, 'c) vote_response" where
  "vote_response_new v lst granted = \<lparr>vp_vote = v, vote_granted = granted, vp_last_log_id = lst\<rparr>"

datatype ('l, 'c) append_error =
    AppendConflict "'c log_id" "'c log_id list option"
  | HigherVote "'l vote"

record ('n, 'l, 'c) transfer_leader_request =
  from_leader :: "'l vote"
  to_node_id :: 'n
  tl_last_log_id :: "'c log_id option"

datatype ('n, 'l, 'c, 'm, 'e) initialize_error =
    NotAllowed "'c log_id option" "'l vote"
  | NotInMembers 'n 'm
  | InvalidMembership "('n, 'e) membership_error"

record ('l, 'c) replication_session_id =
  rs_leader_vote :: "'l committed_vote"
  rs_membership_log_id :: "'c log_id option"

datatype 'c replicate_payload = ProbePayload "'c log_id_range" | LogsSincePayload "'c log_id option"

record 'c replicate =
  rp_inflight_id :: nat
  rp_payload :: "'c replicate_payload"

definition replicate_new_probe :: "'c log_id_range \<Rightarrow> nat \<Rightarrow> 'c replicate" where
  "replicate_new_probe r i = \<lparr>rp_inflight_id = i, rp_payload = ProbePayload r\<rparr>"

definition replicate_new_logs_since :: "'c log_id option \<Rightarrow> nat \<Rightarrow> 'c replicate" where
  "replicate_new_logs_since prev i = \<lparr>rp_inflight_id = i, rp_payload = LogsSincePayload prev\<rparr>"

record ('n, 'nd, 'c) target_progress =
  tp_target :: 'n
  tp_target_node :: 'nd
  tp_progress :: "('n, 'c) progress_entry"

record ('c, 'm, 's) snapshot =
  sn_meta :: "('c, 'm) snapshot_meta"
  sn_data :: 's

section \<open>Commands\<close>

datatype ('l, 'c, 'm, 's) sm_command =
    BuildSnapshot
  | GetSnapshot nat
  | InstallFullSnapshot "('l, 'c) log_io_id" "('c, 'm, 's) snapshot"
  | ApplyLogs "'c log_id" "'c log_id" "(nat \<times> nat) list"
  | ExternalFunc nat

definition get_log_progress :: "('l, 'c, 'm, 's) sm_command \<Rightarrow> ('l, 'c) io_id option" where
  "get_log_progress cmd =
     (case cmd of InstallFullSnapshot log_io_id _ \<Rightarrow> Some (IOLog log_io_id) | _ \<Rightarrow> None)"

definition get_apply_progress :: "('l, 'c, 'm, 's) sm_command \<Rightarrow> 'c log_id option" where
  "get_apply_progress cmd =
     (case cmd of
        InstallFullSnapshot log_io_id _ \<Rightarrow> lio_log_id log_io_id
      | ApplyLogs _ lst _ \<Rightarrow> Some lst
      | _ \<Rightarrow> None)"

definition get_snapshot_progress :: "('l, 'c, 'm, 's) sm_command \<Rightarrow> 'c log_id option" where
  "get_snapshot_progress cmd =
     (case cmd of InstallFullSnapshot _ sn \<Rightarrow> snap_last_log_id (sn_meta sn) | _ \<Rightarrow> None)"

datatype ('l, 'c) io_condition =
    IOFlushed "('l, 'c) io_id"
  | LogFlushed "'c log_id"
  | Applied "'c log_id"
  | SnapshotAt "'c log_id"

datatype ('n, 'l, 'c, 'm, 'e) respond =
    RespondVote "('l, 'c) vote_response" nat
  | RespondAppendEntries "('l, 'c) append_error + 'c log_id option" nat
  | RespondInstallFullSnapshot "'l vote" nat
  | RespondInitialize "('n, 'l, 'c, 'm, 'e) initialize_error + unit" nat

datatype ('n, 'nd, 'l, 'c, 'm, 'd, 's, 'e) command =
    UpdateIOProgress "('l, 'c) io_condition option" "('l, 'c) io_id"
  | AppendEntries "'l committed_vote" "('c, 'd, 'm) entry list"
  | ReplicateCommitted "'c log_id option"
  | BroadcastHeartbeat "('l, 'c) replication_session_id" bool
  | SaveCommittedAndApply "'c log_id option" "'c log_id"
  | Replicate 'n "'c replicate"
  | ReplicateSnapshot "'l committed_vote" 'n nat
  | BroadcastTransferLeader "('n, 'l, 'c) transfer_leader_request"
  | CloseReplicationStreams
  | FailPendingReads
  | RebuildReplicationStreams "'l committed_vote" "('n, 'nd, 'c) target_progress list" bool
  | SaveVote "'l vote"
  | SendVote "('l, 'c) vote_request"
  | SendPreVote "('l, 'c) vote_request"
  | PurgeLog "'c log_id"
  | TruncateLog "'c log_id option"
  | StateMachine "('l, 'c, 'm, 's) sm_command"
  | Respond "('l, 'c) io_condition option" "('n, 'l, 'c, 'm, 'e) respond"

datatype command_kind = KLog | KNetwork | KStateMachine | KMain | KRespond

fun command_kind_of :: "('n, 'nd, 'l, 'c, 'm, 'd, 's, 'e) command \<Rightarrow> command_kind" where
  "command_kind_of CloseReplicationStreams = KMain"
| "command_kind_of FailPendingReads = KMain"
| "command_kind_of (RebuildReplicationStreams _ _ _) = KMain"
| "command_kind_of (Respond _ _) = KRespond"
| "command_kind_of (UpdateIOProgress _ _) = KLog"
| "command_kind_of (AppendEntries _ _) = KLog"
| "command_kind_of (SaveVote _) = KLog"
| "command_kind_of (TruncateLog _) = KLog"
| "command_kind_of (PurgeLog _) = KLog"
| "command_kind_of (ReplicateCommitted _) = KNetwork"
| "command_kind_of (BroadcastHeartbeat _ _) = KNetwork"
| "command_kind_of (Replicate _ _) = KNetwork"
| "command_kind_of (ReplicateSnapshot _ _ _) = KNetwork"
| "command_kind_of (BroadcastTransferLeader _) = KNetwork"
| "command_kind_of (SendVote _) = KNetwork"
| "command_kind_of (SendPreVote _) = KNetwork"
| "command_kind_of (SaveCommittedAndApply _ _) = KStateMachine"
| "command_kind_of (StateMachine _) = KStateMachine"

definition command_condition ::
  "('n, 'nd, 'l, 'c, 'm, 'd, 's, 'e) command \<Rightarrow> ('l, 'c) io_condition option" where
  "command_condition cmd =
     (case cmd of
        Respond cond _ \<Rightarrow> cond
      | UpdateIOProgress cond _ \<Rightarrow> cond
      | PurgeLog up_to \<Rightarrow> Some (SnapshotAt up_to)
      | _ \<Rightarrow> None)"

definition is_satisfied_by :: "('a \<Rightarrow> 'a \<Rightarrow> bool) \<Rightarrow> 'a \<Rightarrow> 'a option \<Rightarrow> bool" where
  "is_satisfied_by ge expected actual = (case actual of None \<Rightarrow> False | Some actual \<Rightarrow> ge actual expected)"

definition io_ge :: "('t, 'n, 'l, 'c::linorder) leader_id_ops \<Rightarrow> ('l, 'c) io_id \<Rightarrow> ('l, 'c) io_id \<Rightarrow> bool" where
  "io_ge L a b = is_ge (io_partial_cmp L a b)"

definition is_met ::
  "('t, 'n, 'l, 'c::linorder) leader_id_ops \<Rightarrow> ('l, 'c) io_condition \<Rightarrow> ('l, 'c) io_state \<Rightarrow> bool" where
  "is_met L cond io =
     (case cond of
        IOFlushed io_id \<Rightarrow> is_satisfied_by (io_ge L) io_id (flushed (log_progress io))
      | LogFlushed log_id \<Rightarrow> is_satisfied_by (\<ge>) log_id (Option.bind (flushed (log_progress io)) io_last_log_id)
      | Applied log_id \<Rightarrow> is_satisfied_by (\<ge>) log_id (flushed (apply_progress io))
      | SnapshotAt log_id \<Rightarrow> is_satisfied_by (\<ge>) log_id (flushed (snapshot_progress io)))"

section \<open>Responses that wait for I/O\<close>

record ('n, 'l, 'c, 'm, 'e) pending_responds =
  on_log_io :: "(('l, 'c) io_id \<times> ('n, 'l, 'c, 'm, 'e) respond) list"
  on_log_flush :: "('c log_id \<times> ('n, 'l, 'c, 'm, 'e) respond) list"
  on_apply :: "('c log_id \<times> ('n, 'l, 'c, 'm, 'e) respond) list"
  on_snapshot :: "('c log_id \<times> ('n, 'l, 'c, 'm, 'e) respond) list"

definition pending_responds_new :: "('n, 'l, 'c, 'm, 'e) pending_responds" where
  "pending_responds_new = \<lparr>on_log_io = [], on_log_flush = [], on_apply = [], on_snapshot = []\<rparr>"

definition pop_if_satisfied ::
  "('v \<Rightarrow> 'v \<Rightarrow> bool) \<Rightarrow> ('v \<times> 'r) list \<Rightarrow> 'v \<Rightarrow> ('r \<times> ('v \<times> 'r) list) option" where
  "pop_if_satisfied ge queue actual =
     (case queue of
        [] \<Rightarrow> None
      | (wait_for, r) # rest \<Rightarrow> if ge actual wait_for then Some (r, rest) else None)"

datatype drain_phase = DrainLogIO | DrainLogFlush | DrainApply | DrainSnapshot | DrainDone

fun phase_rank :: "drain_phase \<Rightarrow> nat" where
  "phase_rank DrainLogIO = 4"
| "phase_rank DrainLogFlush = 3"
| "phase_rank DrainApply = 2"
| "phase_rank DrainSnapshot = 1"
| "phase_rank DrainDone = 0"

function drain_next ::
  "('t, 'n0, 'l, 'c::linorder) leader_id_ops \<Rightarrow> ('l, 'c) io_state \<Rightarrow> ('n, 'l, 'c, 'm, 'e) pending_responds \<Rightarrow> drain_phase \<Rightarrow>
   (drain_phase \<times> ('n, 'l, 'c, 'm, 'e) respond) option \<times> ('n, 'l, 'c, 'm, 'e) pending_responds \<times> drain_phase" where
  "drain_next L io p ph =
     (case ph of
        DrainLogIO \<Rightarrow>
          (case Option.bind (flushed (log_progress io)) (pop_if_satisfied (io_ge L) (on_log_io p)) of
             Some (r, rest) \<Rightarrow> (Some (ph, r), p\<lparr>on_log_io := rest\<rparr>, ph)
           | None \<Rightarrow> drain_next L io p DrainLogFlush)
      | DrainLogFlush \<Rightarrow>
          (case Option.bind (Option.bind (flushed (log_progress io)) io_last_log_id) (pop_if_satisfied (\<ge>) (on_log_flush p)) of
             Some (r, rest) \<Rightarrow> (Some (ph, r), p\<lparr>on_log_flush := rest\<rparr>, ph)
           | None \<Rightarrow> drain_next L io p DrainApply)
      | DrainApply \<Rightarrow>
          (case Option.bind (flushed (apply_progress io)) (pop_if_satisfied (\<ge>) (on_apply p)) of
             Some (r, rest) \<Rightarrow> (Some (ph, r), p\<lparr>on_apply := rest\<rparr>, ph)
           | None \<Rightarrow> drain_next L io p DrainSnapshot)
      | DrainSnapshot \<Rightarrow>
          (case Option.bind (flushed (snapshot_progress io)) (pop_if_satisfied (\<ge>) (on_snapshot p)) of
             Some (r, rest) \<Rightarrow> (Some (ph, r), p\<lparr>on_snapshot := rest\<rparr>, ph)
           | None \<Rightarrow> drain_next L io p DrainDone)
      | DrainDone \<Rightarrow> (None, p, ph))"
  by pat_completeness auto
termination by (relation "measure (\<lambda>(L, io, p, ph). phase_rank ph)") auto

declare drain_next.simps [simp del]

definition pending_count :: "('n, 'l, 'c, 'm, 'e) pending_responds \<Rightarrow> nat" where
  "pending_count p = length (on_log_io p) + length (on_log_flush p) + length (on_apply p) + length (on_snapshot p)"

lemma pop_if_satisfied_Some:
  "Option.bind a (pop_if_satisfied ge q) = Some (r, rest) \<longleftrightarrow>
   (\<exists>actual w. a = Some actual \<and> q = (w, r) # rest \<and> ge actual w)"
  by (cases a) (auto simp: pop_if_satisfied_def split: list.splits if_splits)

lemma drain_next_count:
  "drain_next L io p ph = (Some x, p', ph') \<Longrightarrow> pending_count p' < pending_count p"
proof (induction L io p ph rule: drain_next.induct)
  case (1 L io p ph)
  then show ?case
    by (subst (asm) drain_next.simps)
      (auto simp: pending_count_def pop_if_satisfied_Some simp del: Option.bind_assoc
        split: drain_phase.splits option.splits)
qed

text \<open>The loop over the iterator \<open>DrainSatisfied\<close>.\<close>

function drain_all ::
  "('t, 'n0, 'l, 'c::linorder) leader_id_ops \<Rightarrow> ('l, 'c) io_state \<Rightarrow> ('n, 'l, 'c, 'm, 'e) pending_responds \<Rightarrow> drain_phase \<Rightarrow>
   (drain_phase \<times> ('n, 'l, 'c, 'm, 'e) respond) list \<times> ('n, 'l, 'c, 'm, 'e) pending_responds" where
  "drain_all L io p ph =
     (case drain_next L io p ph of
        (None, p, _) \<Rightarrow> ([], p)
      | (Some x, p, ph) \<Rightarrow> (let (xs, p) = drain_all L io p ph in (x # xs, p)))"
  by pat_completeness auto
termination
  by (relation "measure (\<lambda>(L, io, p, ph). pending_count p)") (auto dest: drain_next_count[OF sym])

declare drain_all.simps [simp del]

text \<open>Each queue is popped from its front for as long as its cursor has reached the condition.\<close>

definition satisfied :: "('v \<Rightarrow> 'v \<Rightarrow> bool) \<Rightarrow> 'v option \<Rightarrow> ('v \<times> 'r) list \<Rightarrow> ('v \<times> 'r) list" where
  "satisfied ge actual queue =
     (case actual of None \<Rightarrow> [] | Some v \<Rightarrow> takeWhile (\<lambda>(wait_for, _). ge v wait_for) queue)"

definition unsatisfied :: "('v \<Rightarrow> 'v \<Rightarrow> bool) \<Rightarrow> 'v option \<Rightarrow> ('v \<times> 'r) list \<Rightarrow> ('v \<times> 'r) list" where
  "unsatisfied ge actual queue = drop (length (satisfied ge actual queue)) queue"

lemma satisfied_step:
  "Option.bind a (pop_if_satisfied ge q) = None \<Longrightarrow> satisfied ge a q = [] \<and> unsatisfied ge a q = q"
  "Option.bind a (pop_if_satisfied ge q) = Some (r, rest) \<Longrightarrow>
   \<exists>w. q = (w, r) # rest \<and> satisfied ge a q = (w, r) # satisfied ge a rest \<and> unsatisfied ge a q = unsatisfied ge a rest"
  by (cases a; auto simp: pop_if_satisfied_def satisfied_def unsatisfied_def split: list.splits if_splits)+

abbreviation tag :: "drain_phase \<Rightarrow> ('v \<times> 'r) list \<Rightarrow> (drain_phase \<times> 'r) list" where
  "tag ph q \<equiv> map (\<lambda>(_, r). (ph, r)) q"

lemma drain_done: "drain_all L io p DrainDone = ([], p)"
  by (simp add: drain_all.simps drain_next.simps)

text \<open>One phase: the loop moves to the next phase, or pops a response and stays.\<close>

lemma drain_all_skip:
  "drain_next L io p ph = drain_next L io p ph' \<Longrightarrow> drain_all L io p ph = drain_all L io p ph'"
  by (simp add: drain_all.simps[of L io p ph] drain_all.simps[of L io p ph'])

lemma drain_all_pop:
  "drain_next L io p ph = (Some x, p', ph) \<Longrightarrow>
   drain_all L io p ph = (x # fst (drain_all L io p' ph), snd (drain_all L io p' ph))"
  by (simp add: drain_all.simps[of L io p ph] split: prod.split)

lemma drain_phase_all:
  assumes skip: "\<And>p. Option.bind a (pop_if_satisfied ge (get p)) = None \<Longrightarrow> drain_next L io p ph = drain_next L io p ph'"
    and pop: "\<And>p r rest. Option.bind a (pop_if_satisfied ge (get p)) = Some (r, rest) \<Longrightarrow>
      drain_next L io p ph = (Some (ph, r), put rest p, ph)"
    and field: "\<And>q p. get (put q p) = q" "\<And>q q' p. put q (put q' p) = put q p" "\<And>p. put (get p) p = p"
  shows "drain_all L io p ph =
    (tag ph (satisfied ge a (get p)) @ fst (drain_all L io (put (unsatisfied ge a (get p)) p) ph'),
     snd (drain_all L io (put (unsatisfied ge a (get p)) p) ph'))"
proof (induction "get p" arbitrary: p)
  case Nil
  then have "Option.bind a (pop_if_satisfied ge (get p)) = None" by (cases a) (auto simp: pop_if_satisfied_def)
  then show ?case using satisfied_step(1)[of a ge "get p"] drain_all_skip[OF skip] by (simp add: field)
next
  case (Cons wr q)
  show ?case
  proof (cases "Option.bind a (pop_if_satisfied ge (get p))")
    case None
    then show ?thesis using satisfied_step(1)[of a ge "get p"] drain_all_skip[OF skip] by (simp add: field)
  next
    case (Some x)
    then obtain r rest where x: "Option.bind a (pop_if_satisfied ge (get p)) = Some (r, rest)" by (cases x) auto
    obtain w where w: "get p = (w, r) # rest" "satisfied ge a (get p) = (w, r) # satisfied ge a rest"
      "unsatisfied ge a (get p) = unsatisfied ge a rest"
      using satisfied_step(2)[OF x] by blast
    then have "q = get (put rest p)" using Cons.hyps(2) by (simp add: field)
    from Cons.hyps(1)[OF this] show ?thesis using w by (simp add: drain_all_pop[OF pop[OF x]] field)
  qed
qed

lemma drain_log_io:
  fixes L io p
  defines "p' \<equiv> p\<lparr>on_log_io := unsatisfied (io_ge L) (flushed (log_progress io)) (on_log_io p)\<rparr>"
  shows "drain_all L io p DrainLogIO =
    (tag DrainLogIO (satisfied (io_ge L) (flushed (log_progress io)) (on_log_io p)) @ fst (drain_all L io p' DrainLogFlush), snd (drain_all L io p' DrainLogFlush))"
  unfolding p'_def
  by (rule drain_phase_all[where get = on_log_io and put = "\<lambda>q p. p\<lparr>on_log_io := q\<rparr>"])
    (simp_all add: drain_next.simps del: Option.bind_assoc)

lemma drain_log_flush:
  fixes L io p
  defines "p' \<equiv> p\<lparr>on_log_flush := unsatisfied (\<ge>) (Option.bind (flushed (log_progress io)) io_last_log_id) (on_log_flush p)\<rparr>"
  shows "drain_all L io p DrainLogFlush =
    (tag DrainLogFlush (satisfied (\<ge>) (Option.bind (flushed (log_progress io)) io_last_log_id) (on_log_flush p)) @ fst (drain_all L io p' DrainApply), snd (drain_all L io p' DrainApply))"
  unfolding p'_def
  by (rule drain_phase_all[where get = on_log_flush and put = "\<lambda>q p. p\<lparr>on_log_flush := q\<rparr>"])
    (simp_all add: drain_next.simps del: Option.bind_assoc)

lemma drain_apply:
  fixes L io p
  defines "p' \<equiv> p\<lparr>on_apply := unsatisfied (\<ge>) (flushed (apply_progress io)) (on_apply p)\<rparr>"
  shows "drain_all L io p DrainApply =
    (tag DrainApply (satisfied (\<ge>) (flushed (apply_progress io)) (on_apply p)) @ fst (drain_all L io p' DrainSnapshot), snd (drain_all L io p' DrainSnapshot))"
  unfolding p'_def
  by (rule drain_phase_all[where get = on_apply and put = "\<lambda>q p. p\<lparr>on_apply := q\<rparr>"])
    (simp_all add: drain_next.simps del: Option.bind_assoc)

lemma drain_snapshot:
  fixes L io p
  defines "p' \<equiv> p\<lparr>on_snapshot := unsatisfied (\<ge>) (flushed (snapshot_progress io)) (on_snapshot p)\<rparr>"
  shows "drain_all L io p DrainSnapshot =
    (tag DrainSnapshot (satisfied (\<ge>) (flushed (snapshot_progress io)) (on_snapshot p)) @ fst (drain_all L io p' DrainDone), snd (drain_all L io p' DrainDone))"
  unfolding p'_def
  by (rule drain_phase_all[where get = on_snapshot and put = "\<lambda>q p. p\<lparr>on_snapshot := q\<rparr>"])
    (simp_all add: drain_next.simps del: Option.bind_assoc)

text \<open>What the loop sends, in the order it sends it, and what it leaves.\<close>

lemma drain_all_spec:
  "drain_all L io p DrainLogIO =
    (tag DrainLogIO (satisfied (io_ge L) (flushed (log_progress io)) (on_log_io p)) @
     tag DrainLogFlush (satisfied (\<ge>) (Option.bind (flushed (log_progress io)) io_last_log_id) (on_log_flush p)) @
     tag DrainApply (satisfied (\<ge>) (flushed (apply_progress io)) (on_apply p)) @
     tag DrainSnapshot (satisfied (\<ge>) (flushed (snapshot_progress io)) (on_snapshot p)),
     \<lparr>on_log_io = unsatisfied (io_ge L) (flushed (log_progress io)) (on_log_io p),
      on_log_flush = unsatisfied (\<ge>) (Option.bind (flushed (log_progress io)) io_last_log_id) (on_log_flush p),
      on_apply = unsatisfied (\<ge>) (flushed (apply_progress io)) (on_apply p),
      on_snapshot = unsatisfied (\<ge>) (flushed (snapshot_progress io)) (on_snapshot p)\<rparr>)"
  by (cases p) (simp add: drain_log_io drain_log_flush drain_apply drain_snapshot drain_done)

text \<open>
  A queue is in order when what comes later waits for no less.  Then the front of the queue holds
  every response whose condition is met.
\<close>

definition in_order :: "('v \<Rightarrow> 'v \<Rightarrow> bool) \<Rightarrow> ('v \<times> 'r) list \<Rightarrow> bool" where
  "in_order ge queue = sorted_wrt (\<lambda>x y. ge (fst y) (fst x)) queue"

definition is_due :: "('v \<Rightarrow> 'v \<Rightarrow> bool) \<Rightarrow> 'v option \<Rightarrow> 'v \<times> 'r \<Rightarrow> bool" where
  "is_due ge actual x = (case actual of None \<Rightarrow> False | Some v \<Rightarrow> ge v (fst x))"

lemma satisfied_in_order:
  fixes queue :: "('v \<times> 'r) list"
  assumes "in_order ge queue" "transp ge"
  shows "satisfied ge actual queue = filter (is_due ge actual) queue"
    "unsatisfied ge actual queue = filter (\<lambda>x. \<not> is_due ge actual x) queue"
proof -
  have "satisfied ge actual queue = filter (is_due ge actual) queue \<and>
    unsatisfied ge actual queue = filter (\<lambda>x. \<not> is_due ge actual x) queue"
  proof (cases actual)
    case None
    then show ?thesis by (simp add: satisfied_def unsatisfied_def is_due_def)
  next
    case (Some v)
    have "takeWhile (\<lambda>x. ge v (fst x)) queue = filter (\<lambda>x. ge v (fst x)) queue \<and>
      dropWhile (\<lambda>x. ge v (fst x)) queue = filter (\<lambda>x. \<not> ge v (fst x)) queue"
      using assms(1)
    proof (induction queue)
      case (Cons x queue)
      then have later: "\<forall>y \<in> set queue. ge (fst y) (fst x)" "in_order ge queue" by (simp_all add: in_order_def)
      show ?case
      proof (cases "ge v (fst x)")
        case False
        then have "\<forall>y \<in> set queue. \<not> ge v (fst y)" using later(1) transpD[OF assms(2)] by blast
        then have "filter (\<lambda>x. ge v (fst x)) queue = []" "filter (\<lambda>x. \<not> ge v (fst x)) queue = queue"
          by (simp_all add: filter_empty_conv)
        with False show ?thesis by simp
      qed (use Cons.IH later(2) in simp)
    qed simp
    moreover have "is_due ge (Some v) = (\<lambda>x :: 'v \<times> 'r. ge v (fst x))"
        "(\<lambda>(wait_for, _). ge v wait_for) = (\<lambda>x :: 'v \<times> 'r. ge v (fst x))"
      by (auto simp: is_due_def)
    ultimately show ?thesis
      unfolding Some satisfied_def unsatisfied_def option.case by (metis dropWhile_eq_drop)
  qed
  then show "satisfied ge actual queue = filter (is_due ge actual) queue"
    "unsatisfied ge actual queue = filter (\<lambda>x. \<not> is_due ge actual x) queue" by blast+
qed

context raft_leader_id
begin

lemma io_ge_iff: "io_ge L a b \<longleftrightarrow> io_le L b a"
proof -
  have "io_partial_cmp L a b = Some Greater \<longleftrightarrow> io_partial_cmp L b a = Some Less"
    using vote_cmp_Greater_iff[of "io_to_app_vote a" "io_to_app_vote b"] vote_cmp_Greater_iff[of "io_to_app_vote b" "io_to_app_vote a"]
    by (auto simp: io_partial_cmp_def vote_cmp_Equal_iff cmp_simps split: option.splits ordering.splits)
  moreover have "io_partial_cmp L a b = Some Equal \<longleftrightarrow> io_partial_cmp L b a = Some Equal"
    by (auto simp: io_partial_cmp_def vote_cmp_Equal_iff cmp_simps split: option.splits ordering.splits)
  ultimately show ?thesis by (auto simp: io_ge_def is_ge_def io_le_def)
qed

lemma io_ge_trans: "transp (io_ge L)"
  by (rule transpI) (auto simp: io_ge_iff io_le_iff intro: io_lt_trans)

end

text \<open>Queues in order are drained of exactly what is due.\<close>

lemma drain_in_order:
  fixes p :: "('n, 'l, 'c::linorder, 'm, 'e) pending_responds"
  assumes "raft_leader_id L" "in_order (io_ge L) (on_log_io p)" "in_order (\<ge>) (on_log_flush p)"
    "in_order (\<ge>) (on_apply p)" "in_order (\<ge>) (on_snapshot p)"
  shows "drain_all L io p DrainLogIO =
    (tag DrainLogIO (filter (is_due (io_ge L) (flushed (log_progress io))) (on_log_io p)) @
     tag DrainLogFlush (filter (is_due (\<ge>) (Option.bind (flushed (log_progress io)) io_last_log_id)) (on_log_flush p)) @
     tag DrainApply (filter (is_due (\<ge>) (flushed (apply_progress io))) (on_apply p)) @
     tag DrainSnapshot (filter (is_due (\<ge>) (flushed (snapshot_progress io))) (on_snapshot p)),
     \<lparr>on_log_io = filter (\<lambda>x. \<not> is_due (io_ge L) (flushed (log_progress io)) x) (on_log_io p),
      on_log_flush = filter (\<lambda>x. \<not> is_due (\<ge>) (Option.bind (flushed (log_progress io)) io_last_log_id) x) (on_log_flush p),
      on_apply = filter (\<lambda>x. \<not> is_due (\<ge>) (flushed (apply_progress io)) x) (on_apply p),
      on_snapshot = filter (\<lambda>x. \<not> is_due (\<ge>) (flushed (snapshot_progress io)) x) (on_snapshot p)\<rparr>)"
proof -
  have trans: "transp ((\<ge>) :: 'c log_id \<Rightarrow> 'c log_id \<Rightarrow> bool)" by (rule transpI) simp
  show ?thesis
    unfolding drain_all_spec satisfied_in_order[OF assms(2) raft_leader_id.io_ge_trans[OF assms(1)]]
      satisfied_in_order[OF assms(3) trans] satisfied_in_order[OF assms(4) trans] satisfied_in_order[OF assms(5) trans]
    by (rule refl)
qed

section \<open>The queue of commands\<close>

record ('n, 'nd, 'l, 'c, 'm, 'd, 's, 'e) engine_output =
  out_commands :: "('n, 'nd, 'l, 'c, 'm, 'd, 's, 'e) command list"
  out_pending_responds :: "('n, 'l, 'c, 'm, 'e) pending_responds"

definition engine_output_new :: "('n, 'nd, 'l, 'c, 'm, 'd, 's, 'e) engine_output" where
  "engine_output_new = \<lparr>out_commands = [], out_pending_responds = pending_responds_new\<rparr>"

definition out_push ::
  "('n, 'nd, 'l, 'c, 'm, 'd, 's, 'e) command \<Rightarrow> ('n, 'nd, 'l, 'c, 'm, 'd, 's, 'e) engine_output \<Rightarrow>
   ('n, 'nd, 'l, 'c, 'm, 'd, 's, 'e) engine_output" where
  "out_push cmd out = out\<lparr>out_commands := out_commands out @ [cmd]\<rparr>"

definition out_prepend ::
  "('n, 'nd, 'l, 'c, 'm, 'd, 's, 'e) command \<Rightarrow> ('n, 'nd, 'l, 'c, 'm, 'd, 's, 'e) engine_output \<Rightarrow>
   ('n, 'nd, 'l, 'c, 'm, 'd, 's, 'e) engine_output" where
  "out_prepend cmd out = out\<lparr>out_commands := cmd # out_commands out\<rparr>"

definition out_pop ::
  "('n, 'nd, 'l, 'c, 'm, 'd, 's, 'e) engine_output \<Rightarrow>
   ('n, 'nd, 'l, 'c, 'm, 'd, 's, 'e) command option \<times> ('n, 'nd, 'l, 'c, 'm, 'd, 's, 'e) engine_output" where
  "out_pop out =
     (case out_commands out of [] \<Rightarrow> (None, out) | cmd # rest \<Rightarrow> (Some cmd, out\<lparr>out_commands := rest\<rparr>))"

text \<open>
  Whether the command left the queue (\<open>Ok\<close>) or is at its front again (\<open>Err\<close>).  A response
  without a condition cannot be postponed: \<^const>\<open>None\<close> is the panic.
\<close>

definition postpone_command ::
  "('n, 'nd, 'l, 'c, 'm, 'd, 's, 'e) command \<Rightarrow> ('n, 'nd, 'l, 'c, 'm, 'd, 's, 'e) engine_output \<Rightarrow>
   ((string + unit) \<times> ('n, 'nd, 'l, 'c, 'm, 'd, 's, 'e) engine_output) option" where
  "postpone_command cmd out =
     (case cmd of
        Respond cond resp \<Rightarrow>
          (let p = out_pending_responds out
           in case cond of
                None \<Rightarrow> None
              | Some (IOFlushed io_id) \<Rightarrow>
                  Some (Inr (), out\<lparr>out_pending_responds := p\<lparr>on_log_io := on_log_io p @ [(io_id, resp)]\<rparr>\<rparr>)
              | Some (LogFlushed log_id) \<Rightarrow>
                  Some (Inr (), out\<lparr>out_pending_responds := p\<lparr>on_log_flush := on_log_flush p @ [(log_id, resp)]\<rparr>\<rparr>)
              | Some (Applied log_id) \<Rightarrow>
                  Some (Inr (), out\<lparr>out_pending_responds := p\<lparr>on_apply := on_apply p @ [(log_id, resp)]\<rparr>\<rparr>)
              | Some (SnapshotAt log_id) \<Rightarrow>
                  Some (Inr (), out\<lparr>out_pending_responds := p\<lparr>on_snapshot := on_snapshot p @ [(log_id, resp)]\<rparr>\<rparr>))
      | _ \<Rightarrow> Some (Inl ''Put back to the front of command queue'', out_prepend cmd out))"

text \<open>Merging the writes at the front of the queue.\<close>

fun merge_append_loop ::
  "nat \<Rightarrow> 'l committed_vote \<Rightarrow> ('c, 'd, 'm) entry list \<Rightarrow> ('n, 'nd, 'l, 'c, 'm, 'd, 's, 'e) command list \<Rightarrow>
   ('n, 'nd, 'l, 'c, 'm, 'd, 's, 'e) command list" where
  "merge_append_loop max_entries v entries (AppendEntries next_vote next_entries # rest) =
     (if next_vote = v \<and> length entries + length next_entries \<le> max_entries
      then merge_append_loop max_entries v (entries @ next_entries) rest
      else AppendEntries v entries # AppendEntries next_vote next_entries # rest)"
| "merge_append_loop max_entries v entries rest = AppendEntries v entries # rest"

definition merge_front_append_entries ::
  "nat \<Rightarrow> ('n, 'nd, 'l, 'c, 'm, 'd, 's, 'e) engine_output \<Rightarrow> ('n, 'nd, 'l, 'c, 'm, 'd, 's, 'e) engine_output" where
  "merge_front_append_entries max_entries out =
     (case out_commands out of
        AppendEntries v entries # rest \<Rightarrow> out\<lparr>out_commands := merge_append_loop max_entries v entries rest\<rparr>
      | _ \<Rightarrow> out)"

text \<open>Merging keeps every write and every other command, in order.\<close>

definition flat_command ::
  "('n, 'nd, 'l, 'c, 'm, 'd, 's, 'e) command \<Rightarrow>
   ('l committed_vote \<times> ('c, 'd, 'm) entry + ('n, 'nd, 'l, 'c, 'm, 'd, 's, 'e) command) list" where
  "flat_command cmd = (case cmd of AppendEntries v entries \<Rightarrow> map (\<lambda>x. Inl (v, x)) entries | _ \<Rightarrow> [Inr cmd])"

lemma merge_append_loop_flat:
  "concat (map flat_command (merge_append_loop n v entries cmds)) =
   map (\<lambda>x. Inl (v, x)) entries @ concat (map flat_command cmds)"
  by (induction n v entries cmds rule: merge_append_loop.induct) (auto simp: flat_command_def)

lemma merge_front_flat:
  "concat (map flat_command (out_commands (merge_front_append_entries n out))) =
   concat (map flat_command (out_commands out))"
  by (auto simp: merge_front_append_entries_def merge_append_loop_flat flat_command_def
      split: list.split command.split)

lemma merge_append_loop_bound:
  "\<exists>es rest. merge_append_loop n v entries cmds = AppendEntries v es # rest \<and>
     (es = entries \<or> length es \<le> n) \<and> length rest \<le> length cmds"
  by (induction n v entries cmds rule: merge_append_loop.induct) force+

text \<open>A limit of zero stops all merging of writes that carry entries.\<close>

lemma merge_zero:
  "entries \<noteq> [] \<Longrightarrow> merge_append_loop 0 v entries cmds = AppendEntries v entries # cmds"
  by (cases "(0 :: nat, v, entries, cmds)" rule: merge_append_loop.cases) auto

end
