(* ===== verification/Handlers.thy ===== *)
theory Handlers
  imports Commands
begin

text \<open>
  The handlers of the engine (\<open>engine/handler\<close>) for the server state, the log, snapshots, a
  following node, replication and a leading node.  A handler borrows parts of the engine: here it is
  a function of the engine.  The clock is the argument \<open>now\<close>, one reading for a whole call.  A
  function that may panic returns \<^const>\<open>None\<close> then; \<open>debug_assert\<close> is not part of a release build.
\<close>

section \<open>The state of the engine\<close>

record ('n, 'nd, 'l, 'c, 'm, 'd, 's, 'e, 'pp, 'cp, 'gp) engine =
  en_config :: "'n engine_config"
  en_state :: "('l, 'c, 'm) raft_state"
  seen_greater_log :: "'c log_id option"
  en_leader :: "('n, 'l, 'c, 'pp, 'cp) leader option"
  en_candidate :: "('l, 'c, 'm, 'gp) candidate option"
  en_pre_candidate :: "('l, 'c, 'm, 'gp) candidate option"
  en_output :: "('n, 'nd, 'l, 'c, 'm, 'd, 's, 'e) engine_output"

definition push_command ::
  "_ \<Rightarrow> (_, _, _, _, _, _, _, _, _, _, _) engine \<Rightarrow> (_, _, _, _, _, _, _, _, _, _, _) engine" where
  "push_command cmd e = e\<lparr>en_output := out_push cmd (en_output e)\<rparr>"

definition prepend_command ::
  "_ \<Rightarrow> (_, _, _, _, _, _, _, _, _, _, _) engine \<Rightarrow> (_, _, _, _, _, _, _, _, _, _, _) engine" where
  "prepend_command cmd e = e\<lparr>en_output := out_prepend cmd (en_output e)\<rparr>"

abbreviation own_id :: "('n, 'nd, 'l, 'c, 'm, 'd, 's, 'e, 'pp, 'cp, 'gp) engine \<Rightarrow> 'n" where
  "own_id e \<equiv> ec_id (en_config e)"

definition set_state ::
  "('l, 'c, 'm) raft_state \<Rightarrow> ('n, 'nd, 'l, 'c, 'm, 'd, 's, 'e, 'pp, 'cp, 'gp) engine \<Rightarrow>
   ('n, 'nd, 'l, 'c, 'm, 'd, 's, 'e, 'pp, 'cp, 'gp) engine" where
  "set_state s e = e\<lparr>en_state := s\<rparr>"

section \<open>Server state\<close>

definition update_server_state_if_changed ::
  "('n, 'nd, 'l, 'c, 'm, 'q, 'pp, 'cp, 'gp) raft_type_config \<Rightarrow>
   ('n, 'nd, 'l, 'c, 'm, 'd, 's, 'e, 'pp, 'cp, 'gp) engine \<Rightarrow> (_, _, _, _, _, _, _, _, _, _, _) engine" where
  "update_server_state_if_changed C e =
     (let server_state = calc_server_state (tc_lid C) (tc_mem C) (en_state e) (own_id e)
      in if st_server_state (en_state e) = server_state then e
         else set_state ((en_state e)\<lparr>st_server_state := server_state\<rparr>) e)"

section \<open>Log\<close>

definition purge_log ::
  "('n, 'nd, 'l, 'c::linorder, 'm, 'd, 's, 'e, 'pp, 'cp, 'gp) engine \<Rightarrow> (_, _, _, _, _, _, _, _, _, _, _) engine" where
  "purge_log e =
     (let st = en_state e
      in if st_purge_upto st \<le> last_purged_log_id st then e
         else (case st_purge_upto st of
                 None \<Rightarrow> e
               | Some up_to \<Rightarrow> push_command (PurgeLog up_to) (set_state (accept_purge st up_to) e)))"

definition update_purge_upto ::
  "'c log_id \<Rightarrow> ('n, 'nd, 'l, 'c, 'm, 'd, 's, 'e, 'pp, 'cp, 'gp) engine \<Rightarrow> (_, _, _, _, _, _, _, _, _, _, _) engine" where
  "update_purge_upto up_to e = set_state ((en_state e)\<lparr>st_purge_upto := Some up_to\<rparr>) e"

definition calc_purge_upto ::
  "('n, 'nd, 'l, 'c, 'm, 'd, 's, 'e, 'pp, 'cp, 'gp) engine \<Rightarrow> 'c log_id option" where
  "calc_purge_upto e =
     (let st = en_state e;
          max_keep = max_in_snapshot_log_to_keep (en_config e);
          batch_size = purge_batch_size (en_config e);
          purge_end = next_index (snap_last_log_id (st_snapshot_meta st)) - max_keep
      in if wrapping_add (next_index (last_purged_log_id st)) batch_size > purge_end then None
         else ref_at (st_log_ids st) (wrapping_sub purge_end 1))"

definition schedule_policy_based_purge ::
  "('n, 'nd, 'l, 'c::linorder, 'm, 'd, 's, 'e, 'pp, 'cp, 'gp) engine \<Rightarrow> (_, _, _, _, _, _, _, _, _, _, _) engine" where
  "schedule_policy_based_purge e =
     (case calc_purge_upto e of
        None \<Rightarrow> e
      | Some up_to \<Rightarrow> if st_purge_upto (en_state e) < Some up_to then update_purge_upto up_to e else e)"

section \<open>Snapshots\<close>

definition set_building_snapshot :: "bool \<Rightarrow> ('l, 'c, 'm) raft_state \<Rightarrow> ('l, 'c, 'm) raft_state" where
  "set_building_snapshot b s = s\<lparr>st_io_state := (st_io_state s)\<lparr>building_snapshot := b\<rparr>\<rparr>"

definition trigger_snapshot ::
  "('n, 'nd, 'l, 'c, 'm, 'd, 's, 'e, 'pp, 'cp, 'gp) engine \<Rightarrow> bool \<times> (_, _, _, _, _, _, _, _, _, _, _) engine" where
  "trigger_snapshot e =
     (if building_snapshot (st_io_state (en_state e)) then (False, e)
      else (True, push_command (StateMachine BuildSnapshot) (set_state (set_building_snapshot True (en_state e)) e)))"

definition update_snapshot ::
  "('c, 'm) snapshot_meta \<Rightarrow> ('n, 'nd, 'l, 'c::linorder, 'm, 'd, 's, 'e, 'pp, 'cp, 'gp) engine \<Rightarrow>
   bool \<times> (_, _, _, _, _, _, _, _, _, _, _) engine" where
  "update_snapshot meta e =
     (if snap_last_log_id meta \<le> snapshot_last_log_id (en_state e) then (False, e)
      else (True, set_state ((en_state e)\<lparr>st_snapshot_meta := meta\<rparr>) e))"

section \<open>Following a leader\<close>

text \<open>\<open>lv\<close> is the committed vote of the leader that the handler was created for.\<close>

datatype ('l, 'c) reject_append_entries =
    RejectVote "'l vote"
  | ConflictingLogId "'c log_id option" "'c log_id"

definition truncate_logs ::
  "('n, 'nd, 'l, 'c, 'm, 'q, 'pp, 'cp, 'gp) raft_type_config \<Rightarrow> nat \<Rightarrow>
   ('n, 'nd, 'l, 'c, 'm, 'd, 's, 'e, 'pp, 'cp, 'gp) engine \<Rightarrow> (_, _, _, _, _, _, _, _, _, _, _) engine" where
  "truncate_logs C since e =
     (let st = en_state e
      in if get_log_id st since = None then e
         else
           (let after = prev_log_id st since;
                e = set_state (st\<lparr>st_log_ids := log_truncate (st_log_ids st) since\<rparr>) e;
                e = push_command (TruncateLog after) e;
                (ms, changed) = ms_truncate (st_membership_state (en_state e)) since;
                e = set_state ((en_state e)\<lparr>st_membership_state := ms\<rparr>) e
            in case changed of None \<Rightarrow> e | Some _ \<Rightarrow> update_server_state_if_changed C e))"

fun last_two_loop ::
  "('c, 'm) stored_membership list \<Rightarrow> ('c, 'd, 'm) entry list \<Rightarrow> ('c, 'm) stored_membership list" where
  "last_two_loop acc [] = acc"
| "last_two_loop acc (ent # rest) =
     (case get_membership (ent_payload ent) of
        None \<Rightarrow> last_two_loop acc rest
      | Some m \<Rightarrow>
          (let acc = \<lparr>sm_log_id = Some (ent_log_id ent), sm_membership = m\<rparr> # acc
           in if length acc = 2 then acc else last_two_loop acc rest))"

definition last_two_memberships :: "('c, 'd, 'm) entry list \<Rightarrow> ('c, 'm) stored_membership list" where
  "last_two_memberships entries = last_two_loop [] (rev entries)"

definition follower_append_membership ::
  "('n, 'nd, 'l, 'c, 'm, 'q, 'pp, 'cp, 'gp) raft_type_config \<Rightarrow> ('c, 'd, 'm) entry list \<Rightarrow>
   ('n, 'nd, 'l, 'c, 'm, 'd, 's, 'e, 'pp, 'cp, 'gp) engine \<Rightarrow> (_, _, _, _, _, _, _, _, _, _, _) engine" where
  "follower_append_membership C entries e =
     (let memberships = last_two_memberships entries
      in if memberships = [] then e
         else
           (let st = en_state e;
                ms = fold (\<lambda>m s. ms_append s m) memberships (st_membership_state st)
            in update_server_state_if_changed C (set_state (st\<lparr>st_membership_state := ms\<rparr>) e)))"

definition do_append_entries ::
  "('n, 'nd, 'l, 'c, 'm, 'q, 'pp, 'cp, 'gp) raft_type_config \<Rightarrow> 'l committed_vote \<Rightarrow> ('c, 'd, 'm) entry list \<Rightarrow>
   ('n, 'nd, 'l, 'c, 'm, 'd, 's, 'e, 'pp, 'cp, 'gp) engine \<Rightarrow> (_, _, _, _, _, _, _, _, _, _, _) engine" where
  "do_append_entries C lv entries e =
     (let e = set_state (extend_log_ids (en_state e) (map ent_log_id entries)) e;
          e = follower_append_membership C entries e
      in push_command (AppendEntries lv entries) e)"

definition follower_append_entries ::
  "('n, 'nd, 'l, 'c::linorder, 'm, 'q, 'pp, 'cp, 'gp) raft_type_config \<Rightarrow> 'l committed_vote \<Rightarrow> 'c log_id option \<Rightarrow>
   ('c, 'd, 'm) entry list \<Rightarrow> ('n, 'nd, 'l, 'c, 'm, 'd, 's, 'e, 'pp, 'cp, 'gp) engine \<Rightarrow>
   (_, _, _, _, _, _, _, _, _, _, _) engine" where
  "follower_append_entries C lv prev entries e =
     (let lst = max prev (map_option ent_log_id (last_opt entries));
          (prev_accepted, st) = accept_log_io (tc_lid C) (en_state e) (io_id_new_log_io lv lst);
          e = set_state st e;
          l = length entries;
          since = first_conflicting_index (en_state e) (map ent_log_id entries)
      in if since < l then
           do_append_entries C lv (drop since entries) (truncate_logs C (idx (ent_log_id (entries ! since))) e)
         else
           (let to_submit = io_id_new_log_io lv lst
            in if opt_le (io_le (tc_lid C)) (Some to_submit) prev_accepted then e
               else push_command (UpdateIOProgress (map_option IOFlushed prev_accepted) to_submit) e))"

definition ensure_log_consecutive ::
  "('n, 'nd, 'l, 'c::linorder, 'm, 'q, 'pp, 'cp, 'gp) raft_type_config \<Rightarrow> 'c log_id option \<Rightarrow>
   ('n, 'nd, 'l, 'c, 'm, 'd, 's, 'e, 'pp, 'cp, 'gp) engine \<Rightarrow>
   (('l, 'c) reject_append_entries + unit) \<times> (_, _, _, _, _, _, _, _, _, _, _) engine" where
  "ensure_log_consecutive C prev_log e =
     (case prev_log of
        None \<Rightarrow> (Inr (), e)
      | Some prev \<Rightarrow>
          if \<not> has_log_id (en_state e) prev then
            (let local = get_log_id (en_state e) (idx prev)
             in (Inl (ConflictingLogId local prev), truncate_logs C (idx prev) e))
          else (Inr (), e))"

definition MAX_CONFLICT_HINT_LOG_IDS :: nat where
  "MAX_CONFLICT_HINT_LOG_IDS = 8"

definition conflict_hint :: "('n, 'nd, 'l, 'c, 'm, 'd, 's, 'e, 'pp, 'cp, 'gp) engine \<Rightarrow> 'c log_id list" where
  "conflict_hint e =
     (let committed = local_committed (en_state e);
          committed_next = next_index committed;
          boundaries = key_log_ids (st_log_ids (en_state e));
          committed_end = length (takeWhile (\<lambda>x. idx x < committed_next) boundaries);
          recent_start = length boundaries - (MAX_CONFLICT_HINT_LOG_IDS - 1);
          start = max committed_end recent_start
      in (case committed of None \<Rightarrow> [] | Some x \<Rightarrow> [x]) @ drop start boundaries)"

definition membership_install_snapshot ::
  "('n, 'nd, 'l, 'c::linorder, 'm, 'q, 'pp, 'cp, 'gp) raft_type_config \<Rightarrow> ('c, 'm) stored_membership \<Rightarrow> nat \<Rightarrow>
   ('n, 'nd, 'l, 'c, 'm, 'd, 's, 'e, 'pp, 'cp, 'gp) engine \<Rightarrow> (_, _, _, _, _, _, _, _, _, _, _) engine" where
  "membership_install_snapshot C m i e =
     (let st = en_state e;
          ms = install_membership_snapshot (st_membership_state st) m i
      in update_server_state_if_changed C (set_state (st\<lparr>st_membership_state := ms\<rparr>) e))"

text \<open>The cursors that an installed snapshot moves.\<close>

definition accept_snapshot_io :: "'c log_id \<Rightarrow> ('l, 'c, 'm) raft_state \<Rightarrow> ('l, 'c, 'm) raft_state" where
  "accept_snapshot_io x s =
     s\<lparr>st_io_state := (st_io_state s)\<lparr>apply_progress := io_accept (apply_progress (st_io_state s)) x,
                                     snapshot_progress := io_accept (snapshot_progress (st_io_state s)) x\<rparr>\<rparr>"

definition install_full_snapshot ::
  "('n, 'nd, 'l, 'c::linorder, 'm, 'q, 'pp, 'cp, 'gp) raft_type_config \<Rightarrow> 'l committed_vote \<Rightarrow> ('c, 'm, 's) snapshot \<Rightarrow>
   ('n, 'nd, 'l, 'c, 'm, 'd, 's, 'e, 'pp, 'cp, 'gp) engine \<Rightarrow>
   (('l, 'c) io_condition option \<times> (_, _, _, _, _, _, _, _, _, _, _) engine) option" where
  "install_full_snapshot C lv snapshot e =
     (let meta = sn_meta snapshot
      in if snap_last_log_id meta \<le> local_committed (en_state e) then Some (None, e)
         else
           do {
             snap_last \<leftarrow> snap_last_log_id meta;
             if \<not> clid snap_last \<le> cv_committed_leader_id (tc_lid C) lv then None
             else if (case local_committed (en_state e) of None \<Rightarrow> False | Some committed \<Rightarrow> \<not> idx snap_last > idx committed)
             then None
             else
               (case update_snapshot meta e of
                  (False, e) \<Rightarrow> Some (None, e)
                | (True, e) \<Rightarrow>
                    (let local = get_log_id (en_state e) (idx snap_last);
                         e = (if local \<noteq> None \<and> local \<noteq> Some snap_last
                              then truncate_logs C (next_index (local_committed (en_state e))) e else e);
                         log_io = LogIOId lv (Some snap_last);
                         e = set_state (snd (accept_log_io (tc_lid C) (en_state e) (IOLog log_io))) e;
                         e = set_state (accept_snapshot_io snap_last (en_state e)) e;
                         e = membership_install_snapshot C (snap_last_membership meta) (idx snap_last) e;
                         e = push_command (StateMachine (InstallFullSnapshot log_io snapshot)) e;
                         e = set_state ((en_state e)\<lparr>st_purge_upto := Some snap_last\<rparr>) e
                     in Some (Some (SnapshotAt snap_last), purge_log e)))
           })"

section \<open>Replication\<close>

text \<open>The handler exists only for a node that has a leader: \<^const>\<open>None\<close> is the panic without one.\<close>

definition MAX_ENTRIES_PER_PROBE :: nat where
  "MAX_ENTRIES_PER_PROBE = 8"

definition set_leader ::
  "('n, 'l, 'c, 'pp, 'cp) leader \<Rightarrow> ('n, 'nd, 'l, 'c, 'm, 'd, 's, 'e, 'pp, 'cp, 'gp) engine \<Rightarrow>
   (_, _, _, _, _, _, _, _, _, _, _) engine" where
  "set_leader ld e = e\<lparr>en_leader := Some ld\<rparr>"

definition effective_membership :: "('n, 'nd, 'l, 'c, 'm, 'd, 's, 'e, 'pp, 'cp, 'gp) engine \<Rightarrow> ('c, 'm) stored_membership" where
  "effective_membership e = ms_effective (st_membership_state (en_state e))"

definition rebuild_progresses ::
  "('n, 'nd, 'l, 'c, 'm, 'q, 'pp, 'cp, 'gp) raft_type_config \<Rightarrow>
   ('n, 'nd, 'l, 'c, 'm, 'd, 's, 'e, 'pp, 'cp, 'gp) engine \<Rightarrow> (_, _, _, _, _, _, _, _, _, _, _) engine option" where
  "rebuild_progresses C e =
     do {
       ld \<leftarrow> en_leader e;
       let em = sm_membership (effective_membership e);
       let non_write_voter_ids = mem_non_write_voter_ids (tc_mem C) em;
       let wq = write_quorum_set (tc_mem C) em;
       let end_index = next_index (last_log_id (en_state e));
       let start = idx (noop_log_id ld);
       let (progress, id_gen) =
         pp_upgrade_quorum_set (tc_progress C) (ld_progress ld) wq non_write_voter_ids (fresh_entry end_index start)
           (progress_id_gen (en_state e));
       let clock = cp_upgrade_quorum_set (tc_clock C) (clock_progress ld) wq non_write_voter_ids;
       let ld = update_self_quorum C (ld\<lparr>ld_progress := progress, clock_progress := clock\<rparr>);
       Some (set_leader ld (set_state ((en_state e)\<lparr>progress_id_gen := id_gen\<rparr>) e))
     }"

text \<open>The targets of the streams, and the entries with their requests dropped when old streams close.\<close>

fun rebuild_targets ::
  "('n, 'nd, 'm, 'q) membership_ops \<Rightarrow> ('c, 'm) stored_membership \<Rightarrow> 'n \<Rightarrow> bool \<Rightarrow> ('n, 'c) progress_entry list \<Rightarrow>
   (('n, 'c) progress_entry list \<times> ('n, 'nd, 'c) target_progress list) option" where
  "rebuild_targets M membership nid close_old [] = Some ([], [])"
| "rebuild_targets M membership nid close_old (item # rest) =
     (if pe_id item \<noteq> nid then
        do {
          let item = (if close_old then set_inflight InflightNone item else item);
          target_node \<leftarrow> stored_get_node M membership (pe_id item);
          (items, targets) \<leftarrow> rebuild_targets M membership nid close_old rest;
          Some (item # items, \<lparr>tp_target = pe_id item, tp_target_node = target_node, tp_progress = item\<rparr> # targets)
        }
      else map_option (\<lambda>(items, targets). (item # items, targets)) (rebuild_targets M membership nid close_old rest))"

definition rebuild_replication_streams ::
  "('n, 'nd, 'l, 'c, 'm, 'q, 'pp, 'cp, 'gp) raft_type_config \<Rightarrow> bool \<Rightarrow>
   ('n, 'nd, 'l, 'c, 'm, 'd, 's, 'e, 'pp, 'cp, 'gp) engine \<Rightarrow> (_, _, _, _, _, _, _, _, _, _, _) engine option" where
  "rebuild_replication_streams C close_old e =
     do {
       ld \<leftarrow> en_leader e;
       (items, targets) \<leftarrow>
         rebuild_targets (tc_mem C) (effective_membership e) (own_id e) close_old (pp_iter (tc_progress C) (ld_progress ld));
       let ld = ld\<lparr>ld_progress := pp_write_back (tc_progress C) (ld_progress ld) items\<rparr>;
       Some (push_command (RebuildReplicationStreams (ld_committed_vote ld) targets close_old) (set_leader ld e))
     }"

definition send_to_target ::
  "('n, 'nd, 'l, 'c, 'm, 'd, 's, 'e) engine_output \<Rightarrow> 'l committed_vote \<Rightarrow> 'n \<Rightarrow> 'c inflight \<Rightarrow>
   ('n, 'nd, 'l, 'c, 'm, 'd, 's, 'e) engine_output option" where
  "send_to_target out leader_vote target fl =
     (case fl of
        InflightNone \<Rightarrow> None
      | Probe r i \<Rightarrow> Some (out_push (Replicate target (replicate_new_probe r i)) out)
      | SendSnapshot i \<Rightarrow> Some (out_push (ReplicateSnapshot leader_vote target i) out)
      | LogsSince prev i \<Rightarrow> Some (out_push (Replicate target (replicate_new_logs_since prev i)) out))"

fun initiate_loop ::
  "('n, 'nd, 'm, 'q) membership_ops \<Rightarrow> 'm \<Rightarrow> 'n \<Rightarrow> 'l committed_vote \<Rightarrow> ('l, 'c::linorder, 'm) raft_state \<Rightarrow>
   ('n, 'nd, 'l, 'c, 'm, 'd, 's, 'e) engine_output \<Rightarrow> ('n, 'c) progress_entry list \<Rightarrow>
   (('n, 'c) progress_entry list \<times> ('l, 'c, 'm) raft_state \<times> ('n, 'nd, 'l, 'c, 'm, 'd, 's, 'e) engine_output) option" where
  "initiate_loop M membership nid lv s out [] = Some ([], s, out)"
| "initiate_loop M membership nid lv s out (item # rest) =
     (if pe_id item = nid \<or> \<not> mem_receives_logs M membership (pe_id item) then
        map_option (\<lambda>(items, so). (item # items, so)) (initiate_loop M membership nid lv s out rest)
      else
        (case next_send item s MAX_ENTRIES_PER_PROBE of
           (Inr fl, item, s) \<Rightarrow>
             do {
               out \<leftarrow> send_to_target out lv (pe_id item) fl;
               (items, so) \<leftarrow> initiate_loop M membership nid lv s out rest;
               Some (item # items, so)
             }
         | (Inl _, item, s) \<Rightarrow>
             map_option (\<lambda>(items, so). (item # items, so)) (initiate_loop M membership nid lv s out rest)))"

definition initiate_replication ::
  "('n, 'nd, 'l, 'c::linorder, 'm, 'q, 'pp, 'cp, 'gp) raft_type_config \<Rightarrow>
   ('n, 'nd, 'l, 'c, 'm, 'd, 's, 'e, 'pp, 'cp, 'gp) engine \<Rightarrow> (_, _, _, _, _, _, _, _, _, _, _) engine option" where
  "initiate_replication C e =
     do {
       ld \<leftarrow> en_leader e;
       (items, s, out) \<leftarrow>
         initiate_loop (tc_mem C) (sm_membership (effective_membership e)) (own_id e) (ld_committed_vote ld)
           (en_state e) (en_output e) (pp_iter (tc_progress C) (ld_progress ld));
       let ld = ld\<lparr>ld_progress := pp_write_back (tc_progress C) (ld_progress ld) items\<rparr>;
       Some (set_leader ld (e\<lparr>en_state := s, en_output := out\<rparr>))
     }"

definition leader_append_membership ::
  "('n, 'nd, 'l, 'c::linorder, 'm, 'q, 'pp, 'cp, 'gp) raft_type_config \<Rightarrow> 'c log_id \<Rightarrow> 'm \<Rightarrow>
   ('n, 'nd, 'l, 'c, 'm, 'd, 's, 'e, 'pp, 'cp, 'gp) engine \<Rightarrow> (_, _, _, _, _, _, _, _, _, _, _) engine option" where
  "leader_append_membership C log_id m e =
     (let st = en_state e;
          ms = ms_append (st_membership_state st) \<lparr>sm_log_id = Some log_id, sm_membership = m\<rparr>
      in do {
           e \<leftarrow> rebuild_progresses C (set_state (st\<lparr>st_membership_state := ms\<rparr>) e);
           e \<leftarrow> rebuild_replication_streams C False e;
           initiate_replication C e
         })"

definition try_update_leader_clock ::
  "('n, 'nd, 'l, 'c, 'm, 'q, 'pp, 'cp, 'gp) raft_type_config \<Rightarrow> nat \<Rightarrow> 'n \<Rightarrow> send_stamp \<Rightarrow>
   ('n, 'nd, 'l, 'c, 'm, 'd, 's, 'e, 'pp, 'cp, 'gp) engine \<Rightarrow> (_, _, _, _, _, _, _, _, _, _, _) engine option" where
  "try_update_leader_clock C sid target sending_time e =
     do {
       ld \<leftarrow> en_leader e;
       if \<not> is_replication_stream_valid C ld target sid then Some e
       else do {
         (granted, ld) \<leftarrow> update_clock C ld target sending_time;
         Some (set_leader ld e)
       }
     }"

definition try_commit_quorum_accepted ::
  "('n, 'nd, 'l, 'c::linorder, 'm, 'q, 'pp, 'cp, 'gp) raft_type_config \<Rightarrow> 'c log_id option \<Rightarrow>
   ('n, 'nd, 'l, 'c, 'm, 'd, 's, 'e, 'pp, 'cp, 'gp) engine \<Rightarrow> (_, _, _, _, _, _, _, _, _, _, _) engine" where
  "try_commit_quorum_accepted C granted e =
     (let L = tc_lid C; v = vote_ref (en_state e)
      in if (case granted of None \<Rightarrow> False | Some c \<Rightarrow> \<not> is_same_leader L v (clid c)) then e
         else
           (let prev_cluster_committed = cluster_committed (en_state e);
                st = en_state e;
                st = st\<lparr>st_io_state := (st_io_state st)\<lparr>io_cluster_committed :=
                       snd (try_update (log_io_lt L) (io_cluster_committed (st_io_state st)) (LogIOId (to_committed v) granted))\<rparr>\<rparr>;
                st = update_local_committed st granted;
                e = set_state st e
            in if cluster_committed st > prev_cluster_committed
               then push_command (ReplicateCommitted (cluster_committed st)) e else e))"

definition rh_update_matching ::
  "('n, 'nd, 'l, 'c::linorder, 'm, 'q, 'pp, 'cp, 'gp) raft_type_config \<Rightarrow> 'n \<Rightarrow> 'c log_id option \<Rightarrow> nat option \<Rightarrow>
   ('n, 'nd, 'l, 'c, 'm, 'd, 's, 'e, 'pp, 'cp, 'gp) engine \<Rightarrow> (_, _, _, _, _, _, _, _, _, _, _) engine option" where
  "rh_update_matching C node_id log_id iid e =
     do {
       ld \<leftarrow> en_leader e;
       Some (case pp_update_entry_with (tc_progress C) (ld_progress ld) node_id (\<lambda>entry. pe_update_matching entry log_id iid) of
               None \<Rightarrow> e
             | Some (quorum_accepted, progress) \<Rightarrow>
                 try_commit_quorum_accepted C quorum_accepted (set_leader (ld\<lparr>ld_progress := progress\<rparr>) e))
     }"

text \<open>
  The closure of \<open>reset_entry_with\<close> runs on the entry of the target when there is one, and its
  flag \<open>applied\<close> starts as false.
\<close>

definition rh_update_conflicting ::
  "('n, 'nd, 'l, 'c, 'm, 'q, 'pp, 'cp, 'gp) raft_type_config \<Rightarrow> 'n \<Rightarrow> 'c log_id \<Rightarrow> nat option \<Rightarrow>
   ('n, 'nd, 'l, 'c, 'm, 'd, 's, 'e, 'pp, 'cp, 'gp) engine \<Rightarrow> (bool \<times> (_, _, _, _, _, _, _, _, _, _, _) engine) option" where
  "rh_update_conflicting C target conflict iid e =
     do {
       ld \<leftarrow> en_leader e;
       (case pp_try_get (tc_progress C) (ld_progress ld) target of
          None \<Rightarrow> Some (False, e)
        | Some entry \<Rightarrow>
            do {
              (applied, entry) \<leftarrow> pe_update_conflicting (en_config e) entry (idx conflict) iid;
              Some (applied,
                (case pp_reset_entry_with (tc_progress C) (ld_progress ld) target (\<lambda>_. entry) of
                   None \<Rightarrow> e
                 | Some progress \<Rightarrow> set_leader (ld\<lparr>ld_progress := progress\<rparr>) e))
            })
     }"

definition update_search_from_hint ::
  "('n, 'nd, 'l, 'c::linorder, 'm, 'q, 'pp, 'cp, 'gp) raft_type_config \<Rightarrow> 'n \<Rightarrow> 'c log_id list \<Rightarrow>
   ('n, 'nd, 'l, 'c, 'm, 'd, 's, 'e, 'pp, 'cp, 'gp) engine \<Rightarrow> (_, _, _, _, _, _, _, _, _, _, _) engine option" where
  "update_search_from_hint C target hint e =
     do {
       ld \<leftarrow> en_leader e;
       Some (case pp_try_get (tc_progress C) (ld_progress ld) target of
               None \<Rightarrow> e
             | Some progress \<Rightarrow>
                 (let m_next = matching_next progress;
                      (common, divergence) = hint_compare hint (st_log_ids (en_state e));
                      end_index = max (min divergence (search_end progress)) m_next;
                      probe = (case common of
                                 Some log_id \<Rightarrow> Some (idx log_id + 1)
                               | None \<Rightarrow> if hint = [] then Some 0 else None);
                      probe = (case probe of
                                 None \<Rightarrow> None
                               | Some i \<Rightarrow> if m_next \<le> i \<and> i \<le> end_index then Some i else None)
                  in case pp_update_data_with (tc_progress C) (ld_progress ld) target
                            (\<lambda>d. d\<lparr>searching_end := end_index, probe_start := probe\<rparr>) of
                       None \<Rightarrow> e
                     | Some progress \<Rightarrow> set_leader (ld\<lparr>ld_progress := progress\<rparr>) e))
     }"

text \<open>\<open>Inl\<close> is the error \<open>NodeNotFound\<close>, which carries the target.\<close>

definition allow_next_revert ::
  "('n, 'nd, 'l, 'c, 'm, 'q, 'pp, 'cp, 'gp) raft_type_config \<Rightarrow> 'n \<Rightarrow> bool \<Rightarrow>
   ('n, 'nd, 'l, 'c, 'm, 'd, 's, 'e, 'pp, 'cp, 'gp) engine \<Rightarrow> (('n + unit) \<times> (_, _, _, _, _, _, _, _, _, _, _) engine) option" where
  "allow_next_revert C target allow e =
     do {
       ld \<leftarrow> en_leader e;
       Some (case pp_update_data_with (tc_progress C) (ld_progress ld) target (\<lambda>d. d\<lparr>allow_log_reversion := allow\<rparr>) of
               None \<Rightarrow> (Inl target, e)
             | Some progress \<Rightarrow> (Inr (), set_leader (ld\<lparr>ld_progress := progress\<rparr>) e))
     }"

definition rh_try_purge_log ::
  "('n, 'nd, 'l, 'c::linorder, 'm, 'q, 'pp, 'cp, 'gp) raft_type_config \<Rightarrow>
   ('n, 'nd, 'l, 'c, 'm, 'd, 's, 'e, 'pp, 'cp, 'gp) engine \<Rightarrow> (_, _, _, _, _, _, _, _, _, _, _) engine option" where
  "rh_try_purge_log C e =
     do {
       ld \<leftarrow> en_leader e;
       if st_purge_upto (en_state e) \<le> last_purged_log_id (en_state e) then Some e
       else do {
         up_to \<leftarrow> st_purge_upto (en_state e);
         let in_use = list_ex (\<lambda>item. is_log_range_inflight item up_to) (pp_iter (tc_progress C) (ld_progress ld));
         Some (if in_use then e else purge_log e)
       }
     }"

text \<open>A replication result: an error, a conflict or the matching log id, with an optional hint.\<close>

datatype 'c replication_result =
    ReplicationError string
  | ReplicationConflict "'c log_id"
  | ReplicationMatching "'c log_id option"

record ('n, 'c) progress_msg =
  pg_target :: 'n
  pg_result :: "'c replication_result"
  pg_hint :: "'c log_id list option"

definition update_progress ::
  "('n, 'nd, 'l, 'c::linorder, 'm, 'q, 'pp, 'cp, 'gp) raft_type_config \<Rightarrow> nat \<Rightarrow> ('n, 'c) progress_msg \<Rightarrow> nat option \<Rightarrow>
   ('n, 'nd, 'l, 'c, 'm, 'd, 's, 'e, 'pp, 'cp, 'gp) engine \<Rightarrow> (_, _, _, _, _, _, _, _, _, _, _) engine option" where
  "update_progress C sid progress iid e =
     do {
       ld \<leftarrow> en_leader e;
       let target = pg_target progress;
       if \<not> is_replication_stream_valid C ld target sid then Some e
       else do {
         e \<leftarrow>
           (case pg_result progress of
              ReplicationMatching m \<Rightarrow> rh_update_matching C target m iid e
            | ReplicationConflict conflict \<Rightarrow>
                do {
                  (applied, e) \<leftarrow> rh_update_conflicting C target conflict iid e;
                  (case pg_hint progress of
                     Some hint \<Rightarrow> if applied \<and> iid \<noteq> None then update_search_from_hint C target hint e else Some e
                   | None \<Rightarrow> Some e)
                }
            | ReplicationError _ \<Rightarrow>
                Some (case pp_update_data_with (tc_progress C) (ld_progress ld) target (\<lambda>d. d\<lparr>pd_inflight := InflightNone\<rparr>) of
                        None \<Rightarrow> e
                      | Some progress \<Rightarrow> set_leader (ld\<lparr>ld_progress := progress\<rparr>) e));
         rh_try_purge_log C e
       }
     }"

definition update_local_progress ::
  "('n, 'nd, 'l, 'c::linorder, 'm, 'q, 'pp, 'cp, 'gp) raft_type_config \<Rightarrow> 'c log_id option \<Rightarrow>
   ('n, 'nd, 'l, 'c, 'm, 'd, 's, 'e, 'pp, 'cp, 'gp) engine \<Rightarrow> (_, _, _, _, _, _, _, _, _, _, _) engine option" where
  "update_local_progress C up_to e =
     do {
       ld \<leftarrow> en_leader e;
       if up_to = None then Some e
       else
         (let nid = own_id e
          in if (case pp_try_get (tc_progress C) (ld_progress ld) nid of None \<Rightarrow> False | Some entry \<Rightarrow> matching entry \<ge> up_to)
             then Some e
             else
               (case pp_update_data_with (tc_progress C) (ld_progress ld) nid (\<lambda>d. d\<lparr>pd_inflight := inflight_probe None up_to 0\<rparr>) of
                  None \<Rightarrow> Some e
                | Some progress \<Rightarrow> rh_update_matching C nid up_to (Some 0) (set_leader (ld\<lparr>ld_progress := progress\<rparr>) e)))
     }"

section \<open>Leading\<close>

definition lh_is_lease_valid ::
  "('n, 'nd, 'l, 'c, 'm, 'q, 'pp, 'cp, 'gp) raft_type_config \<Rightarrow> nat \<Rightarrow>
   ('n, 'nd, 'l, 'c, 'm, 'd, 's, 'e, 'pp, 'cp, 'gp) engine \<Rightarrow> bool option" where
  "lh_is_lease_valid C now e =
     map_option (\<lambda>ld. ld_is_lease_valid C now ld (leader_lease (timer_config (en_config e)))) (en_leader e)"

definition leader_append_entries ::
  "('n, 'nd, 'l, 'c::linorder, 'm, 'q, 'pp, 'cp, 'gp) raft_type_config \<Rightarrow> ('d, 'm) entry_payload list \<Rightarrow>
   ('n, 'nd, 'l, 'c, 'm, 'd, 's, 'e, 'pp, 'cp, 'gp) engine \<Rightarrow>
   ('c leader_log_ids option \<times> (_, _, _, _, _, _, _, _, _, _, _) engine) option" where
  "leader_append_entries C payloads e =
     do {
       ld \<leftarrow> en_leader e;
       (case assign_log_ids (tc_lid C) ld (length payloads) of
          (None, ld) \<Rightarrow> Some (None, e)
        | (Some log_ids, ld) \<Rightarrow>
            do {
              let ids = iter_list (leader_log_ids_into_iter log_ids);
              let e = set_leader ld (set_state (extend_log_ids_from_same_leader (en_state e) ids) e);
              let entries = map (\<lambda>(payload, log_id). \<lparr>ent_log_id = log_id, ent_payload = payload\<rparr>) (zip payloads ids);
              let membership_entry =
                last_opt (List.map_filter (\<lambda>ent. map_option (Pair (ent_log_id ent)) (get_membership (ent_payload ent))) entries);
              let (_, st) = accept_log_io (tc_lid C) (en_state e) (io_id_new_log_io (ld_committed_vote ld) (ld_last_log_id ld));
              let e = push_command (AppendEntries (ld_committed_vote ld) entries) (set_state st e);
              e \<leftarrow>
                (case membership_entry of
                   None \<Rightarrow> Some e
                 | Some (log_id, m) \<Rightarrow> leader_append_membership C log_id m e);
              e \<leftarrow> initiate_replication C e;
              Some (Some log_ids, e)
            })
     }"

definition lh_quorum_loss_probe ::
  "('n, 'nd, 'l, 'c, 'm, 'q, 'pp, 'cp, 'gp) raft_type_config \<Rightarrow> ('n, 'l, 'c, 'pp, 'cp) leader \<Rightarrow>
   ('n, 'nd, 'l, 'c, 'm, 'd, 's, 'e, 'pp, 'cp, 'gp) engine \<Rightarrow> quorum_loss_probe option" where
  "lh_quorum_loss_probe C ld e =
     do {
       interval \<leftarrow> quorum_loss_probe_interval (en_config e);
       if self_quorum ld then None
       else do {
         acked_at \<leftarrow> (case last_quorum_acked_time C ld of Some t \<Rightarrow> Some t | None \<Rightarrow> last_update (st_vote (en_state e)));
         Some \<lparr>quorum_acked_at = acked_at, qlp_leader_lease = leader_lease (timer_config (en_config e)), qlp_interval = interval\<rparr>
       }
     }"

text \<open>\<open>quiet_for\<close> panics when the interval is zero; \<open>Config::validate\<close> rules that out.\<close>

definition heartbeat_is_allowed ::
  "('n, 'nd, 'l, 'c, 'm, 'q, 'pp, 'cp, 'gp) raft_type_config \<Rightarrow> nat \<Rightarrow> ('n, 'l, 'c, 'pp, 'cp) leader \<Rightarrow>
   ('n, 'nd, 'l, 'c, 'm, 'd, 's, 'e, 'pp, 'cp, 'gp) engine \<Rightarrow> bool option" where
  "heartbeat_is_allowed C now ld e =
     (case lh_quorum_loss_probe C ld e of
        None \<Rightarrow> Some True
      | Some probe \<Rightarrow> map_option (\<lambda>quiet. quiet = None) (quiet_for probe now))"

definition send_heartbeat ::
  "('n, 'nd, 'l, 'c, 'm, 'q, 'pp, 'cp, 'gp) raft_type_config \<Rightarrow> nat \<Rightarrow> bool \<Rightarrow>
   ('n, 'nd, 'l, 'c, 'm, 'd, 's, 'e, 'pp, 'cp, 'gp) engine \<Rightarrow> (bool \<times> (_, _, _, _, _, _, _, _, _, _, _) engine) option" where
  "send_heartbeat C now bypass_min_interval e =
     do {
       ld \<leftarrow> en_leader e;
       allowed \<leftarrow> heartbeat_is_allowed C now ld e;
       if \<not> allowed then Some (False, e)
       else
         (let session_id = \<lparr>rs_leader_vote = ld_committed_vote ld, rs_membership_log_id = sm_log_id (effective_membership e)\<rparr>
          in Some (True, push_command (BroadcastHeartbeat session_id bypass_min_interval) e))
     }"

definition get_read_log_id ::
  "('n, 'nd, 'l, 'c::linorder, 'm, 'd, 's, 'e, 'pp, 'cp, 'gp) engine \<Rightarrow> 'c log_id option" where
  "get_read_log_id e =
     do {
       ld \<leftarrow> en_leader e;
       Some (case local_committed (en_state e) of
               Some committed \<Rightarrow> max (noop_log_id ld) committed
             | None \<Rightarrow> noop_log_id ld)
     }"

definition transfer_leader ::
  "nat \<Rightarrow> 'n \<Rightarrow> ('n, 'nd, 'l, 'c, 'm, 'd, 's, 'e, 'pp, 'cp, 'gp) engine \<Rightarrow> (_, _, _, _, _, _, _, _, _, _, _) engine option" where
  "transfer_leader now to e =
     do {
       ld \<leftarrow> en_leader e;
       let timeout = election_timeout (timer_config (en_config e));
       let ld = mark_transfer now ld to timeout;
       let e = set_leader ld (set_state ((en_state e)\<lparr>st_vote := disable_lease (st_vote (en_state e))\<rparr>) e);
       Some (push_command (BroadcastTransferLeader
               \<lparr>from_leader = committed_into_vote (ld_committed_vote ld), to_node_id = to, tl_last_log_id = ld_last_log_id ld\<rparr>) e)
     }"

section \<open>A round of replication\<close>

text \<open>A follower that the leader sends to in the next round.\<close>

definition awaits_send :: "('n, 'nd, 'm, 'q) membership_ops \<Rightarrow> 'm \<Rightarrow> 'n \<Rightarrow> ('n, 'c) progress_entry \<Rightarrow> bool" where
  "awaits_send M m nid item \<longleftrightarrow> pe_id item \<noteq> nid \<and> mem_receives_logs M m (pe_id item) \<and> inflight_of item = InflightNone"

lemma next_send_busy: "inflight_of item \<noteq> InflightNone \<Longrightarrow> \<exists>r. next_send item s n = (Inl r, item, s)"
  by (cases "inflight_of item") (auto simp: next_send_def inflight_is_none_def)

text \<open>The request that asks a follower for what is in flight to it.\<close>

definition request_of ::
  "'l committed_vote \<Rightarrow> ('n, 'c) progress_entry \<Rightarrow> ('n, 'nd, 'l, 'c, 'm, 'd, 's, 'e) command list" where
  "request_of leader_vote item =
     (case inflight_of item of
        InflightNone \<Rightarrow> []
      | Probe r i \<Rightarrow> [Replicate (pe_id item) \<lparr>rp_inflight_id = i, rp_payload = ProbePayload r\<rparr>]
      | LogsSince prev i \<Rightarrow> [Replicate (pe_id item) \<lparr>rp_inflight_id = i, rp_payload = LogsSincePayload prev\<rparr>]
      | SendSnapshot i \<Rightarrow> [ReplicateSnapshot leader_vote (pe_id item) i])"

text \<open>What a round makes of an entry: a new request that the leader can serve, or nothing.\<close>

definition round_entry ::
  "('n, 'nd, 'm, 'q) membership_ops \<Rightarrow> 'm \<Rightarrow> 'n \<Rightarrow> ('l, 'c::linorder, 'm) raft_state \<Rightarrow> ('n, 'c) progress_entry \<Rightarrow>
   ('n, 'c) progress_entry \<Rightarrow> bool" where
  "round_entry M m nid s old item \<longleftrightarrow>
     (if awaits_send M m nid old
      then request_ok old s (inflight_of item) \<and> pe_id item = pe_id old \<and> matching item = matching old
      else item = old)"

lemma request_ok_state [simp]: "request_ok e (snd (new_inflight_id s)) fl = request_ok e s fl"
  by (cases fl) (simp_all add: request_ok_def new_inflight_id_def Let_def)

lemma round_entry_state [simp]: "round_entry M m nid (snd (new_inflight_id s)) = round_entry M m nid s"
  by (simp add: round_entry_def fun_eq_iff)

lemma send_to_target_request:
  "request_ok old s fl \<Longrightarrow> inflight_of item = fl \<Longrightarrow>
   send_to_target out lv (pe_id item) fl = Some (out\<lparr>out_commands := out_commands out @ request_of lv item\<rparr>)"
  by (cases fl) (auto simp: send_to_target_def request_of_def out_push_def replicate_new_probe_def replicate_new_logs_since_def
      request_ok_def)

lemma initiate_loop_total:
  assumes "list_all (\<lambda>item. can_send item s) items"
  shows "\<exists>items' s' out'. initiate_loop M m nid lv s out items = Some (items', s', out') \<and>
    list_all2 (round_entry M m nid s) items items' \<and>
    out_commands out' = out_commands out @
      concat (map (\<lambda>(old, item). request_of lv item) (filter (\<lambda>(old, item). awaits_send M m nid old) (zip items items')))"
  using assms
proof (induction items arbitrary: s out)
  case (Cons item items)
  show ?case
  proof (cases "awaits_send M m nid item")
    case True
    let ?fl = "next_request item s MAX_ENTRIES_PER_PROBE (fst (new_inflight_id s))"
    let ?item = "item\<lparr>pe_data := (pe_data item)\<lparr>probe_start := None, pd_inflight := ?fl\<rparr>\<rparr>"
    have ok: "request_ok item s ?fl" using next_request_ok[of item s MAX_ENTRIES_PER_PROBE] Cons.prems by (simp add: MAX_ENTRIES_PER_PROBE_def)
    have "send_to_target out lv (pe_id item) ?fl = Some (out\<lparr>out_commands := out_commands out @ request_of lv ?item\<rparr>)"
      using send_to_target_request[OF ok, of ?item] by simp
    moreover have "list_all (\<lambda>item. can_send item (snd (new_inflight_id s))) items" using Cons.prems by (simp add: can_send_state list_all_iff)
    ultimately show ?thesis
      using True ok Cons.IH[of "snd (new_inflight_id s)" "out\<lparr>out_commands := out_commands out @ request_of lv ?item\<rparr>"]
      by (auto simp: next_send_eq Let_def awaits_send_def round_entry_def[of M m nid s item])
  next
    case False
    obtain items' s' out' where IH: "initiate_loop M m nid lv s out items = Some (items', s', out')"
      "list_all2 (round_entry M m nid s) items items'"
      "out_commands out' = out_commands out @
        concat (map (\<lambda>(old, item). request_of lv item) (filter (\<lambda>(old, item). awaits_send M m nid old) (zip items items')))"
      using Cons.IH[of s out] Cons.prems by auto
    have "initiate_loop M m nid lv s out (item # items) = Some (item # items', s', out')"
    proof (cases "pe_id item = nid \<or> \<not> mem_receives_logs M m (pe_id item)")
      case busy: False
      then obtain r where "next_send item s MAX_ENTRIES_PER_PROBE = (Inl r, item, s)"
        using False next_send_busy[of item s] by (auto simp: awaits_send_def)
      then show ?thesis using busy IH(1) by simp
    qed (simp add: IH(1))
    then show ?thesis using False IH(2,3) by (simp add: round_entry_def[of M m nid s item])
  qed
qed simp

lemma request_of_one: "request_ok old s (inflight_of item) \<Longrightarrow> length (request_of lv item) = 1"
  by (cases "inflight_of item") (auto simp: request_ok_def request_of_def)

lemma round_entries:
  assumes "list_all2 (round_entry M m nid s) olds items"
  shows "map pe_id items = map pe_id olds" "list_all (\<lambda>item. \<not> awaits_send M m nid item) items"
    "length (concat (map (\<lambda>(old, item). request_of lv item) (filter (\<lambda>(old, item). awaits_send M m nid old) (zip olds items)))) =
      length (filter (awaits_send M m nid) olds)"
  using assms
  by (induction olds items rule: list_all2_induct)
    (auto simp: round_entry_def request_of_one split: if_split_asm, auto simp: awaits_send_def request_ok_def)

end
