(* ===== verification/Engine.thy ===== *)
theory Engine
  imports Handlers
begin

text \<open>
  The engine (\<open>engine/engine_impl.rs\<close>) with the handlers that change who leads: votes
  (\<open>engine/handler/vote_handler\<close>) and the establishment of a leader
  (\<open>engine/handler/establish_handler\<close>).  Terms are \<open>u64\<close>.  As in the other handlers, \<open>now\<close> is the
  one reading of the clock in a call and \<^const>\<open>None\<close> is a panic; \<open>rng\<close> draws election timeouts.
\<close>

section \<open>Votes\<close>

definition term_next :: "nat \<Rightarrow> nat" where
  "term_next t = wrapping_add t 1"

definition become_leader ::
  "('n, 'nd, 'l, 'c::linorder, 'm, 'q, 'pp, 'cp, 'gp) raft_type_config \<Rightarrow> nat \<Rightarrow>
   ('n, 'nd, 'l, 'c, 'm, 'd, 's, 'e, 'pp, 'cp, 'gp) engine \<Rightarrow> (_, _, _, _, _, _, _, _, _, _, _) engine option" where
  "become_leader C now e =
     (let same_leader =
        (case en_leader e of
           Some ld \<Rightarrow> if cv_leader_id (ld_committed_vote ld) = v_leader_id (vote_ref (en_state e)) then Some ld else None
         | None \<Rightarrow> None)
      in case same_leader of
           Some ld \<Rightarrow>
             Some (update_server_state_if_changed C (set_leader (ld\<lparr>ld_committed_vote := to_committed (vote_ref (en_state e))\<rparr>) e))
         | None \<Rightarrow>
             (let (ld, st) = state_new_leader C now (en_state e);
                  e = set_leader ld (set_state st e);
                  leader_vote = ld_committed_vote ld;
                  lst = ld_last_log_id ld;
                  noop = noop_log_id ld;
                  (prev_accepted, st) = accept_log_io (tc_lid C) (en_state e) (io_id_new_log_io leader_vote lst);
                  e = push_command (UpdateIOProgress (map_option IOFlushed prev_accepted) (io_id_new_log_io leader_vote lst)) (set_state st e);
                  e = update_server_state_if_changed C e
              in do {
                   e \<leftarrow> rebuild_replication_streams C True e;
                   if lst < Some noop then map_option snd (leader_append_entries C [Blank] e)
                   else initiate_replication C e
                 }))"

definition become_following ::
  "('n, 'nd, 'l, 'c, 'm, 'q, 'pp, 'cp, 'gp) raft_type_config \<Rightarrow>
   ('n, 'nd, 'l, 'c, 'm, 'd, 's, 'e, 'pp, 'cp, 'gp) engine \<Rightarrow> (_, _, _, _, _, _, _, _, _, _, _) engine" where
  "become_following C e =
     (let had_leading_state = (en_leader e \<noteq> None \<or> en_candidate e \<noteq> None \<or> en_pre_candidate e \<noteq> None);
          e = e\<lparr>en_leader := None, en_candidate := None, en_pre_candidate := None\<rparr>;
          e = prepend_command FailPendingReads e;
          e = (if had_leading_state then push_command CloseReplicationStreams e else e)
      in update_server_state_if_changed C e)"

definition update_internal_server_state ::
  "('n, 'nd, 'l, 'c::linorder, 'm, 'q, 'pp, 'cp, 'gp) raft_type_config \<Rightarrow> nat \<Rightarrow>
   ('n, 'nd, 'l, 'c, 'm, 'd, 's, 'e, 'pp, 'cp, 'gp) engine \<Rightarrow> (_, _, _, _, _, _, _, _, _, _, _) engine option" where
  "update_internal_server_state C now e =
     (if is_leader (tc_lid C) (tc_mem C) (en_state e) (own_id e) then become_leader C now e
      else if is_leading (tc_lid C) (tc_mem C) (en_state e) (own_id e) then Some e
      else Some (become_following C e))"

text \<open>A granted vote: a greater one is stored, an equal one renews the lease.\<close>

definition record_vote ::
  "('n, 'nd, 'l, 'c::linorder, 'm, 'q, 'pp, 'cp, 'gp) raft_type_config \<Rightarrow> nat \<Rightarrow> 'l vote \<Rightarrow>
   ('n, 'nd, 'l, 'c, 'm, 'd, 's, 'e, 'pp, 'cp, 'gp) engine \<Rightarrow> (_, _, _, _, _, _, _, _, _, _, _) engine" where
  "record_vote C now v e =
     (let L = tc_lid C; st = en_state e;
          ls = (if v_committed v then leader_lease (timer_config (en_config e)) else 0)
      in if vote_gt L v (vote_ref st) then
           (let st = st\<lparr>st_vote := leased_update (st_vote st) now ls v\<rparr>;
                (_, st) = accept_log_io L st (io_id_new v)
            in push_command (SaveVote v) (set_state st e))
         else set_state (st\<lparr>st_vote := leased_touch (st_vote st) now ls\<rparr>) e)"

text \<open>\<open>Inl\<close> is \<open>RejectVote\<close> with the local vote that is not smaller.\<close>

definition update_vote ::
  "('n, 'nd, 'l, 'c::linorder, 'm, 'q, 'pp, 'cp, 'gp) raft_type_config \<Rightarrow> nat \<Rightarrow> 'l vote \<Rightarrow>
   ('n, 'nd, 'l, 'c, 'm, 'd, 's, 'e, 'pp, 'cp, 'gp) engine \<Rightarrow>
   (('l vote + unit) \<times> (_, _, _, _, _, _, _, _, _, _, _) engine) option" where
  "update_vote C now v e =
     (if \<not> vote_ge (tc_lid C) v (vote_ref (en_state e)) then Some (Inl (vote_ref (en_state e)), e)
      else map_option (Pair (Inr ())) (update_internal_server_state C now (record_vote C now v e)))"

text \<open>The response that \<open>f\<close> builds is sent when the vote is rejected; otherwise the caller keeps \<open>tx\<close>.\<close>

definition accept_vote ::
  "('n, 'nd, 'l, 'c::linorder, 'm, 'q, 'pp, 'cp, 'gp) raft_type_config \<Rightarrow> nat \<Rightarrow> 'l vote \<Rightarrow> nat \<Rightarrow>
   (('l, 'c, 'm) raft_state \<Rightarrow> 'l vote \<Rightarrow> nat \<Rightarrow> ('n, 'l, 'c, 'm, 'e) respond) \<Rightarrow>
   ('n, 'nd, 'l, 'c, 'm, 'd, 's, 'e, 'pp, 'cp, 'gp) engine \<Rightarrow>
   (nat option \<times> (_, _, _, _, _, _, _, _, _, _, _) engine) option" where
  "accept_vote C now v tx f e =
     do {
       (res, e) \<leftarrow> update_vote C now v e;
       (case res of
          Inl higher \<Rightarrow>
            Some (None, push_command (Respond (Some (IOFlushed (io_id_new (vote_ref (en_state e))))) (f (en_state e) higher tx)) e)
        | Inr _ \<Rightarrow> Some (Some tx, e))
     }"

section \<open>Campaigns\<close>

definition engine_new ::
  "('l, 'c, 'm) raft_state \<Rightarrow> 'n engine_config \<Rightarrow> ('n, 'nd, 'l, 'c, 'm, 'd, 's, 'e, 'pp, 'cp, 'gp) engine" where
  "engine_new init_state config =
     \<lparr>en_config = config, en_state = init_state, seen_greater_log = None, en_leader = None, en_candidate = None,
      en_pre_candidate = None, en_output = engine_output_new\<rparr>"

definition new_candidate ::
  "('n, 'nd, 'l, 'c, 'm, 'q, 'pp, 'cp, 'gp) raft_type_config \<Rightarrow> nat \<Rightarrow> 'l vote \<Rightarrow>
   ('n, 'nd, 'l, 'c, 'm, 'd, 's, 'e, 'pp, 'cp, 'gp) engine \<Rightarrow>
   ('l, 'c, 'm, 'gp) candidate \<times> (_, _, _, _, _, _, _, _, _, _, _) engine" where
  "new_candidate C now v e =
     (let cd = candidate_new C now v (last_log_id (en_state e)) (sm_membership (effective_membership e))
      in (cd, e\<lparr>en_candidate := Some cd\<rparr>))"

definition new_pre_candidate ::
  "('n, 'nd, 'l, 'c, 'm, 'q, 'pp, 'cp, 'gp) raft_type_config \<Rightarrow> nat \<Rightarrow> 'l vote \<Rightarrow>
   ('n, 'nd, 'l, 'c, 'm, 'd, 's, 'e, 'pp, 'cp, 'gp) engine \<Rightarrow>
   ('l, 'c, 'm, 'gp) candidate \<times> (_, _, _, _, _, _, _, _, _, _, _) engine" where
  "new_pre_candidate C now v e =
     (let cd = candidate_new C now v (last_log_id (en_state e)) (sm_membership (effective_membership e))
      in (cd, e\<lparr>en_pre_candidate := Some cd\<rparr>))"

text \<open>\<open>LeaderId::new(term.next(), id)\<close>, not committed: the vote of the next campaign.\<close>

definition campaign_vote ::
  "('n, 'nd, 'l, 'c, 'm, 'q, 'pp, 'cp, 'gp) raft_type_config \<Rightarrow>
   ('n, 'nd, 'l, 'c, 'm, 'd, 's, 'e, 'pp, 'cp, 'gp) engine \<Rightarrow> 'l vote" where
  "campaign_vote C e =
     (let L = tc_lid C
      in \<lparr>v_leader_id = lid_new L (term_next (vote_term L (vote_ref (en_state e)))) (own_id e), v_committed = False\<rparr>)"

text \<open>The part of \<open>do_elect\<close> that a node without a leader role runs.\<close>

definition start_campaign ::
  "('n, 'nd, 'l, 'c::linorder, 'm, 'q, 'pp, 'cp, 'gp) raft_type_config \<Rightarrow> (nat \<Rightarrow> nat \<Rightarrow> nat) \<Rightarrow> nat \<Rightarrow> 'l vote option \<Rightarrow>
   ('n, 'nd, 'l, 'c, 'm, 'd, 's, 'e, 'pp, 'cp, 'gp) engine \<Rightarrow> (_, _, _, _, _, _, _, _, _, _, _) engine option" where
  "start_campaign C rng now transfer_from e =
     (let e = e\<lparr>en_config := resample_election_timeout rng (en_config e)\<rparr>;
          new_vote = campaign_vote C e;
          (candidate, e) = new_candidate C now new_vote e;
          lst = cd_last_log_id candidate
      in do {
           (res, e) \<leftarrow> update_vote C now new_vote e;
           (case res of
              Inl _ \<Rightarrow> None
            | Inr _ \<Rightarrow>
                Some (update_server_state_if_changed C
                  (push_command (SendVote \<lparr>vq_vote = new_vote, vq_last_log_id = lst,
                                           leadership_transfer_from = transfer_from\<rparr>) e)))
         })"

definition do_elect ::
  "('n, 'nd, 'l, 'c::linorder, 'm, 'q, 'pp, 'cp, 'gp) raft_type_config \<Rightarrow> (nat \<Rightarrow> nat \<Rightarrow> nat) \<Rightarrow> nat \<Rightarrow> 'l vote option \<Rightarrow>
   ('n, 'nd, 'l, 'c, 'm, 'd, 's, 'e, 'pp, 'cp, 'gp) engine \<Rightarrow> (_, _, _, _, _, _, _, _, _, _, _) engine option" where
  "do_elect C rng now transfer_from e =
     (let e = e\<lparr>en_pre_candidate := None\<rparr>
      in case en_leader e of
           None \<Rightarrow> start_campaign C rng now transfer_from e
         | Some ld \<Rightarrow>
             if \<not> is_transfer_expired now ld then Some e
             else start_campaign C rng now transfer_from
                    (push_command CloseReplicationStreams (prepend_command FailPendingReads (e\<lparr>en_leader := None\<rparr>))))"

definition elect ::
  "('n, 'nd, 'l, 'c::linorder, 'm, 'q, 'pp, 'cp, 'gp) raft_type_config \<Rightarrow> (nat \<Rightarrow> nat \<Rightarrow> nat) \<Rightarrow> nat \<Rightarrow>
   ('n, 'nd, 'l, 'c, 'm, 'd, 's, 'e, 'pp, 'cp, 'gp) engine \<Rightarrow> (_, _, _, _, _, _, _, _, _, _, _) engine option" where
  "elect C rng now e = do_elect C rng now None e"

definition elect_by_leadership_transfer ::
  "('n, 'nd, 'l, 'c::linorder, 'm, 'q, 'pp, 'cp, 'gp) raft_type_config \<Rightarrow> (nat \<Rightarrow> nat \<Rightarrow> nat) \<Rightarrow> nat \<Rightarrow> 'l vote \<Rightarrow>
   ('n, 'nd, 'l, 'c, 'm, 'd, 's, 'e, 'pp, 'cp, 'gp) engine \<Rightarrow> (_, _, _, _, _, _, _, _, _, _, _) engine option" where
  "elect_by_leadership_transfer C rng now from e = do_elect C rng now (Some from) e"

definition pre_elect ::
  "('n, 'nd, 'l, 'c::linorder, 'm, 'q, 'pp, 'cp, 'gp) raft_type_config \<Rightarrow> (nat \<Rightarrow> nat \<Rightarrow> nat) \<Rightarrow> nat \<Rightarrow>
   ('n, 'nd, 'l, 'c, 'm, 'd, 's, 'e, 'pp, 'cp, 'gp) engine \<Rightarrow> (_, _, _, _, _, _, _, _, _, _, _) engine option" where
  "pre_elect C rng now e =
     (let leased_vote = st_vote (en_state e)
      in if v_committed (leased_data leased_vote) \<and> \<not> is_expired leased_vote now 0 then Some e
         else
           (let e = e\<lparr>en_config := resample_election_timeout rng (en_config e)\<rparr>;
                pre_vote = campaign_vote C e;
                (pre_candidate, e) = new_pre_candidate C now pre_vote e;
                lst = cd_last_log_id pre_candidate;
                (quorum_granted, pre_candidate) = grant_by C pre_candidate (own_id e);
                e = e\<lparr>en_pre_candidate := Some pre_candidate\<rparr>
            in if quorum_granted then elect C rng now e
               else Some (push_command (SendPreVote (vote_request_new pre_vote lst)) e)))"

definition startup ::
  "('n, 'nd, 'l, 'c::linorder, 'm, 'q, 'pp, 'cp, 'gp) raft_type_config \<Rightarrow> (nat \<Rightarrow> nat \<Rightarrow> nat) \<Rightarrow> nat \<Rightarrow>
   ('n, 'nd, 'l, 'c, 'm, 'd, 's, 'e, 'pp, 'cp, 'gp) engine \<Rightarrow> (_, _, _, _, _, _, _, _, _, _, _) engine option" where
  "startup C rng now e =
     (let L = tc_lid C; M = tc_mem C; nid = own_id e; st = en_state e;
          was_leader = is_leader L M st nid;
          st = (if was_leader then
                  st\<lparr>st_vote := leased_update (st_vote st) now 0 (uncommitted_into_vote (to_non_committed (vote_ref st)))\<rparr>
                else st);
          st = st\<lparr>st_server_state := calc_following_state M st nid\<rparr>;
          e = set_state st e;
          restore_leader = (was_leader \<and> enable_leader_restore (en_config e));
          may_campaign = is_campaigner_in_effective_or_committed M (st_membership_state st) nid
      in if restore_leader \<and> may_campaign then elect C rng now e else Some e)"

section \<open>Initialization\<close>

definition check_initialize ::
  "('n, 'nd, 'l, 'c, 'm, 'q, 'pp, 'cp, 'gp) raft_type_config \<Rightarrow>
   ('n, 'nd, 'l, 'c, 'm, 'd, 's, 'e, 'pp, 'cp, 'gp) engine \<Rightarrow> ('n, 'l, 'c, 'm, 'e) initialize_error + unit" where
  "check_initialize C e =
     (if \<not> is_initialized (tc_lid C) (en_state e) then Inr ()
      else Inl (NotAllowed (last_log_id (en_state e)) (vote_ref (en_state e))))"

definition check_members_contain_me ::
  "('n, 'nd, 'l, 'c, 'm, 'q, 'pp, 'cp, 'gp) raft_type_config \<Rightarrow> 'm \<Rightarrow>
   ('n, 'nd, 'l, 'c, 'm, 'd, 's, 'e, 'pp, 'cp, 'gp) engine \<Rightarrow> ('n, 'l, 'c, 'm, 'e) initialize_error + unit" where
  "check_members_contain_me C m e =
     (if \<not> mem_is_campaigner (tc_mem C) m (own_id e) then Inl (NotInMembers (own_id e) m) else Inr ())"

text \<open>The checks run in the order of the source, and \<open>?\<close> returns the first error.\<close>

definition check_membership ::
  "('n::linorder, 'nd, 'm, 'q) membership_ops \<Rightarrow> 'm \<Rightarrow> ('n, 'e) membership_error + unit" where
  "check_membership M m =
     (case ensure_non_empty_config M m of
        Inl err \<Rightarrow> Inl err
      | Inr _ \<Rightarrow>
          (case ensure_voters_have_nodes M m of
             Inl err \<Rightarrow> Inl err
           | Inr _ \<Rightarrow>
               (case ensure_write_voters_receive_logs M m of
                  Inl err \<Rightarrow> Inl err
                | Inr _ \<Rightarrow> ensure_read_write_quorums_intersect M m)))"

definition initialize ::
  "('n::linorder, 'nd, 'l, 'c, 'm, 'q, 'pp, 'cp, 'gp) raft_type_config \<Rightarrow> nat \<Rightarrow> 'm \<Rightarrow>
   ('n, 'nd, 'l, 'c, 'm, 'd, 's, 'e, 'pp, 'cp, 'gp) engine \<Rightarrow>
   (('n, 'l, 'c, 'm, 'e) initialize_error + unit) \<times> (_, _, _, _, _, _, _, _, _, _, _) engine" where
  "initialize C now m e =
     (case check_initialize C e of
        Inl err \<Rightarrow> (Inl err, e)
      | Inr _ \<Rightarrow>
          (case check_members_contain_me C m e of
             Inl err \<Rightarrow> (Inl err, e)
           | Inr _ \<Rightarrow>
               (case check_membership (tc_mem C) m of
                  Inl err \<Rightarrow> (Inl (InvalidMembership err), e)
                | Inr _ \<Rightarrow>
                    (let L = tc_lid C;
                         leader_id = lid_new L 0 (own_id e);
                         v = \<lparr>v_leader_id = leader_id, v_committed = True\<rparr>;
                         e = set_state ((en_state e)\<lparr>st_vote := leased_update (st_vote (en_state e)) now 0 v\<rparr>) e;
                         ent = \<lparr>ent_log_id = LogId (lid_to_committed L leader_id) 0, ent_payload = MembershipPayload m\<rparr>
                     in (Inr (), do_append_entries C (to_committed (vote_ref (en_state e))) [ent] e)))))"

section \<open>Elections\<close>

definition is_there_greater_log :: "('n, 'nd, 'l, 'c::linorder, 'm, 'd, 's, 'e, 'pp, 'cp, 'gp) engine \<Rightarrow> bool" where
  "is_there_greater_log e \<longleftrightarrow> seen_greater_log e > last_log_id (en_state e)"

definition set_greater_log ::
  "'c::linorder log_id option \<Rightarrow> ('n, 'nd, 'l, 'c, 'm, 'd, 's, 'e, 'pp, 'cp, 'gp) engine \<Rightarrow>
   (_, _, _, _, _, _, _, _, _, _, _) engine" where
  "set_greater_log log_id e = (if log_id > seen_greater_log e then e\<lparr>seen_greater_log := log_id\<rparr> else e)"

definition reset_greater_log ::
  "('n, 'nd, 'l, 'c, 'm, 'd, 's, 'e, 'pp, 'cp, 'gp) engine \<Rightarrow> (_, _, _, _, _, _, _, _, _, _, _) engine" where
  "reset_greater_log e = e\<lparr>seen_greater_log := None\<rparr>"

definition respond_vote ::
  "bool \<Rightarrow> ('n, 'nd, 'l, 'c, 'm, 'd, 's, 'e, 'pp, 'cp, 'gp) engine \<Rightarrow> ('l, 'c) vote_response" where
  "respond_vote granted e = vote_response_new (vote_ref (en_state e)) (last_log_id (en_state e)) granted"

definition handle_vote_req ::
  "('n, 'nd, 'l, 'c::linorder, 'm, 'q, 'pp, 'cp, 'gp) raft_type_config \<Rightarrow> nat \<Rightarrow> ('l, 'c) vote_request \<Rightarrow>
   ('n, 'nd, 'l, 'c, 'm, 'd, 's, 'e, 'pp, 'cp, 'gp) engine \<Rightarrow>
   (('l, 'c) vote_response \<times> (_, _, _, _, _, _, _, _, _, _, _) engine) option" where
  "handle_vote_req C now req e =
     (let leased_vote = st_vote (en_state e);
          authorized_transfer = (leadership_transfer_from req = Some (vote_ref (en_state e)))
      in if v_committed (leased_data leased_vote) \<and> \<not> authorized_transfer \<and> \<not> is_expired leased_vote now 0
         then Some (respond_vote False e, e)
         else if \<not> authorized_transfer \<and>
                 (case en_leader e of
                    None \<Rightarrow> False
                  | Some ld \<Rightarrow> ld_is_lease_valid C now ld (leader_lease (timer_config (en_config e))))
         then Some (respond_vote False e, e)
         else if \<not> vq_last_log_id req \<ge> last_log_id (en_state e) then Some (respond_vote False e, e)
         else
           do {
             (res, e) \<leftarrow> update_vote C now (vq_vote req) e;
             Some (respond_vote (\<not> isl res) e, e)
           })"

definition handle_pre_vote_req ::
  "('n, 'nd, 'l, 'c::linorder, 'm, 'q, 'pp, 'cp, 'gp) raft_type_config \<Rightarrow> nat \<Rightarrow> ('l, 'c) vote_request \<Rightarrow>
   ('n, 'nd, 'l, 'c, 'm, 'd, 's, 'e, 'pp, 'cp, 'gp) engine \<Rightarrow> ('l, 'c) vote_response" where
  "handle_pre_vote_req C now req e =
     (let leased_vote = st_vote (en_state e)
      in if v_committed (leased_data leased_vote) \<and> \<not> is_expired leased_vote now 0 then respond_vote False e
         else if (case en_leader e of
                    None \<Rightarrow> False
                  | Some ld \<Rightarrow> ld_is_lease_valid C now ld (leader_lease (timer_config (en_config e))))
         then respond_vote False e
         else if vq_last_log_id req < last_log_id (en_state e) then respond_vote False e
         else respond_vote (vote_ge (tc_lid C) (vq_vote req) (vote_ref (en_state e))) e)"

text \<open>\<open>EstablishHandler::establish\<close>: the new leader, unless one with a vote that is not smaller exists.\<close>

definition establish ::
  "('n, 'nd, 'l, 'c, 'm, 'q, 'pp, 'cp, 'gp) raft_type_config \<Rightarrow> nat \<Rightarrow> ('l, 'c, 'm, 'gp) candidate \<Rightarrow>
   ('n, 'nd, 'l, 'c, 'm, 'd, 's, 'e, 'pp, 'cp, 'gp) engine \<Rightarrow>
   ('n, 'l, 'c, 'pp, 'cp) leader option \<times> (_, _, _, _, _, _, _, _, _, _, _) engine" where
  "establish C now candidate e =
     (if (case en_leader e of
            None \<Rightarrow> False
          | Some ld \<Rightarrow> \<not> vote_gt (tc_lid C) (cd_vote candidate) (committed_into_vote (ld_committed_vote ld)))
      then (None, e)
      else
        (let (ld, id_gen) = into_leader C now candidate (progress_id_gen (en_state e))
         in (Some ld, set_leader ld (set_state ((en_state e)\<lparr>progress_id_gen := id_gen\<rparr>) e))))"

definition establish_leader ::
  "('n, 'nd, 'l, 'c::linorder, 'm, 'q, 'pp, 'cp, 'gp) raft_type_config \<Rightarrow> nat \<Rightarrow>
   ('n, 'nd, 'l, 'c, 'm, 'd, 's, 'e, 'pp, 'cp, 'gp) engine \<Rightarrow> (_, _, _, _, _, _, _, _, _, _, _) engine option" where
  "establish_leader C now e =
     do {
       candidate \<leftarrow> en_candidate e;
       (case establish C now candidate (e\<lparr>en_candidate := None\<rparr>) of
          (None, e) \<Rightarrow> Some e
        | (Some ld, e) \<Rightarrow>
            do {
              let v = ld_committed_vote ld;
              let lst = ld_last_log_id ld;
              e \<leftarrow> rebuild_replication_streams C True (e\<lparr>en_pre_candidate := None\<rparr>);
              (_, e) \<leftarrow> update_vote C now (committed_into_vote v) e;
              let e = set_state (snd (accept_log_io (tc_lid C) (en_state e) (io_id_new_log_io v lst))) e;
              map_option snd (leader_append_entries C [Blank] e)
            })
     }"

definition handle_vote_resp ::
  "('n, 'nd, 'l, 'c::linorder, 'm, 'q, 'pp, 'cp, 'gp) raft_type_config \<Rightarrow> nat \<Rightarrow> 'n \<Rightarrow> ('l, 'c) vote_response \<Rightarrow>
   ('n, 'nd, 'l, 'c, 'm, 'd, 's, 'e, 'pp, 'cp, 'gp) engine \<Rightarrow> (_, _, _, _, _, _, _, _, _, _, _) engine option" where
  "handle_vote_resp C now target resp e =
     (case en_candidate e of
        None \<Rightarrow> Some e
      | Some candidate \<Rightarrow>
          if vote_granted resp \<and> vp_vote resp = cd_vote candidate then
            (case grant_by C candidate target of
               (quorum_granted, candidate) \<Rightarrow>
                 let e = e\<lparr>en_candidate := Some candidate\<rparr>
                 in if quorum_granted then establish_leader C now e else Some e)
          else
            (let e = (if vp_last_log_id resp > last_log_id (en_state e) then set_greater_log (vp_last_log_id resp) e else e);
                 v = uncommitted_into_vote (to_non_committed (vp_vote resp))
             in map_option snd (update_vote C now v e)))"

definition handle_pre_vote_resp ::
  "('n, 'nd, 'l, 'c::linorder, 'm, 'q, 'pp, 'cp, 'gp) raft_type_config \<Rightarrow> (nat \<Rightarrow> nat \<Rightarrow> nat) \<Rightarrow> nat \<Rightarrow> 'n \<Rightarrow>
   ('l, 'c) vote_response \<Rightarrow> ('n, 'nd, 'l, 'c, 'm, 'd, 's, 'e, 'pp, 'cp, 'gp) engine \<Rightarrow>
   (_, _, _, _, _, _, _, _, _, _, _) engine option" where
  "handle_pre_vote_resp C rng now target resp e =
     (case en_pre_candidate e of
        None \<Rightarrow> Some e
      | Some pre_candidate \<Rightarrow>
          if vote_granted resp then
            (case grant_by C pre_candidate target of
               (quorum_granted, pre_candidate) \<Rightarrow>
                 let e = e\<lparr>en_pre_candidate := Some pre_candidate\<rparr>
                 in if quorum_granted then elect C rng now e else Some e)
          else
            (let e = (if vp_last_log_id resp > last_log_id (en_state e) then set_greater_log (vp_last_log_id resp) e else e)
             in if vote_gt (tc_lid C) (vp_vote resp) (vote_ref (en_state e)) then
                  map_option snd (update_vote C now (uncommitted_into_vote (to_non_committed (vp_vote resp))) e)
                else Some e))"

section \<open>Replication to this node\<close>

definition append_entries ::
  "('n, 'nd, 'l, 'c::linorder, 'm, 'q, 'pp, 'cp, 'gp) raft_type_config \<Rightarrow> nat \<Rightarrow> 'l vote \<Rightarrow> ('c, 'd, 'm) log_segment \<Rightarrow>
   ('n, 'nd, 'l, 'c, 'm, 'd, 's, 'e, 'pp, 'cp, 'gp) engine \<Rightarrow>
   ((('l, 'c) reject_append_entries + 'c log_id option) \<times> (_, _, _, _, _, _, _, _, _, _, _) engine) option" where
  "append_entries C now v segment e =
     do {
       (res, e) \<leftarrow> update_vote C now v e;
       Some (case res of
               Inl higher \<Rightarrow> (Inl (RejectVote higher), e)
             | Inr _ \<Rightarrow>
                 (let lv = to_committed (vote_ref (en_state e))
                  in case ensure_log_consecutive C (seg_prev_log_id segment) e of
                       (Inl err, e) \<Rightarrow> (Inl err, e)
                     | (Inr _, e) \<Rightarrow>
                         (Inr (segment_last segment),
                          follower_append_entries C lv (seg_prev_log_id segment) (seg_entries segment) e)))
     }"

definition handle_append_entries ::
  "('n, 'nd, 'l, 'c::linorder, 'm, 'q, 'pp, 'cp, 'gp) raft_type_config \<Rightarrow> nat \<Rightarrow> 'l vote \<Rightarrow> ('c, 'd, 'm) log_segment \<Rightarrow>
   nat \<Rightarrow> ('n, 'nd, 'l, 'c, 'm, 'd, 's, 'e, 'pp, 'cp, 'gp) engine \<Rightarrow> (_, _, _, _, _, _, _, _, _, _, _) engine option" where
  "handle_append_entries C now v segment tx e =
     do {
       (res, e) \<leftarrow> append_entries C now v segment e;
       let result =
         (case res of
            Inr lst \<Rightarrow> Inr lst
          | Inl (RejectVote higher) \<Rightarrow> Inl (HigherVote higher)
          | Inl (ConflictingLogId _ expect) \<Rightarrow> Inl (AppendConflict expect (Some (conflict_hint e))));
       let cond =
         (case result of
            Inr lst \<Rightarrow> Some (IOFlushed (io_id_new_log_io (to_committed (vote_ref (en_state e))) lst))
          | Inl _ \<Rightarrow> None);
       Some (push_command (Respond cond (RespondAppendEntries result tx)) e)
     }"

definition handle_install_full_snapshot ::
  "('n, 'nd, 'l, 'c::linorder, 'm, 'q, 'pp, 'cp, 'gp) raft_type_config \<Rightarrow> nat \<Rightarrow> 'l vote \<Rightarrow> ('c, 'm, 's) snapshot \<Rightarrow>
   nat \<Rightarrow> ('n, 'nd, 'l, 'c, 'm, 'd, 's, 'e, 'pp, 'cp, 'gp) engine \<Rightarrow> (_, _, _, _, _, _, _, _, _, _, _) engine option" where
  "handle_install_full_snapshot C now v snapshot tx e =
     do {
       (tx, e) \<leftarrow> accept_vote C now v tx (\<lambda>s _ tx. RespondInstallFullSnapshot (vote_ref s) tx) e;
       (case tx of
          None \<Rightarrow> Some e
        | Some tx \<Rightarrow>
            do {
              (cond, e) \<leftarrow> install_full_snapshot C (to_committed (vote_ref (en_state e))) snapshot e;
              Some (push_command (Respond cond (RespondInstallFullSnapshot (vote_ref (en_state e)) tx)) e)
            })
     }"

section \<open>Maintenance\<close>

definition refresh_server_state ::
  "('n, 'nd, 'l, 'c::linorder, 'm, 'q, 'pp, 'cp, 'gp) raft_type_config \<Rightarrow> nat \<Rightarrow>
   ('n, 'nd, 'l, 'c, 'm, 'd, 's, 'e, 'pp, 'cp, 'gp) engine \<Rightarrow> (_, _, _, _, _, _, _, _, _, _, _) engine option" where
  "refresh_server_state C now e = update_internal_server_state C now e"

definition try_purge_log ::
  "('n, 'nd, 'l, 'c::linorder, 'm, 'q, 'pp, 'cp, 'gp) raft_type_config \<Rightarrow>
   ('n, 'nd, 'l, 'c, 'm, 'd, 's, 'e, 'pp, 'cp, 'gp) engine \<Rightarrow> (_, _, _, _, _, _, _, _, _, _, _) engine option" where
  "try_purge_log C e = (if en_leader e \<noteq> None then rh_try_purge_log C e else Some (purge_log e))"

definition on_building_snapshot_done ::
  "('n, 'nd, 'l, 'c::linorder, 'm, 'q, 'pp, 'cp, 'gp) raft_type_config \<Rightarrow> ('c, 'm) snapshot_meta option \<Rightarrow>
   ('n, 'nd, 'l, 'c, 'm, 'd, 's, 'e, 'pp, 'cp, 'gp) engine \<Rightarrow> (_, _, _, _, _, _, _, _, _, _, _) engine option" where
  "on_building_snapshot_done C meta e =
     (let e = set_state (set_building_snapshot False (en_state e)) e
      in case meta of
           None \<Rightarrow> Some e
         | Some meta \<Rightarrow>
             (let st = en_state e;
                  st = (case snap_last_log_id meta of
                          None \<Rightarrow> st
                        | Some x \<Rightarrow>
                            st\<lparr>st_io_state := (st_io_state st)\<lparr>snapshot_progress :=
                                 try_update_all (<) (snapshot_progress (st_io_state st)) x\<rparr>\<rparr>)
              in case update_snapshot meta (set_state st e) of
                   (False, e) \<Rightarrow> Some e
                 | (True, e) \<Rightarrow> try_purge_log C (schedule_policy_based_purge e)))"

definition trigger_purge_log ::
  "('n, 'nd, 'l, 'c::linorder, 'm, 'q, 'pp, 'cp, 'gp) raft_type_config \<Rightarrow> nat \<Rightarrow>
   ('n, 'nd, 'l, 'c, 'm, 'd, 's, 'e, 'pp, 'cp, 'gp) engine \<Rightarrow> (_, _, _, _, _, _, _, _, _, _, _) engine option" where
  "trigger_purge_log C index e =
     (case snapshot_last_log_id (en_state e) of
        None \<Rightarrow> Some e
      | Some snap_last \<Rightarrow>
          if index < next_index (st_purge_upto (en_state e)) then Some e
          else
            do {
              let index = (if index > idx snap_last then idx snap_last else index);
              log_id \<leftarrow> get_log_id (en_state e) index;
              try_purge_log C (update_purge_upto log_id e)
            })"

definition trigger_transfer_leader ::
  "nat \<Rightarrow> 'n \<Rightarrow> ('n, 'nd, 'l, 'c, 'm, 'd, 's, 'e, 'pp, 'cp, 'gp) engine \<Rightarrow> (_, _, _, _, _, _, _, _, _, _, _) engine" where
  "trigger_transfer_leader now to e = (case transfer_leader now to e of None \<Rightarrow> e | Some e \<Rightarrow> e)"

definition next_progress_driven_command ::
  "('n, 'nd, 'l, 'c::linorder, 'm, 'd, 's, 'e, 'pp, 'cp, 'gp) engine \<Rightarrow> ('n, 'nd, 'l, 'c, 'm, 'd, 's, 'e) command option" where
  "next_progress_driven_command e =
     (let io = st_io_state (en_state e);
          ap = apply_progress io; lp = log_progress io
      in if map_option io_to_app_vote (submitted lp) = map_option io_to_app_vote (accepted lp) then
           (if next_index (submitted ap) < next_index (accepted (snapshot_progress io)) then None
            else
              (let log_submitted = Option.bind (submitted lp) io_last_log_id;
                   applicable_upto = min log_submitted (accepted ap)
               in if next_index (submitted ap) < next_index applicable_upto
                  then map_option (SaveCommittedAndApply (submitted ap)) applicable_upto
                  else None))
         else None)"

end
