(* ===== verification/NodeSpec.thy ===== *)
theory NodeSpec
  imports Vote LogIdList
begin

text \<open>
  What a node promises, without the machinery of the engine: an abstract state of its vote, log,
  commit point, snapshot and role, and the steps that it may take.  The invariant and the monotonicity
  results proved here hold for every implementation whose operations are sequences of these steps.
\<close>

section \<open>Lookups under the operations on the log\<close>

lemma log_get_at:
  assumes "log_wf l"
  shows "log_get l i = Some x \<longleftrightarrow>
    (first_index l \<le> i \<and> log_view l i = Some (clid x) \<and> idx x = i) \<or> (purged l = Some x \<and> idx x = i)"
  using assms
  by (cases x) (auto simp: log_get_def ref_at_view first_index_def log_view_def split: if_splits option.splits)

lemma log_get_extend:
  assumes "log_wf l" "can_extend l ids" "log_get l i = Some x"
  shows "log_get (log_extend l ids) i = Some x"
proof -
  have "i < next_index (log_last l)" using log_last_greatest[OF assms(1,3)] by simp
  then show ?thesis
    using assms(3) log_extend_view[OF assms(1,2), of i]
    by (auto simp: log_get_at[OF assms(1)] log_get_at[OF log_extend_wf[OF assms(1,2)]])
qed

lemma log_get_truncate:
  assumes "log_wf l" "log_get l i = Some x" "i < at"
  shows "log_get (log_truncate l at) i = Some x"
  using assms log_truncate_view[OF assms(1)]
  by (auto simp: log_get_at[OF assms(1)] log_get_at[OF log_truncate_wf[OF assms(1)]])

lemma log_purge_purged:
  assumes "log_wf l"
  shows "purged (log_purge l x) = (if idx x < first_index l then purged l else Some x)"
    "first_index (log_purge l x) = max (first_index l) (if idx x < first_index l then 0 else idx x + 1)"
  by (simp_all add: log_purge_cases[OF assms] first_index_def)

lemma log_get_purge:
  assumes "log_wf l" "log_get l (idx x) = Some x" "log_get l i = Some y" "idx x \<le> i"
  shows "log_get (log_purge l x) i = Some y"
proof -
  have "can_purge l x" using assms(2) by (simp add: can_purge_def)
  from log_purge_wf[OF assms(1) this] have wf: "log_wf (log_purge l x)" .
  show ?thesis
  proof (cases "idx x < first_index l")
    case True
    then show ?thesis using assms(3) by (simp add: log_purge_cases[OF assms(1)])
  next
    case False
    then show ?thesis
      using assms(2-) log_purge_view[OF assms(1), of x i] log_purge_purged[OF assms(1), of x]
      by (cases "i = idx x") (auto simp: log_get_at[OF assms(1)] log_get_at[OF wf] first_index_def log_id.expand)
  qed
qed

lemma log_last_get:
  assumes "log_wf l" "log_get l i = Some x" "next_index (log_last l) = i + 1"
  shows "log_last l = Some x"
  using assms log_get_last[OF assms(1)] by (cases "log_last l") auto

lemma log_last_purge:
  assumes "log_wf l" "log_get l (idx x) = Some x"
  shows "log_last (log_purge l x) = log_last l"
proof -
  have wf: "log_wf (log_purge l x)" using assms by (simp add: log_purge_wf can_purge_def)
  obtain z where z: "log_last l = Some z" "idx x \<le> idx z"
    using log_last_greatest[OF assms] by (cases "log_last l") auto
  have get: "log_get (log_purge l x) (idx z) = Some z"
    using log_get_purge[OF assms log_get_last[OF assms(1) z(1)] z(2)] .
  have "log_get (log_purge l x) i = None" if "idx z < i" for i
    using log_get_view[OF wf, of i] log_purge_view[OF assms(1), of x i] log_view_dom[OF assms(1), of i] that z
      log_purge_purged(2)[OF assms(1), of x] first_index_le_next[OF assms(1)]
    by (auto split: if_splits)
  then have "next_index (log_last (log_purge l x)) \<le> idx z + 1"
    using log_get_last[OF wf] by (cases "log_last (log_purge l x)") (auto simp: not_less[symmetric])
  moreover have "idx z < next_index (log_last (log_purge l x))" using log_last_greatest[OF wf get] by simp
  ultimately show ?thesis using log_last_get[OF wf get] z by simp
qed

lemma log_last_purge_beyond:
  assumes "log_wf l" "next_index (log_last l) \<le> idx x"
  shows "log_last (log_purge l x) = Some x" "log_get (log_purge l x) (idx x) = Some x"
proof -
  have wf: "log_wf (log_purge l x)" using assms by (simp add: log_purge_wf can_purge_def)
  have first: "first_index (log_purge l x) = idx x + 1" "purged (log_purge l x) = Some x"
    using log_purge_purged[OF assms(1), of x] first_index_le_next[OF assms(1)] assms(2) by auto
  show get: "log_get (log_purge l x) (idx x) = Some x" using first by (simp add: log_get_at[OF wf])
  have "log_view (log_purge l x) i = None" for i
    using log_purge_view[OF assms(1), of x i] log_view_dom[OF assms(1), of i] first_index_le_next[OF assms(1)] assms(2)
    by (cases "log_view l i") auto
  then have "next_index (log_last (log_purge l x)) \<le> idx x + 1"
    using log_view_dom[OF wf, of "idx x + 1"] first(1) by auto
  then show "log_last (log_purge l x) = Some x"
    using log_last_get[OF wf get] log_last_greatest[OF wf get] by simp
qed

lemma consecutive_last: "ids \<noteq> [] \<Longrightarrow> consecutive_from n ids \<Longrightarrow> n \<le> idx (last ids)"
proof (induction ids arbitrary: n rule: list_nonempty_induct)
  case (cons x xs)
  have "n + 1 \<le> idx (last xs)" using cons.IH[of "n + 1"] cons.prems by simp
  then show ?case using cons.hyps by simp
qed simp

lemma log_last_truncate:
  assumes "log_wf l" "log_last (log_truncate l at) = Some x"
  shows "log_get l (idx x) = Some x"
  using log_get_last[OF log_truncate_wf[OF assms(1)] assms(2)] log_truncate_view[OF assms(1), of at "idx x"]
  by (auto simp: log_get_at[OF assms(1)] log_get_at[OF log_truncate_wf[OF assms(1)]] split: if_splits)

lemma log_get_order:
  assumes "log_wf l" "log_get l (idx x) = Some x" "log_get l (idx y) = Some y"
  shows "x \<le> y \<longleftrightarrow> idx x \<le> idx y"
proof
  assume "x \<le> y"
  show "idx x \<le> idx y"
  proof (rule ccontr)
    assume "\<not> idx x \<le> idx y"
    then have "clid y \<le> clid x" "idx y < idx x" using log_get_mono[OF assms(1) _ assms(3,2)] by auto
    then show False using \<open>x \<le> y\<close> by (cases x; cases y) (auto simp: less_eq_log_id_def)
  qed
next
  assume "idx x \<le> idx y"
  then have "clid x \<le> clid y" using log_get_mono[OF assms(1) _ assms(2,3)] by auto
  with \<open>idx x \<le> idx y\<close> show "x \<le> y" by (cases x; cases y) (auto simp: less_eq_log_id_def)
qed

section \<open>A node and its steps\<close>

record ('n, 'l, 'c) node_view =
  nv_id :: 'n
  nv_vote :: "'l vote"
  nv_log :: "'c log_id_list"
  nv_committed :: "'c log_id option"
  nv_snapshot :: "'c log_id option"
  nv_purge_upto :: "'c log_id option"
  nv_candidate :: "('l vote \<times> 'c log_id option) option"
  nv_leader :: "('l committed_vote \<times> 'c log_id option) option"

abbreviation nv_last :: "('n, 'l, 'c) node_view \<Rightarrow> 'c log_id option" where
  "nv_last s \<equiv> log_last (nv_log s)"

text \<open>The node's vote is for itself, and the latest committed leader id that the vote stands for.\<close>

definition own_vote :: "('t, 'n, 'l, 'c) leader_id_ops \<Rightarrow> ('n, 'l, 'c) node_view \<Rightarrow> bool" where
  "own_vote L s \<longleftrightarrow> leader_node_id L (nv_vote s) = nv_id s"

definition vote_clid :: "('t, 'n, 'l, 'c) leader_id_ops \<Rightarrow> ('n, 'l, 'c) node_view \<Rightarrow> 'c" where
  "vote_clid L s = lid_to_committed L (v_leader_id (nv_vote s))"

definition leader_ids :: "'c \<Rightarrow> 'c log_id option \<Rightarrow> nat \<Rightarrow> 'c log_id list" where
  "leader_ids c lst n = map (LogId c) [next_index lst ..< next_index lst + n]"

inductive node_step ::
  "('t::linorder, 'n, 'l, 'c::linorder) leader_id_ops \<Rightarrow> ('n, 'l, 'c) node_view \<Rightarrow> ('n, 'l, 'c) node_view \<Rightarrow> bool"
  for L where
  adopt:
    "vote_ge L v (nv_vote s) \<Longrightarrow> leader_node_id L v \<noteq> nv_id s \<Longrightarrow>
     node_step L s (s\<lparr>nv_vote := v, nv_candidate := None, nv_leader := None\<rparr>)"
| resign: "node_step L s (s\<lparr>nv_candidate := None, nv_leader := None\<rparr>)"
| campaign:
    "vote_ge L v (nv_vote s) \<Longrightarrow> vote_term L (nv_vote s) < vote_term L v \<Longrightarrow> \<not> v_committed v \<Longrightarrow>
     leader_node_id L v = nv_id s \<Longrightarrow>
     node_step L s (s\<lparr>nv_vote := v, nv_candidate := Some (v, nv_last s), nv_leader := None\<rparr>)"
| win:
    "nv_candidate s = Some (nv_vote s, lst) \<Longrightarrow>
     node_step L s (s\<lparr>nv_vote := committed_into_vote (to_committed (nv_vote s)), nv_candidate := None,
                      nv_leader := Some (to_committed (nv_vote s), lst)\<rparr>)"
| restore:
    "v_committed (nv_vote s) \<Longrightarrow> own_vote L s \<Longrightarrow>
     node_step L s (s\<lparr>nv_leader := Some (to_committed (nv_vote s), nv_last s)\<rparr>)"
| lead:
    "nv_leader s = Some (cv, lst) \<Longrightarrow> 0 < n \<Longrightarrow> ids = leader_ids (cv_committed_leader_id L cv) lst n \<Longrightarrow>
     node_step L s (s\<lparr>nv_log := log_extend (nv_log s) ids, nv_leader := Some (cv, Some (last ids))\<rparr>)"
| truncate:
    "\<not> own_vote L s \<Longrightarrow> next_index (nv_committed s) \<le> at \<Longrightarrow>
     node_step L s (s\<lparr>nv_log := log_truncate (nv_log s) at\<rparr>)"
| extend:
    "\<not> own_vote L s \<Longrightarrow> can_extend (nv_log s) ids \<Longrightarrow> \<forall>x \<in> set ids. clid x \<le> vote_clid L s \<Longrightarrow>
     node_step L s (s\<lparr>nv_log := log_extend (nv_log s) ids\<rparr>)"
| found:
    "nv_last s = None \<Longrightarrow> nv_candidate s = None \<Longrightarrow> nv_leader s = None \<Longrightarrow> vote_ge L v (nv_vote s) \<Longrightarrow>
     leader_node_id L v = nv_id s \<Longrightarrow>
     node_step L s (s\<lparr>nv_vote := v, nv_log := log_extend (nv_log s) [LogId (lid_to_committed L (v_leader_id v)) 0]\<rparr>)"
| commit:
    "log_get (nv_log s) (idx x) = Some x \<Longrightarrow> next_index (nv_committed s) \<le> idx x + 1 \<Longrightarrow>
     node_step L s (s\<lparr>nv_committed := Some x\<rparr>)"
| take_snapshot:
    "next_index x \<le> next_index (nv_committed s) \<Longrightarrow> node_step L s (s\<lparr>nv_snapshot := x\<rparr>)"
| schedule_purge:
    "log_get (nv_log s) (idx x) = Some x \<Longrightarrow> idx x < next_index (nv_snapshot s) \<Longrightarrow>
     node_step L s (s\<lparr>nv_purge_upto := Some x\<rparr>)"
| purge:
    "nv_purge_upto s = Some x \<Longrightarrow> node_step L s (s\<lparr>nv_log := log_purge (nv_log s) x\<rparr>)"
| install:
    "\<not> own_vote L s \<Longrightarrow> next_index (nv_committed s) \<le> idx x \<Longrightarrow> clid x \<le> vote_clid L s \<Longrightarrow>
     can_purge (nv_log s) x \<Longrightarrow>
     node_step L s (s\<lparr>nv_log := log_purge (nv_log s) x, nv_committed := Some x, nv_snapshot := Some x,
                      nv_purge_upto := Some x\<rparr>)"

abbreviation node_run ::
  "('t::linorder, 'n, 'l, 'c::linorder) leader_id_ops \<Rightarrow> ('n, 'l, 'c) node_view \<Rightarrow> ('n, 'l, 'c) node_view \<Rightarrow> bool" where
  "node_run L \<equiv> (node_step L)\<^sup>*\<^sup>*"

section \<open>The invariant\<close>

definition role_inv :: "('t, 'n, 'l, 'c) leader_id_ops \<Rightarrow> ('n, 'l, 'c) node_view \<Rightarrow> bool" where
  "role_inv L s \<longleftrightarrow>
     (case nv_candidate s of None \<Rightarrow> True | Some (v, lst) \<Rightarrow> v = nv_vote s \<and> \<not> v_committed v \<and> lst = nv_last s \<and> own_vote L s) \<and>
     (case nv_leader s of None \<Rightarrow> True | Some (cv, lst) \<Rightarrow> committed_into_vote cv = nv_vote s \<and> lst = nv_last s \<and> own_vote L s)"

definition log_inv :: "('t, 'n, 'l, 'c::linorder) leader_id_ops \<Rightarrow> ('n, 'l, 'c) node_view \<Rightarrow> bool" where
  "log_inv L s \<longleftrightarrow>
     log_wf (nv_log s) \<and>
     (case nv_last s of None \<Rightarrow> True | Some x \<Rightarrow> clid x \<le> vote_clid L s) \<and>
     (case nv_committed s of None \<Rightarrow> True | Some x \<Rightarrow> log_get (nv_log s) (idx x) = Some x) \<and>
     first_index (nv_log s) \<le> next_index (nv_committed s) \<and>
     next_index (nv_snapshot s) \<le> next_index (nv_committed s) \<and>
     (case nv_purge_upto s of
        None \<Rightarrow> True
      | Some x \<Rightarrow> idx x < next_index (nv_committed s) \<and>
          (idx x < first_index (nv_log s) \<or> log_get (nv_log s) (idx x) = Some x))"

definition node_inv :: "('t, 'n, 'l, 'c::linorder) leader_id_ops \<Rightarrow> ('n, 'l, 'c) node_view \<Rightarrow> bool" where
  "node_inv L s \<longleftrightarrow> role_inv L s \<and> log_inv L s"

text \<open>The entries that a log and a later one share: those of the earlier one that are still retained.\<close>

definition keeps_below :: "nat \<Rightarrow> 'c log_id_list \<Rightarrow> 'c log_id_list \<Rightarrow> bool" where
  "keeps_below n l l' \<longleftrightarrow>
     first_index l \<le> first_index l' \<and> (\<forall>i < n. first_index l' \<le> i \<longrightarrow> log_view l' i = log_view l i)"

lemma keeps_below_refl [simp]: "keeps_below n l l"
  by (simp add: keeps_below_def)

lemma keeps_below_trans: "keeps_below n l m \<Longrightarrow> keeps_below n m k \<Longrightarrow> keeps_below n l k"
  by (auto simp: keeps_below_def)

lemma keeps_below_mono: "keeps_below n l m \<Longrightarrow> k \<le> n \<Longrightarrow> keeps_below k l m"
  by (simp add: keeps_below_def)

lemma leader_ids_simps:
  "leader_ids c lst 0 = []"
  "leader_ids c lst (Suc n) = LogId c (next_index lst) # leader_ids c (Some (LogId c (next_index lst))) n"
  "0 < n \<Longrightarrow> leader_ids c lst n \<noteq> []"
  "length (leader_ids c lst n) = n"
  by (simp_all add: leader_ids_def upt_rec[of "next_index lst"] del: upt_Suc)

lemma leader_ids_last: "0 < n \<Longrightarrow> last (leader_ids c lst n) = LogId c (next_index lst + n - 1)"
  by (cases n) (simp_all add: leader_ids_def)

lemma leader_ids_clid: "x \<in> set (leader_ids c lst n) \<Longrightarrow> clid x = c"
  by (auto simp: leader_ids_def)

lemma leader_ids_consecutive: "consecutive_from (next_index lst) (leader_ids c lst n)"
proof (induction n arbitrary: lst)
  case (Suc n)
  then show ?case using Suc[of "Some (LogId c (next_index lst))"] by (simp add: leader_ids_simps)
qed (simp add: leader_ids_simps)

lemma sorted_constant: "sorted (map (\<lambda>_. c) xs)"
  by (induction xs) auto

lemma can_extend_leader_ids:
  assumes "case log_last l of None \<Rightarrow> True | Some x \<Rightarrow> clid x \<le> c"
  shows "can_extend l (leader_ids c (log_last l) n)"
proof -
  define ids where "ids = leader_ids c (log_last l) n"
  have "map clid ids = map (\<lambda>_. c) [next_index (log_last l) ..< next_index (log_last l) + n]"
    unfolding ids_def leader_ids_def map_map by (rule map_cong) simp_all
  then have "sorted (map clid ids)" by (simp only: sorted_constant)
  moreover have "\<forall>x \<in> set ids. clid x = c" by (simp add: ids_def leader_ids_clid)
  moreover have "consecutive_from (next_index (log_last l)) ids" unfolding ids_def by (rule leader_ids_consecutive)
  ultimately have "can_extend l ids" using assms by (auto simp: can_extend_def split: option.splits)
  then show ?thesis by (simp only: ids_def)
qed

lemma commit_vote_simps [simp]:
  "v_leader_id (committed_into_vote cv) = cv_leader_id cv"
  "v_committed (committed_into_vote cv)"
  "cv_leader_id (to_committed v) = v_leader_id v"
  "leader_node_id L (committed_into_vote (to_committed v)) = leader_node_id L v"
  "vote_term L (committed_into_vote (to_committed v)) = vote_term L v"
  by (simp_all add: committed_into_vote_def to_committed_def leader_node_id_def vote_term_def)

lemma leader_no_candidate: "role_inv L s \<Longrightarrow> nv_leader s \<noteq> None \<Longrightarrow> nv_candidate s = None"
proof (rule ccontr)
  assume inv: "role_inv L s" and "nv_leader s \<noteq> None" "nv_candidate s \<noteq> None"
  then obtain cv lst where "committed_into_vote cv = nv_vote s" "\<not> v_committed (nv_vote s)"
    by (auto simp: role_inv_def)
  then show False by (metis commit_vote_simps(2))
qed

lemma log_inv_iff:
  "log_inv L s \<longleftrightarrow>
     log_wf (nv_log s) \<and> (\<forall>x. nv_last s = Some x \<longrightarrow> clid x \<le> vote_clid L s) \<and>
     (\<forall>x. nv_committed s = Some x \<longrightarrow> log_get (nv_log s) (idx x) = Some x) \<and>
     first_index (nv_log s) \<le> next_index (nv_committed s) \<and>
     next_index (nv_snapshot s) \<le> next_index (nv_committed s) \<and>
     (\<forall>x. nv_purge_upto s = Some x \<longrightarrow> idx x < next_index (nv_committed s) \<and>
        (idx x < first_index (nv_log s) \<or> log_get (nv_log s) (idx x) = Some x))"
  by (auto simp: log_inv_def split: option.splits)

lemma log_inv_vote: "v_leader_id v = v_leader_id (nv_vote s) \<Longrightarrow> log_inv L (s\<lparr>nv_vote := v\<rparr>) = log_inv L s"
  by (simp add: log_inv_iff vote_clid_def)

context raft_leader_id
begin

lemma step_vote: "node_step L s s' \<Longrightarrow> vote_ge L (nv_vote s') (nv_vote s)"
  by (induction rule: node_step.induct)
    (auto simp: committed_into_vote_def to_committed_def intro: commit_same_leader_ge)

lemma step_id: "node_step L s s' \<Longrightarrow> nv_id s' = nv_id s"
  by (induction rule: node_step.induct) auto

lemma vote_clid_mono:
  assumes "vote_ge L v (nv_vote s)"
  shows "vote_clid L s \<le> lid_to_committed L (v_leader_id v)"
  using vote_ge_committed_leader[OF assms] by (simp add: vote_clid_def)

lemma step_role_inv:
  assumes "node_step L s s'" "node_inv L s"
  shows "role_inv L s'"
  using assms
proof (induction rule: node_step.induct)
  case (purge s x)
  then have "nv_last (s\<lparr>nv_log := log_purge (nv_log s) x\<rparr>) = nv_last s"
    using log_last_purge[of "nv_log s" x] log_purge_cases[of "nv_log s" x]
    by (auto simp: node_inv_def log_inv_def)
  then show ?case using purge by (auto simp: node_inv_def role_inv_def own_vote_def split: option.splits)
next
  case (lead s cv lst n ids)
  then have "nv_candidate s = None" "ids \<noteq> []"
    using leader_no_candidate[of L s] by (simp_all add: node_inv_def leader_ids_simps)
  then show ?case using lead(1,4) by (simp add: node_inv_def role_inv_def own_vote_def log_extend_last)
qed (auto simp: node_inv_def role_inv_def own_vote_def log_extend_last leader_ids_simps split: option.splits if_splits)

lemma step_log_inv:
  assumes "node_step L s s'" "node_inv L s"
  shows "log_inv L s'"
  using assms
proof (induction rule: node_step.induct)
  case (adopt v s)
  then show ?case using vote_clid_mono[OF adopt(1)]
    by (auto simp: node_inv_def log_inv_def vote_clid_def split: option.splits)
next
  case (campaign v s)
  then show ?case using vote_clid_mono[OF campaign(1)]
    by (auto simp: node_inv_def log_inv_def vote_clid_def split: option.splits)
next
  case (lead s cv lst n ids)
  then have c: "cv_committed_leader_id L cv = vote_clid L s" "lst = nv_last s"
    by (auto simp: node_inv_def role_inv_def vote_clid_def cv_committed_leader_id_def simp flip: commit_vote_simps(1))
  have wf: "log_wf (nv_log s)" using lead by (simp add: node_inv_def log_inv_def)
  have ext: "can_extend (nv_log s) ids"
    using lead c by (auto intro!: can_extend_leader_ids simp: node_inv_def log_inv_def)
  have "clid (last ids) = vote_clid L s"
    using leader_ids_last[OF lead(2), of "vote_clid L s" "nv_last s"] lead(3) c by simp
  moreover have "ids \<noteq> []" using lead(2,3) by (simp add: leader_ids_simps)
  ultimately show ?case
    using lead(4) log_extend_wf[OF wf ext]
    by (auto simp: node_inv_def log_inv_iff log_extend_last vote_clid_def intro: log_get_extend[OF wf ext])
next
  case (truncate s at)
  have wf: "log_wf (nv_log s)" using truncate by (simp add: node_inv_def log_inv_def)
  have last: "clid x \<le> vote_clid L s" if "log_last (log_truncate (nv_log s) at) = Some x" for x
    using log_last_greatest[OF wf log_last_truncate[OF wf that]] truncate
    by (cases "nv_last s") (auto simp: node_inv_def log_inv_iff dest: log_id_le_clid intro: order_trans)
  show ?case
    using truncate log_truncate_wf[OF wf, of at] last
    by (auto simp: node_inv_def log_inv_iff vote_clid_def intro!: log_get_truncate[OF wf])
next
  case (extend s ids)
  have wf: "log_wf (nv_log s)" using extend by (simp add: node_inv_def log_inv_def)
  show ?case
    using extend log_extend_wf[OF wf extend(2)]
    by (auto simp: node_inv_def log_inv_iff log_extend_last vote_clid_def intro: log_get_extend[OF wf extend(2)]
        split: if_splits)
next
  case (found s v)
  have wf: "log_wf (nv_log s)" using found by (simp add: node_inv_def log_inv_def)
  have ext: "can_extend (nv_log s) [LogId (lid_to_committed L (v_leader_id v)) 0]"
    using found by (simp add: can_extend_def)
  show ?case
    using found log_extend_wf[OF wf ext]
    by (auto simp: node_inv_def log_inv_iff vote_clid_def log_extend_last
        intro: log_get_extend[OF wf ext] simp del: log_extend_simps)
next
  case (purge s x)
  have wf: "log_wf (nv_log s)" using purge by (simp add: node_inv_def log_inv_def)
  show ?case
  proof (cases "idx x < first_index (nv_log s)")
    case True
    then show ?thesis using purge by (simp add: log_purge_cases[OF wf] node_inv_def)
  next
    case False
    then have get: "log_get (nv_log s) (idx x) = Some x" "idx x < next_index (nv_committed s)"
      using purge by (auto simp: node_inv_def log_inv_def)
    then show ?thesis
      using purge log_purge_wf[OF wf, of x] log_last_purge[OF wf get(1)] log_purge_purged[OF wf, of x]
      by (auto simp: node_inv_def log_inv_iff vote_clid_def can_purge_def intro: log_get_purge[OF wf get(1)])
  qed
next
  case (install s x)
  have wf: "log_wf (nv_log s)" using install by (simp add: node_inv_def log_inv_def)
  have first: "first_index (log_purge (nv_log s) x) = idx x + 1"
    using install log_purge_purged(2)[OF wf, of x] by (auto simp: node_inv_def log_inv_def)
  have get: "log_get (log_purge (nv_log s) x) (idx x) = Some x" and
    last: "log_last (log_purge (nv_log s) x) = nv_last s \<or> log_last (log_purge (nv_log s) x) = Some x"
    using install(4) log_get_purge[OF wf, of x "idx x" x] log_last_purge[OF wf, of x] log_last_purge_beyond[OF wf, of x]
    by (auto simp: can_purge_def)
  show ?case
    using install log_purge_wf[OF wf install(4)] first get last
    by (auto simp: node_inv_def log_inv_iff vote_clid_def)
next
  case (commit s x)
  then show ?case by (auto simp: node_inv_def log_inv_iff vote_clid_def)
next
  case (take_snapshot x s)
  then show ?case by (auto simp: node_inv_def log_inv_iff vote_clid_def)
next
  case (schedule_purge s x)
  then show ?case by (auto simp: node_inv_def log_inv_iff vote_clid_def)
qed (simp_all add: node_inv_def log_inv_iff vote_clid_def)

lemma step_inv: "node_step L s s' \<Longrightarrow> node_inv L s \<Longrightarrow> node_inv L s'"
  using step_role_inv step_log_inv by (simp add: node_inv_def)

section \<open>What a run keeps\<close>

lemma step_committed:
  assumes "node_step L s s'"
  shows "next_index (nv_committed s) \<le> next_index (nv_committed s')"
  using assms by (induction rule: node_step.induct) auto

lemma extend_keeps:
  assumes "log_wf l" "can_extend l ids"
  shows "keeps_below (next_index (log_last l)) l (log_extend l ids)" "next_index (log_last l) \<le> next_index (log_last (log_extend l ids))"
proof -
  show "keeps_below (next_index (log_last l)) l (log_extend l ids)"
    using log_extend_view[OF assms] by (simp add: keeps_below_def Let_def)
  have "next_index (log_last l) \<le> idx (last ids)" if "ids \<noteq> []"
    using consecutive_last[OF that] assms(2) by (simp add: can_extend_def)
  then show "next_index (log_last l) \<le> next_index (log_last (log_extend l ids))"
    by (auto simp: log_extend_last intro: le_SucI)
qed

lemma purge_keeps: "log_wf l \<Longrightarrow> keeps_below n l (log_purge l x)"
  using log_purge_view[of l x] log_purge_purged(2)[of l x] by (auto simp: keeps_below_def)

lemma lead_can_extend:
  assumes "node_inv L s" "nv_leader s = Some (cv, lst)"
  shows "can_extend (nv_log s) (leader_ids (cv_committed_leader_id L cv) lst n)"
proof -
  have "cv_committed_leader_id L cv = vote_clid L s" "lst = nv_last s"
    using assms
    by (auto simp: node_inv_def role_inv_def vote_clid_def cv_committed_leader_id_def simp flip: commit_vote_simps(1))
  then show ?thesis using assms by (auto intro!: can_extend_leader_ids simp: node_inv_def log_inv_def)
qed

lemma committed_in_log:
  assumes "node_inv L s"
  shows "next_index (nv_committed s) \<le> next_index (nv_last s)"
  using assms log_last_greatest[of "nv_log s"]
  by (cases "nv_committed s") (auto simp: node_inv_def log_inv_def Suc_le_eq)

text \<open>An own vote keeps the whole log; any step keeps what is committed.\<close>

lemma step_own:
  assumes "node_step L s s'" "node_inv L s" "own_vote L s"
  shows "keeps_below (next_index (nv_last s)) (nv_log s) (nv_log s') \<and> next_index (nv_last s) \<le> next_index (nv_last s')"
  using assms
proof (induction rule: node_step.induct)
  case (lead s cv lst n ids)
  then show ?case using extend_keeps[OF _ lead_can_extend] by (auto simp: node_inv_def log_inv_def)
next
  case (found s v)
  then show ?case by (auto simp: keeps_below_def)
next
  case (purge s x)
  have wf: "log_wf (nv_log s)" using purge by (simp add: node_inv_def log_inv_def)
  have "log_last (log_purge (nv_log s) x) = nv_last s"
    using purge log_last_purge[OF wf, of x] log_purge_cases[OF wf, of x] by (auto simp: node_inv_def log_inv_def)
  then show ?case using purge_keeps[OF wf] by simp
qed auto

lemma step_keeps:
  assumes "node_step L s s'" "node_inv L s"
  shows "keeps_below (next_index (nv_committed s)) (nv_log s) (nv_log s')"
proof (cases "own_vote L s")
  case True
  then show ?thesis using step_own[OF assms True] committed_in_log[OF assms(2)] by (blast intro: keeps_below_mono)
next
  case False
  with assms show ?thesis
  proof (induction rule: node_step.induct)
    case (lead s cv lst n ids)
    then show ?case by (auto simp: node_inv_def role_inv_def)
  next
    case (truncate s at)
    then show ?case using log_truncate_view[of "nv_log s" at] by (auto simp: keeps_below_def node_inv_def log_inv_def)
  next
    case (extend s ids)
    then show ?case
      using extend_keeps(1)[of "nv_log s" ids] committed_in_log[OF extend(4)]
      by (auto simp: node_inv_def log_inv_def intro: keeps_below_mono)
  next
    case (found s v)
    then show ?case using committed_in_log[OF found(6)] by (auto simp: keeps_below_def)
  qed (auto simp: node_inv_def log_inv_def intro: purge_keeps)
qed

lemma run_inv: "node_run L s s' \<Longrightarrow> node_inv L s \<Longrightarrow> node_inv L s'"
  by (induction rule: rtranclp_induct) (auto intro: step_inv)

lemma run_vote: "node_run L s s' \<Longrightarrow> vote_ge L (nv_vote s') (nv_vote s)"
  by (induction rule: rtranclp_induct) (auto intro: vote_ge_trans step_vote)

lemma run_committed:
  "node_run L s s' \<Longrightarrow> next_index (nv_committed s) \<le> next_index (nv_committed s')"
  by (induction rule: rtranclp_induct) (auto dest: step_committed)

lemma run_keeps:
  assumes "node_run L s s'" "node_inv L s"
  shows "keeps_below (next_index (nv_committed s)) (nv_log s) (nv_log s')"
  using assms
proof (induction rule: rtranclp_induct)
  case (step t u)
  then show ?case
    using step_keeps[OF step(2) run_inv[OF step(1,4)]] run_committed[OF step(1)]
    by (blast intro: keeps_below_trans keeps_below_mono)
qed simp

lemma run_own:
  assumes "node_run L s s'" "node_inv L s" "own_vote L s" "nv_vote s' = nv_vote s"
  shows "keeps_below (next_index (nv_last s)) (nv_log s) (nv_log s') \<and> next_index (nv_last s) \<le> next_index (nv_last s')"
  using assms
proof (induction rule: rtranclp_induct)
  case (step t u)
  have "nv_vote t = nv_vote s" using step_vote[OF step(2)] run_vote[OF step(1)] step(6) vote_ge_antisym by metis
  moreover have "nv_id t = nv_id s" using step(1) by (induction rule: rtranclp_induct) (auto dest: step_id)
  ultimately have IH: "keeps_below (next_index (nv_last s)) (nv_log s) (nv_log t)" "next_index (nv_last s) \<le> next_index (nv_last t)"
    and "own_vote L t" using step by (auto simp: own_vote_def)
  from step_own[OF step(2) run_inv[OF step(1,4)] this(3)] IH show ?case
    by (meson keeps_below_mono keeps_below_trans order_trans)
qed simp

end

end
