(* ===== verification/EngineViews.thy ===== *)
theory EngineViews
  imports Engine NodeSpec
begin

text \<open>
  The engine implements the abstract node of \<open>NodeSpec\<close>: \<open>view\<close> reads the abstract state off an
  engine, and every operation of the handlers is a run of abstract steps, most of them the empty one.
\<close>


section \<open>The abstract state of an engine\<close>

definition view :: "('n, 'nd, 'l, 'c, 'm, 'd, 's, 'e, 'pp, 'cp, 'gp) engine \<Rightarrow> ('n, 'l, 'c) node_view" where
  "view e =
     \<lparr>nv_id = own_id e, nv_vote = vote_ref (en_state e), nv_log = st_log_ids (en_state e),
      nv_committed = local_committed (en_state e), nv_snapshot = snapshot_last_log_id (en_state e),
      nv_purge_upto = st_purge_upto (en_state e),
      nv_candidate = map_option (\<lambda>cd. (cd_vote cd, cd_last_log_id cd)) (en_candidate e),
      nv_leader = map_option (\<lambda>ld. (ld_committed_vote ld, ld_last_log_id ld)) (en_leader e)\<rparr>"

lemma view_sel [simp]:
  "nv_id (view e) = own_id e" "nv_vote (view e) = vote_ref (en_state e)" "nv_log (view e) = st_log_ids (en_state e)"
  "nv_committed (view e) = local_committed (en_state e)" "nv_snapshot (view e) = snapshot_last_log_id (en_state e)"
  "nv_purge_upto (view e) = st_purge_upto (en_state e)"
  "nv_candidate (view e) = map_option (\<lambda>cd. (cd_vote cd, cd_last_log_id cd)) (en_candidate e)"
  "nv_leader (view e) = map_option (\<lambda>ld. (ld_committed_vote ld, ld_last_log_id ld)) (en_leader e)"
  by (simp_all add: view_def)

definition state_view ::
  "('l, 'c, 'm) raft_state \<Rightarrow> 'l vote \<times> 'c log_id_list \<times> 'c log_id option \<times> 'c log_id option \<times> 'c log_id option" where
  "state_view s = (vote_ref s, st_log_ids s, local_committed s, snapshot_last_log_id s, st_purge_upto s)"

lemmas state_view_defs = state_view_def vote_ref_def local_committed_def snapshot_last_log_id_def

lemma state_view_simps [simp]:
  "state_view (s\<lparr>st_server_state := x\<rparr>) = state_view s"
  "state_view (s\<lparr>st_membership_state := ms\<rparr>) = state_view s"
  "state_view (s\<lparr>progress_id_gen := g\<rparr>) = state_view s"
  "state_view (s\<lparr>last_inflight_id := i\<rparr>) = state_view s"
  by (simp_all add: state_view_defs)

lemma set_state_view:
  "state_view s = state_view (en_state e) \<Longrightarrow> view (set_state s e) = view e"
  by (simp add: view_def set_state_def state_view_def)

lemma command_view [simp]: "view (push_command c e) = view e" "view (prepend_command c e) = view e"
  by (simp_all add: view_def push_command_def prepend_command_def)

lemma engine_frame [simp]:
  "en_state (push_command c e) = en_state e" "en_leader (push_command c e) = en_leader e"
  "en_config (push_command c e) = en_config e" "en_candidate (push_command c e) = en_candidate e"
  "en_pre_candidate (push_command c e) = en_pre_candidate e"
  "en_state (prepend_command c e) = en_state e" "en_leader (prepend_command c e) = en_leader e"
  "en_config (prepend_command c e) = en_config e" "en_candidate (prepend_command c e) = en_candidate e"
  "en_state (set_state s e) = s" "en_leader (set_state s e) = en_leader e" "en_config (set_state s e) = en_config e"
  "en_candidate (set_state s e) = en_candidate e" "en_output (set_state s e) = en_output e"
  "en_pre_candidate (set_state s e) = en_pre_candidate e"
  "en_state (set_leader ld e) = en_state e" "en_leader (set_leader ld e) = Some ld"
  "en_config (set_leader ld e) = en_config e" "en_candidate (set_leader ld e) = en_candidate e"
  by (simp_all add: push_command_def prepend_command_def set_state_def set_leader_def)

lemma accept_log_io_view [simp]: "state_view (snd (accept_log_io L s i)) = state_view s"
  by (simp add: accept_log_io_def state_view_defs Let_def)

lemma accept_log_io_frame [simp]:
  "vote_ref (snd (accept_log_io L s i)) = vote_ref s" "st_log_ids (snd (accept_log_io L s i)) = st_log_ids s"
  "local_committed (snd (accept_log_io L s i)) = local_committed s" "st_purge_upto (snd (accept_log_io L s i)) = st_purge_upto s"
  "snapshot_last_log_id (snd (accept_log_io L s i)) = snapshot_last_log_id s"
  using accept_log_io_view[of L s i] by (simp_all add: state_view_def)

lemma server_state_view [simp]: "view (update_server_state_if_changed C e) = view e"
  by (simp add: update_server_state_if_changed_def Let_def set_state_view)

lemma server_state_frame [simp]:
  "en_leader (update_server_state_if_changed C e) = en_leader e"
  "en_config (update_server_state_if_changed C e) = en_config e"
  "en_candidate (update_server_state_if_changed C e) = en_candidate e"
  by (simp_all add: update_server_state_if_changed_def Let_def)

section \<open>Replicating\<close>

lemma set_leader_view:
  "en_leader e = Some ld \<Longrightarrow> ld_committed_vote ld' = ld_committed_vote ld \<Longrightarrow> ld_last_log_id ld' = ld_last_log_id ld \<Longrightarrow>
   view (set_leader ld' e) = view e"
  by (simp add: view_def set_leader_def)

lemma rebuild_progresses_view: "rebuild_progresses C e = Some e' \<Longrightarrow> view e' = view e"
  by (auto simp: rebuild_progresses_def Let_def update_self_quorum_def set_state_view bind_eq_Some_conv case_prod_beta
      intro!: set_leader_view[THEN trans])

lemma rebuild_streams_view: "rebuild_replication_streams C b e = Some e' \<Longrightarrow> view e' = view e"
  by (auto simp: rebuild_replication_streams_def Let_def bind_eq_Some_conv split: prod.splits intro!: set_leader_view)

lemma next_send_view: "next_send item s n = (r, item', s') \<Longrightarrow> state_view s' = state_view s"
  by (auto simp: next_send_def Let_def new_inflight_id_def split: if_splits option.splits)

lemma initiate_loop_view:
  "initiate_loop M m nid lv s out items = Some (items', s', out') \<Longrightarrow> state_view s' = state_view s"
proof (induction items arbitrary: s out items')
  case (Cons item items)
  then show ?case
    by (auto simp: bind_eq_Some_conv dest!: next_send_view split: if_splits prod.splits sum.splits)
qed simp

lemma initiate_replication_view: "initiate_replication C e = Some e' \<Longrightarrow> view e' = view e"
  by (auto simp: initiate_replication_def Let_def bind_eq_Some_conv view_def set_leader_def state_view_def
      dest!: initiate_loop_view split: prod.splits)

lemma leader_append_membership_view: "leader_append_membership C x m e = Some e' \<Longrightarrow> view e' = view e"
  by (auto simp: leader_append_membership_def Let_def bind_eq_Some_conv set_state_view
      dest!: rebuild_progresses_view rebuild_streams_view initiate_replication_view)

lemma leader_append_ids:
  assumes "assign_log_ids L ld n = (Some r, ld')"
  shows "0 < n" "iter_list (leader_log_ids_into_iter r) = leader_ids (cv_committed_leader_id L (ld_committed_vote ld)) (ld_last_log_id ld) n"
    "ld' = ld\<lparr>ld_last_log_id := Some (last (leader_ids (cv_committed_leader_id L (ld_committed_vote ld)) (ld_last_log_id ld) n))\<rparr>"
proof -
  show n: "0 < n" using assms by (auto simp: assign_log_ids_def split: if_splits)
  have r: "r = leader_log_ids_new (cv_committed_leader_id L (ld_committed_vote ld)) (next_index (ld_last_log_id ld)) (next_index (ld_last_log_id ld) + n - 1)"
    and ld': "ld' = ld\<lparr>ld_last_log_id := Some (LogId (cv_committed_leader_id L (ld_committed_vote ld)) (next_index (ld_last_log_id ld) + n - 1))\<rparr>"
    using assms n by (auto simp: assign_log_ids_def Let_def split: if_splits)
  show "ld' = ld\<lparr>ld_last_log_id := Some (last (leader_ids (cv_committed_leader_id L (ld_committed_vote ld)) (ld_last_log_id ld) n))\<rparr>"
    using ld' leader_ids_last[OF n, of "cv_committed_leader_id L (ld_committed_vote ld)" "ld_last_log_id ld"] by simp
  show "iter_list (leader_log_ids_into_iter r) = leader_ids (cv_committed_leader_id L (ld_committed_vote ld)) (ld_last_log_id ld) n"
    using n unfolding r leader_log_ids_iter_list leader_ids_def by (simp add: leader_log_ids_new_def)
qed

lemma leader_append_entries_run:
  assumes "leader_append_entries C payloads e = Some (r, e')"
  shows "node_run (tc_lid C) (view e) (view e')"
proof -
  obtain ld where ld: "en_leader e = Some ld" using assms by (auto simp: leader_append_entries_def bind_eq_Some_conv)
  show ?thesis
  proof (cases "assign_log_ids (tc_lid C) ld (length payloads)")
    case (Pair res ld')
    show ?thesis
    proof (cases res)
      case None
      then show ?thesis using assms ld Pair by (simp add: leader_append_entries_def)
    next
      case (Some log_ids)
      note ids = leader_append_ids[OF Pair[unfolded Some]]
      let ?ids = "leader_ids (cv_committed_leader_id (tc_lid C) (ld_committed_vote ld)) (ld_last_log_id ld) (length payloads)"
      let ?e = "set_leader ld' (set_state (extend_log_ids_from_same_leader (en_state e) ?ids) e)"
      have "view e' = view ?e"
        using assms ld Pair Some
        by (auto simp: leader_append_entries_def Let_def ids(2) case_prod_beta bind_eq_Some_conv set_state_view
            dest!: initiate_replication_view leader_append_membership_view split: option.splits)
      moreover have "extend_from_same_leader (st_log_ids (en_state e)) ?ids = log_extend (st_log_ids (en_state e)) ?ids"
        by (rule extend_from_same_leader_eq[where c = "cv_committed_leader_id (tc_lid C) (ld_committed_vote ld)"])
          (simp add: leader_ids_clid)
      then have "view ?e = (view e)\<lparr>nv_log := log_extend (nv_log (view e)) ?ids, nv_leader := Some (ld_committed_vote ld, Some (last ?ids))\<rparr>"
        using ids(3) by (simp add: view_def set_leader_def set_state_def extend_log_ids_from_same_leader_def state_view_defs)
      ultimately show ?thesis
        using node_step.lead[of "view e" "ld_committed_vote ld" "ld_last_log_id ld" "length payloads" ?ids "tc_lid C"] ld ids(1)
        by auto
    qed
  qed
qed

section \<open>Purging and snapshots\<close>

lemma purge_log_run: "node_run L (view e) (view (purge_log e))"
proof -
  have "node_run L (view e) ((view e)\<lparr>nv_log := log_purge (nv_log (view e)) x\<rparr>)" if "st_purge_upto (en_state e) = Some x" for x
    using node_step.purge[of "view e" x L] that by simp
  then show ?thesis
    by (auto simp: purge_log_def Let_def set_state_def accept_purge_def view_def push_command_def vote_ref_def
        local_committed_def snapshot_last_log_id_def split: option.split)
qed

lemma rh_try_purge_log_run: "rh_try_purge_log C e = Some e' \<Longrightarrow> node_run L (view e) (view e')"
  by (auto simp: rh_try_purge_log_def bind_eq_Some_conv Let_def intro: purge_log_run split: if_splits)

lemma try_purge_log_run: "try_purge_log C e = Some e' \<Longrightarrow> node_run L (view e) (view e')"
  by (auto simp: try_purge_log_def intro: purge_log_run rh_try_purge_log_run split: if_splits)

lemma update_purge_upto_run:
  assumes "get_log_id (en_state e) (idx x) = Some x" "idx x < next_index (snapshot_last_log_id (en_state e))"
  shows "node_run L (view e) (view (update_purge_upto x e))"
  using node_step.schedule_purge[of "view e" x L] assms
  by (auto simp: update_purge_upto_def set_state_def view_def vote_ref_def local_committed_def snapshot_last_log_id_def
      get_log_id_def ref_log_id_def log_get_def)

lemma wrapping_sub_one_less:
  assumes "0 < a"
  shows "wrapping_sub a 1 < a"
proof -
  have "a + 2 ^ 64 - 1 = (a - 1) + 2 ^ 64" using assms by simp
  then have "wrapping_sub a 1 = (a - 1) mod 2 ^ 64" by (simp only: wrapping_sub_def mod_add_self2)
  also have "\<dots> \<le> a - 1" by (rule mod_less_eq_dividend)
  finally show ?thesis using assms by simp
qed

text \<open>
  The end of the next batch is not index zero: a node that has purged nothing has a positive batch
  size, and the sum does not wrap to zero.
\<close>

definition batch_end_positive :: "('n, 'nd, 'l, 'c, 'm, 'd, 's, 'e, 'pp, 'cp, 'gp) engine \<Rightarrow> bool" where
  "batch_end_positive e \<longleftrightarrow>
     0 < wrapping_add (next_index (last_purged_log_id (en_state e))) (purge_batch_size (en_config e))"

lemma calc_purge_upto_in_log:
  assumes "log_wf (st_log_ids (en_state e))" "calc_purge_upto e = Some x" "batch_end_positive e"
  shows "get_log_id (en_state e) (idx x) = Some x" "idx x < next_index (snapshot_last_log_id (en_state e))"
proof -
  let ?upto = "next_index (snap_last_log_id (st_snapshot_meta (en_state e))) - max_in_snapshot_log_to_keep (en_config e)"
  have x: "log_get (st_log_ids (en_state e)) (wrapping_sub ?upto 1) = Some x" and pos: "0 < ?upto"
    using assms(2,3) by (auto simp: calc_purge_upto_def batch_end_positive_def Let_def log_get_def split: if_splits)
  note idx = log_get_clid_idx[OF assms(1) x]
  show "get_log_id (en_state e) (idx x) = Some x"
    using x idx by (simp add: get_log_id_def ref_log_id_def log_get_def)
  have "wrapping_sub ?upto 1 < ?upto" using wrapping_sub_one_less[OF pos] .
  then show "idx x < next_index (snapshot_last_log_id (en_state e))"
    using idx by (simp add: snapshot_last_log_id_def)
qed

lemma schedule_purge_run:
  assumes "log_wf (st_log_ids (en_state e))" "batch_end_positive e"
  shows "node_run L (view e) (view (schedule_policy_based_purge e))"
  using calc_purge_upto_in_log[OF assms(1) _ assms(2)] update_purge_upto_run
  by (auto simp: schedule_policy_based_purge_def split: option.split)

lemma update_snapshot_run:
  assumes "next_index (snap_last_log_id meta) \<le> next_index (local_committed (en_state e))"
  shows "node_run L (view e) (view (snd (update_snapshot meta e)))"
  using node_step.take_snapshot[of "snap_last_log_id meta" "view e" L] assms
  by (auto simp: update_snapshot_def view_def set_state_def vote_ref_def local_committed_def snapshot_last_log_id_def)

section \<open>Following\<close>

lemma truncate_logs_view:
  "view (truncate_logs C at e) =
   (if get_log_id (en_state e) at = None then view e else (view e)\<lparr>nv_log := log_truncate (nv_log (view e)) at\<rparr>)"
proof -
  have "view (set_state (st\<lparr>st_membership_state := ms\<rparr>) e) = view (set_state st e)" for st ms e
    by (simp add: view_def set_state_def state_view_defs vote_ref_def)
  then show ?thesis
    by (auto simp: truncate_logs_def Let_def set_state_view case_prod_beta split: option.split)
      (simp_all add: view_def set_state_def push_command_def vote_ref_def local_committed_def snapshot_last_log_id_def)
qed

lemma follower_append_membership_view [simp]: "view (follower_append_membership C entries e) = view e"
  by (simp add: follower_append_membership_def Let_def set_state_view)

lemma do_append_entries_view:
  "view (do_append_entries C lv entries e) =
   (view e)\<lparr>nv_log := log_extend (nv_log (view e)) (map ent_log_id entries)\<rparr>"
  by (simp add: do_append_entries_def Let_def)
    (simp add: view_def set_state_def extend_log_ids_def vote_ref_def local_committed_def snapshot_last_log_id_def)

text \<open>
  The log ids of a segment from a leader: they follow the previous one by one with leaders up to the
  sender, and the segment has the committed log id of this node at its index.
\<close>

definition segment_ok :: "'c::linorder \<Rightarrow> 'c log_id option \<Rightarrow> 'c log_id option \<Rightarrow> 'c log_id list \<Rightarrow> bool" where
  "segment_ok c committed prev ids \<longleftrightarrow>
     consecutive_from (next_index prev) ids \<and>
     sorted ((case prev of None \<Rightarrow> [] | Some p \<Rightarrow> [clid p]) @ map clid ids) \<and>
     list_all (\<lambda>x. clid x \<le> c) ids \<and>
     list_all (\<lambda>x. case committed of None \<Rightarrow> True | Some y \<Rightarrow> idx x = idx y \<longrightarrow> x = y)
       ((case prev of None \<Rightarrow> [] | Some p \<Rightarrow> [p]) @ ids)"

lemma consecutive_nth: "consecutive_from n ids \<Longrightarrow> k < length ids \<Longrightarrow> idx (ids ! k) = n + k"
  by (induction ids arbitrary: n k) (auto simp: nth_Cons split: nat.split)

lemma consecutive_drop: "consecutive_from n ids \<Longrightarrow> consecutive_from (n + k) (drop k ids)"
proof (induction k arbitrary: n ids)
  case (Suc k)
  then show ?case using Suc.IH[of "n + 1" "tl ids"] by (cases ids) simp_all
qed simp

text \<open>The log id that precedes position \<open>k\<close> of a segment.\<close>

definition segment_prev :: "'c log_id option \<Rightarrow> 'c log_id list \<Rightarrow> nat \<Rightarrow> 'c log_id option" where
  "segment_prev prev ids k = (if k = 0 then prev else Some (ids ! (k - 1)))"

lemma segment_prev_next:
  "consecutive_from (next_index prev) ids \<Longrightarrow> k \<le> length ids \<Longrightarrow>
   next_index (segment_prev prev ids k) = next_index prev + k"
  using consecutive_nth[of "next_index prev" ids "k - 1"] by (cases k) (auto simp: segment_prev_def)

lemma segment_drop_sorted:
  assumes "segment_ok c committed prev ids" "k \<le> length ids"
  shows "sorted ((case segment_prev prev ids k of None \<Rightarrow> [] | Some p \<Rightarrow> [clid p]) @ map clid (drop k ids))"
proof (cases k)
  case 0
  then show ?thesis using assms by (simp add: segment_ok_def segment_prev_def)
next
  case (Suc j)
  have "sorted (map clid ids)" using assms by (auto simp: segment_ok_def sorted_append)
  then have "sorted (drop j (map clid ids))" by (rule sorted_wrt_drop)
  moreover have "drop j (map clid ids) = clid (ids ! j) # map clid (drop k ids)"
    using assms(2) Suc by (simp add: Cons_nth_drop_Suc[symmetric] drop_map)
  ultimately show ?thesis using Suc by (simp add: segment_prev_def)
qed

lemma has_log_id_iff:
  "has_log_id s x \<longleftrightarrow> idx x < next_index (local_committed s) \<or> log_get (st_log_ids s) (idx x) = Some x"
  by (auto simp: has_log_id_def get_log_id_def ref_log_id_def log_get_def split: option.splits)

lemma log_cut_next:
  assumes "log_wf l" "first_index l \<le> at" "at \<le> next_index (log_last l)"
  shows "next_index (log_last (if log_get l at = None then l else log_truncate l at)) = at"
proof (cases "log_get l at")
  case None
  then have "\<not> at < next_index (log_last l)"
    using log_get_view[OF assms(1,2)] log_view_dom[OF assms(1), of at] assms(2) by auto
  then show ?thesis using assms(3) None by simp
next
  case (Some x)
  then show ?thesis using log_truncate_next_index[OF assms] by simp
qed

lemma segment_prev_in_log:
  assumes "case committed of None \<Rightarrow> True | Some c \<Rightarrow> log_get l (idx c) = Some c"
    and "segment_ok b committed prev ids" "k \<le> length ids" "next_index committed \<le> next_index prev + k"
    and "segment_prev prev ids k = Some p" "idx p < next_index committed \<or> log_get l (idx p) = Some p"
  shows "log_get l (idx p) = Some p"
proof (cases "idx p < next_index committed")
  case True
  have "idx p + 1 = next_index prev + k"
    using segment_prev_next[of prev ids k] assms(2,3,5) by (simp add: segment_ok_def)
  then obtain c where c: "committed = Some c" "idx p = idx c"
    using True assms(4) by (cases committed) auto
  have "p \<in> set ((case prev of None \<Rightarrow> [] | Some p \<Rightarrow> [p]) @ ids)"
    using assms(3,5) by (auto simp: segment_prev_def split: if_splits option.splits)
  then have "p = c" using assms(2) c by (auto simp: segment_ok_def list_all_iff)
  then show ?thesis using assms(1) c by simp
qed (use assms in simp)

lemma segment_can_extend:
  assumes wf: "log_wf l" and com: "case committed of None \<Rightarrow> True | Some c \<Rightarrow> log_get l (idx c) = Some c"
    and first: "first_index l \<le> next_index committed"
    and seg: "segment_ok b committed prev ids" and k: "k \<le> length ids"
    and at: "at = next_index prev + k" "next_index committed \<le> at"
    and has: "\<forall>p. segment_prev prev ids k = Some p \<longrightarrow> idx p < next_index committed \<or> log_get l (idx p) = Some p"
  shows "can_extend (if log_get l at = None then l else log_truncate l at) (drop k ids)"
proof -
  let ?l = "if log_get l at = None then l else log_truncate l at"
  have nxt: "next_index (segment_prev prev ids k) = at"
    using segment_prev_next[of prev ids k] seg k at by (simp add: segment_ok_def)
  have get: "log_get l (idx p) = Some p" "idx p + 1 = at" if "segment_prev prev ids k = Some p" for p
    using segment_prev_in_log[OF com seg k _ that] has that at nxt by auto
  have le: "at \<le> next_index (log_last l)"
    using get log_last_greatest[OF wf] nxt by (cases "segment_prev prev ids k") (auto simp: Suc_le_eq)
  have n: "next_index (log_last ?l) = at" using log_cut_next[OF wf _ le] first at by simp
  have "log_last ?l = segment_prev prev ids k"
  proof (cases "segment_prev prev ids k")
    case None
    then show ?thesis using n nxt by (cases "log_last ?l") auto
  next
    case (Some p)
    have "log_get ?l (idx p) = Some p" using get[OF Some] log_get_truncate[OF wf] by simp
    moreover have "log_wf ?l" using wf log_truncate_wf[OF wf] by simp
    ultimately show ?thesis using log_last_get[of ?l "idx p" p] n get(2)[OF Some] Some by simp
  qed
  moreover have "consecutive_from at (drop k ids)"
    using consecutive_drop[of "next_index prev" ids k] seg at by (simp add: segment_ok_def)
  ultimately show ?thesis using segment_drop_sorted[OF seg k] nxt by (simp add: can_extend_def)
qed

lemma truncate_logs_at:
  "view (truncate_logs C at e) =
   (view e)\<lparr>nv_log := (if log_get (nv_log (view e)) at = None then nv_log (view e) else log_truncate (nv_log (view e)) at)\<rparr>"
  by (simp add: truncate_logs_view get_log_id_def ref_log_id_def log_get_def)

lemma conflict_append_run:
  fixes entries :: "('c::linorder, 'd, 'm) entry list"
    and e :: "('n, 'nd, 'l, 'c, 'm, 'd, 's, 'e, 'pp, 'cp, 'gp) engine"
  defines "ids \<equiv> map ent_log_id entries" and "k \<equiv> first_conflicting_index (en_state e) (map ent_log_id entries)"
  assumes inv: "node_inv L (view e)" "\<not> own_vote L (view e)"
    and seg: "segment_ok (vote_clid L (view e)) (nv_committed (view e)) prev ids"
    and prev: "\<forall>p. prev = Some p \<longrightarrow> has_log_id (en_state e) p" and k: "k < length ids"
  shows "node_run L (view e) (view (do_append_entries C lv (drop k entries) (truncate_logs C (idx (ids ! k)) e)))"
    "can_extend (nv_log (view (truncate_logs C (idx (ids ! k)) e))) (drop k ids)"
proof -
  let ?at = "idx (ids ! k)" and ?l = "nv_log (view e)"
  let ?t = "truncate_logs C ?at e"
  have at: "?at = next_index prev + k" using consecutive_nth[OF _ k] seg by (simp add: segment_ok_def)
  have no: "\<not> has_log_id (en_state e) (ids ! k)" and before: "\<forall>x \<in> set (take k ids). has_log_id (en_state e) x"
    using first_conflicting_index_spec[of "en_state e" ids] k unfolding k_def ids_def by auto
  have com: "next_index (nv_committed (view e)) \<le> ?at" using no by (simp add: has_log_id_iff)
  have has: "\<forall>p. segment_prev prev ids k = Some p \<longrightarrow> idx p < next_index (nv_committed (view e)) \<or> log_get ?l (idx p) = Some p"
  proof (intro allI impI)
    fix p assume p: "segment_prev prev ids k = Some p"
    have "p \<in> set (take k ids)" if "0 < k" using p that k by (auto simp: segment_prev_def in_set_conv_nth intro!: exI[of _ "k - 1"])
    then have "has_log_id (en_state e) p" using p prev before by (cases "k = 0") (auto simp: segment_prev_def)
    then show "idx p < next_index (nv_committed (view e)) \<or> log_get ?l (idx p) = Some p" by (simp add: has_log_id_iff)
  qed
  have l: "log_inv L (view e)" using inv by (simp add: node_inv_def)
  show ext: "can_extend (nv_log (view ?t)) (drop k ids)"
    using segment_can_extend[OF _ _ _ seg less_imp_le[OF k] at com has] l
    by (simp add: truncate_logs_at log_inv_def)
  have "node_run L (view e) (view ?t)"
    using node_step.truncate[OF inv(2) com] by (auto simp: truncate_logs_view)
  moreover have "vote_clid L (view ?t) = vote_clid L (view e)" "own_vote L (view ?t) = own_vote L (view e)"
    by (simp_all add: truncate_logs_at vote_clid_def own_vote_def)
  then have "node_step L (view ?t) ((view ?t)\<lparr>nv_log := log_extend (nv_log (view ?t)) (drop k ids)\<rparr>)"
    using inv(2) ext seg by (intro node_step.extend) (auto simp: segment_ok_def list_all_iff dest: in_set_dropD)
  ultimately show "node_run L (view e) (view (do_append_entries C lv (drop k entries) ?t))"
    by (simp add: do_append_entries_view ids_def drop_map)
qed

lemma state_view_has_log_id:
  assumes "state_view s = state_view t"
  shows "has_log_id s x = has_log_id t x" "first_conflicting_index s ids = first_conflicting_index t ids"
proof -
  show has: "has_log_id s x = has_log_id t x" for x using assms by (simp add: has_log_id_iff state_view_def)
  have "first_conflict s i ids = first_conflict t i ids" for i
    by (induction ids arbitrary: i) (simp_all add: has)
  then show "first_conflicting_index s ids = first_conflicting_index t ids"
    by (simp add: first_conflicting_index_def)
qed

text \<open>The log ids of a segment that the node accepted are in its log, or were committed before.\<close>

definition segment_in_log ::
  "'c log_id option \<Rightarrow> 'c log_id option \<Rightarrow> 'c log_id list \<Rightarrow> 'c log_id_list \<Rightarrow> bool" where
  "segment_in_log committed prev ids l \<longleftrightarrow>
     list_all (\<lambda>x. idx x < next_index committed \<or> log_get l (idx x) = Some x)
       ((case prev of None \<Rightarrow> [] | Some p \<Rightarrow> [p]) @ ids)"

lemma log_get_extended:
  assumes "log_wf l" "can_extend l ids" "x \<in> set ids"
  shows "log_get (log_extend l ids) (idx x) = Some x"
proof -
  obtain j where j: "j < length ids" "x = ids ! j" using assms(3) by (auto simp: in_set_conv_nth)
  have "idx x = next_index (log_last l) + j" using consecutive_nth[OF _ j(1)] assms(2) j(2) by (simp add: can_extend_def)
  then show ?thesis
    using log_extend_view[OF assms(1,2), of "idx x"] j first_index_le_next[OF assms(1)]
    by (simp add: log_get_at[OF log_extend_wf[OF assms(1,2)]])
qed

lemma follower_append_entries_run:
  assumes inv: "node_inv L (view e)" "\<not> own_vote L (view e)"
    and seg: "segment_ok (vote_clid L (view e)) (nv_committed (view e)) prev (map ent_log_id entries)"
    and prev: "\<forall>p. prev = Some p \<longrightarrow> has_log_id (en_state e) p"
  shows "node_run L (view e) (view (follower_append_entries C lv prev entries e)) \<and>
    segment_in_log (nv_committed (view e)) prev (map ent_log_id entries) (nv_log (view (follower_append_entries C lv prev entries e)))"
proof -
  let ?ids = "map ent_log_id entries"
  define s1 where "s1 = snd (accept_log_io (tc_lid C) (en_state e) (io_id_new_log_io lv (max prev (map_option ent_log_id (last_opt entries)))))"
  define e1 where "e1 = set_state s1 e"
  let ?k = "first_conflicting_index (en_state e1) ?ids"
  have sv: "state_view (en_state e1) = state_view (en_state e)" by (simp add: e1_def s1_def)
  then have v1: "view e1 = view e" by (simp add: e1_def set_state_view)
  have eq: "view (follower_append_entries C lv prev entries e) =
      (if ?k < length entries
       then view (do_append_entries C lv (drop ?k entries) (truncate_logs C (idx (ent_log_id (entries ! ?k))) e1))
       else view e1)"
    by (simp add: follower_append_entries_def Let_def case_prod_beta e1_def s1_def)
  have has: "has_log_id (en_state e1) = has_log_id (en_state e)" using state_view_has_log_id(1)[OF sv] by blast
  show ?thesis
  proof (cases "?k < length entries")
    case True
    note run = conflict_append_run(1)[where e = e1 and C = C and lv = lv, unfolded v1 has, OF inv seg prev]
      and ext = conflict_append_run(2)[where e = e1 and C = C, unfolded v1 has, OF inv seg prev]
    let ?t = "truncate_logs C (idx (?ids ! ?k)) e1"
    have l: "log_wf (nv_log (view e))" "log_wf (nv_log (view ?t))"
      using inv log_truncate_wf by (auto simp: node_inv_def log_inv_def truncate_logs_at v1)
    have "idx x < next_index (nv_committed (view e)) \<or> log_get (log_extend (nv_log (view ?t)) (drop ?k ?ids)) (idx x) = Some x"
      if x: "x \<in> set ((case prev of None \<Rightarrow> [] | Some p \<Rightarrow> [p]) @ ?ids)" for x
    proof (cases "x \<in> set (drop ?k ?ids)")
      case True
      then show ?thesis using log_get_extended[OF l(2) ext] \<open>?k < length entries\<close> by simp
    next
      case False
      then have "prev = Some x \<or> x \<in> set (take ?k ?ids)"
        using x by (metis Un_iff append_take_drop_id empty_iff empty_set option.case_eq_if option.collapse set_ConsD set_append)
      moreover have "has_log_id (en_state e) x" using calculation prev first_conflicting_index_spec(2)[of "en_state e1" ?ids] has by auto
      moreover have "idx x < idx (?ids ! ?k)"
        using calculation(1) consecutive_nth[of "next_index prev" ?ids] seg \<open>?k < length entries\<close>
        by (auto simp: segment_ok_def in_set_conv_nth)
      ultimately show ?thesis
        using log_get_truncate[OF l(1), of "idx x" x "idx (?ids ! ?k)"] log_get_extend[OF l(2) ext, of "idx x" x] \<open>?k < length entries\<close>
        by (auto simp: has_log_id_iff truncate_logs_at v1 split: if_splits)
    qed
    then show ?thesis using run True eq by (simp add: do_append_entries_view segment_in_log_def list_all_iff drop_map)
  next
    case False
    then have "\<forall>x \<in> set ?ids. has_log_id (en_state e) x"
      using first_conflicting_index_spec(1,2)[of "en_state e1" ?ids] has by simp
    then show ?thesis using False eq v1 prev
      by (auto simp: segment_in_log_def list_all_iff has_log_id_iff split: option.splits)
  qed
qed

lemma ensure_log_consecutive_run:
  assumes "node_inv L (view e)" "\<not> own_vote L (view e)"
  shows "node_run L (view e) (view (snd (ensure_log_consecutive C prev e)))"
    "fst (ensure_log_consecutive C prev e) = Inr () \<Longrightarrow>
     snd (ensure_log_consecutive C prev e) = e \<and> (\<forall>p. prev = Some p \<longrightarrow> has_log_id (en_state e) p)"
proof -
  have "node_run L (view e) (view (truncate_logs C (idx p) e))" if "\<not> has_log_id (en_state e) p" for p
    using node_step.truncate[OF assms(2), of "idx p"] that by (auto simp: truncate_logs_view has_log_id_iff)
  then show "node_run L (view e) (view (snd (ensure_log_consecutive C prev e)))"
    by (auto simp: ensure_log_consecutive_def Let_def split: option.split)
qed (auto simp: ensure_log_consecutive_def Let_def split: option.splits if_splits)

lemma membership_install_view [simp]: "view (membership_install_snapshot C m i e) = view e"
  by (simp add: membership_install_snapshot_def Let_def set_state_view)

lemma install_order:
  assumes "log_inv L s" "nv_committed s < Some x" "next_index (nv_committed s) \<le> idx x"
  shows "purged (nv_log s) < Some x"
proof (cases "purged (nv_log s)")
  case (Some p)
  have wf: "log_wf (nv_log s)" using assms(1) by (simp add: log_inv_def)
  have "idx p < next_index (nv_committed s)" using assms(1) Some by (auto simp: log_inv_def first_index_def)
  then obtain c where c: "nv_committed s = Some c" "idx p \<le> idx c" by (cases "nv_committed s") auto
  have "log_get (nv_log s) (idx p) = Some p" using Some by (simp add: log_get_at[OF wf])
  then have "clid p \<le> clid c" using log_get_mono[OF wf c(2)] assms(1) c(1) by (simp add: log_inv_def)
  then show ?thesis using assms(2,3) c Some by (cases p; cases c; cases x) (auto simp: less_log_id_def)
qed simp

lemma set_state_view_simps:
  "view (set_state ((en_state e)\<lparr>st_purge_upto := p\<rparr>) e) = (view e)\<lparr>nv_purge_upto := p\<rparr>"
  "view (set_state ((en_state e)\<lparr>st_snapshot_meta := m\<rparr>) e) = (view e)\<lparr>nv_snapshot := snap_last_log_id m\<rparr>"
  "view (set_state (accept_snapshot_io x (en_state e)) e) = (view e)\<lparr>nv_committed := Some x\<rparr>"
  "view (set_state (snd (accept_log_io L (en_state e) i)) e) = view e"
  by (simp_all add: set_state_view)
    (simp_all add: view_def set_state_def vote_ref_def local_committed_def snapshot_last_log_id_def accept_snapshot_io_def io_accept_def)

lemma purge_log_view:
  "nv_purge_upto (view e) = Some x \<Longrightarrow> purged (nv_log (view e)) < Some x \<Longrightarrow>
   view (purge_log e) = (view e)\<lparr>nv_log := log_purge (nv_log (view e)) x\<rparr>"
  by (auto simp: purge_log_def Let_def last_purged_log_id_def)
    (simp add: view_def set_state_def accept_purge_def vote_ref_def local_committed_def snapshot_last_log_id_def)

lemma update_snapshot_False: "update_snapshot meta e = (False, e') \<Longrightarrow> e' = e"
  by (simp add: update_snapshot_def split: if_splits)

text \<open>What a snapshot does to the log before it is purged.\<close>

definition snapshot_cut :: "'c log_id option \<Rightarrow> 'c log_id \<Rightarrow> 'c log_id_list \<Rightarrow> 'c log_id_list" where
  "snapshot_cut committed x l =
     (if log_get l (idx x) \<noteq> None \<and> log_get l (idx x) \<noteq> Some x \<and> log_get l (next_index committed) \<noteq> None
      then log_truncate l (next_index committed) else l)"

lemma snapshot_cut_purge:
  assumes "log_wf l" "first_index l \<le> next_index committed" "next_index committed \<le> idx x"
    "next_index committed \<le> next_index (log_last l)"
  shows "can_purge (snapshot_cut committed x l) x"
proof (cases "log_get l (idx x)")
  case None
  then have "next_index (log_last l) \<le> idx x"
    using log_get_view[OF assms(1), of "idx x"] log_view_dom[OF assms(1), of "idx x"] assms(2,3) by auto
  then show ?thesis using None by (simp add: snapshot_cut_def can_purge_def)
next
  case (Some y)
  have "log_get l (next_index committed) \<noteq> None"
    using log_get_view[OF assms(1,2)] log_view_dom[OF assms(1), of "next_index committed"] assms(2,3)
      log_last_greatest[OF assms(1) Some] by auto
  then show ?thesis
    using Some log_truncate_next_index[OF assms(1,2,4)] assms(3) by (auto simp: snapshot_cut_def can_purge_def)
qed

lemma install_full_snapshot_view:
  assumes inv: "log_inv L (view e)"
    and ok: "install_full_snapshot C lv snapshot e = Some (cond, e')" "view e' \<noteq> view e"
  shows "\<exists>x. clid x \<le> cv_committed_leader_id (tc_lid C) lv \<and> next_index (nv_committed (view e)) \<le> idx x \<and>
    view e' = (view e)\<lparr>nv_log := log_purge (snapshot_cut (nv_committed (view e)) x (nv_log (view e))) x,
                      nv_committed := Some x, nv_snapshot := Some x, nv_purge_upto := Some x\<rparr>"
proof -
  let ?meta = "sn_meta snapshot" and ?c = "local_committed (en_state e)"
  have gt: "?c < snap_last_log_id ?meta" using ok by (auto simp: install_full_snapshot_def Let_def split: if_splits)
  then obtain x where x: "snap_last_log_id ?meta = Some x" by (cases "snap_last_log_id ?meta") auto
  have cl: "clid x \<le> cv_committed_leader_id (tc_lid C) lv" and i: "next_index ?c \<le> idx x"
    using ok gt x by (auto simp: install_full_snapshot_def Let_def split: if_splits option.splits)
  obtain e1 where up: "update_snapshot ?meta e = (True, e1)"
    using ok gt x cl i by (auto simp: install_full_snapshot_def Let_def dest: update_snapshot_False
        split: if_splits option.splits prod.splits bool.splits)
  have e1: "e1 = set_state ((en_state e)\<lparr>st_snapshot_meta := ?meta\<rparr>) e"
    using up by (auto simp: update_snapshot_def split: if_splits)
  let ?log_io = "LogIOId lv (Some x)"
  define t where "t = (if get_log_id (en_state e1) (idx x) \<noteq> None \<and> get_log_id (en_state e1) (idx x) \<noteq> Some x
      then truncate_logs C (next_index (local_committed (en_state e1))) e1 else e1)"
  define u where "u = set_state (snd (accept_log_io (tc_lid C) (en_state t) (IOLog ?log_io))) t"
  define w where "w = push_command (StateMachine (InstallFullSnapshot ?log_io snapshot))
      (membership_install_snapshot C (snap_last_membership ?meta) (idx x) (set_state (accept_snapshot_io x (en_state u)) u))"
  have e': "e' = purge_log (set_state ((en_state w)\<lparr>st_purge_upto := Some x\<rparr>) w)"
  proof -
    have c1: "\<not> Some x \<le> ?c" using gt x by (simp add: not_le)
    have c2: "\<not> (case ?c of None \<Rightarrow> False | Some committed \<Rightarrow> \<not> idx x > idx committed)"
      using i by (auto split: option.splits)
    show ?thesis
      using ok(1) unfolding install_full_snapshot_def Let_def x t_def u_def w_def by (simp add: c1 c2 cl up)
  qed
  have ve1: "view e1 = (view e)\<lparr>nv_snapshot := Some x\<rparr>" using e1 x by (simp add: set_state_view_simps)
  have st1: "st_log_ids (en_state e1) = st_log_ids (en_state e)" "local_committed (en_state e1) = ?c"
    using e1 by (simp_all add: local_committed_def)
  have vt: "view t = (view e)\<lparr>nv_snapshot := Some x, nv_log := snapshot_cut ?c x (st_log_ids (en_state e))\<rparr>"
    using ve1 st1
    by (simp add: t_def truncate_logs_view snapshot_cut_def get_log_id_def ref_log_id_def log_get_def split: if_splits)
  have "view u = view t" unfolding u_def by (rule set_state_view_simps)
  then have vw: "view w = (view t)\<lparr>nv_committed := Some x\<rparr>"
    by (simp add: w_def set_state_view_simps)
  have "purged (snapshot_cut ?c x (st_log_ids (en_state e))) < Some x"
    using install_order[OF inv, of x] gt x i by (simp add: snapshot_cut_def)
  then have "view e' = (view e)\<lparr>nv_log := log_purge (snapshot_cut (nv_committed (view e)) x (nv_log (view e))) x,
                      nv_committed := Some x, nv_snapshot := Some x, nv_purge_upto := Some x\<rparr>"
    using e' vw vt purge_log_view[of "set_state ((en_state w)\<lparr>st_purge_upto := Some x\<rparr>) w" x]
    by (simp add: set_state_view_simps)
  then show ?thesis using cl i by auto
qed

lemma snapshot_cut_run:
  assumes "\<not> own_vote L s"
  shows "node_run L s (s\<lparr>nv_log := snapshot_cut (nv_committed s) x (nv_log s)\<rparr>)"
  using node_step.truncate[OF assms, of "next_index (nv_committed s)"] by (auto simp: snapshot_cut_def)

lemma install_full_snapshot_run:
  assumes inv: "node_inv L (view e)" "\<not> own_vote L (view e)" "cv_committed_leader_id (tc_lid C) lv = vote_clid L (view e)"
    and ok: "install_full_snapshot C lv snapshot e = Some (cond, e')"
  shows "node_run L (view e) (view e')"
proof (cases "view e' = view e")
  case False
  have l: "log_inv L (view e)" using inv(1) by (simp add: node_inv_def)
  obtain x where x: "clid x \<le> vote_clid L (view e)" "next_index (nv_committed (view e)) \<le> idx x"
    and v: "view e' = (view e)\<lparr>nv_log := log_purge (snapshot_cut (nv_committed (view e)) x (nv_log (view e))) x,
                      nv_committed := Some x, nv_snapshot := Some x, nv_purge_upto := Some x\<rparr>"
    using install_full_snapshot_view[OF l ok False] inv(3) by auto
  let ?s = "(view e)\<lparr>nv_log := snapshot_cut (nv_committed (view e)) x (nv_log (view e))\<rparr>"
  have "can_purge (nv_log ?s) x"
    using snapshot_cut_purge[of "nv_log (view e)" "nv_committed (view e)" x] x(2) l
      log_last_greatest[of "nv_log (view e)"]
    by (cases "nv_committed (view e)") (auto simp: log_inv_def Suc_le_eq)
  then have "node_step L ?s (view e')"
    using node_step.install[of L ?s x] inv(2) x v by (simp add: own_vote_def vote_clid_def)
  then show ?thesis using snapshot_cut_run[OF inv(2), of x] by (rule rtranclp.rtrancl_into_rtrancl[rotated])
qed simp

section \<open>Committing\<close>

text \<open>
  A commit point that a leader announces, or that the replication progress derives from the answers
  of a quorum, is a log id of this node's log.
\<close>

definition committed_known :: "('n, 'nd, 'l, 'c, 'm, 'd, 's, 'e, 'pp, 'cp, 'gp) engine \<Rightarrow> bool" where
  "committed_known e \<longleftrightarrow>
     (case local_committed (en_state e) of None \<Rightarrow> True | Some x \<Rightarrow> get_log_id (en_state e) (idx x) = Some x)"

lemma commit_run:
  assumes inv: "log_inv L s" and v: "s' = s\<lparr>nv_committed := max (nv_committed s) c\<rparr>"
    and known: "case nv_committed s' of None \<Rightarrow> True | Some x \<Rightarrow> log_get (nv_log s') (idx x) = Some x"
  shows "node_run L s s'"
proof (cases "nv_committed s < c")
  case True
  then obtain x where c: "c = Some x" by (cases c) auto
  have v': "s' = s\<lparr>nv_committed := Some x\<rparr>" using v c max_absorb2[OF less_imp_le[OF True]] by simp
  then have get: "log_get (nv_log s) (idx x) = Some x" using known by simp
  have "next_index (nv_committed s) \<le> idx x + 1"
  proof (cases "nv_committed s")
    case (Some y)
    then have "y \<le> x" "log_get (nv_log s) (idx y) = Some y" using True c inv by (simp_all add: log_inv_def)
    then show ?thesis using log_get_order[of "nv_log s" y x] get inv Some by (simp add: log_inv_def)
  qed simp
  from node_step.commit[OF get this] show ?thesis using v' by auto
next
  case False
  then have "max (nv_committed s) c = nv_committed s" by (simp add: max_absorb1)
  then show ?thesis using v by simp
qed

lemma committed_known_view:
  "committed_known e \<longleftrightarrow>
   (case nv_committed (view e) of None \<Rightarrow> True | Some x \<Rightarrow> log_get (nv_log (view e)) (idx x) = Some x)"
  by (simp add: committed_known_def get_log_id_def ref_log_id_def log_get_def split: option.split)

text \<open>The views of two engines differ at most by a later commit point.\<close>

definition commits_only ::
  "('n, 'nd, 'l, 'c::linorder, 'm, 'd, 's, 'e, 'pp, 'cp, 'gp) engine \<Rightarrow> (_, _, _, _, _, _, _, _, _, _, _) engine \<Rightarrow> bool" where
  "commits_only e e' \<longleftrightarrow> (\<exists>c. view e' = (view e)\<lparr>nv_committed := max (nv_committed (view e)) c\<rparr>)"

lemma max_None [simp]: "max (x :: 'c::linorder log_id option) None = x"
  by (cases x) (auto simp: max_def)

lemma commits_only_refl: "view e' = view e \<Longrightarrow> commits_only e e'"
  by (auto simp: commits_only_def intro!: exI[of _ None])

lemma commits_only_run:
  "log_inv L (view e) \<Longrightarrow> commits_only e e' \<Longrightarrow> committed_known e' \<Longrightarrow> node_run L (view e) (view e')"
  unfolding commits_only_def committed_known_view by (blast intro: commit_run)

lemma try_commit_commits: "commits_only e (try_commit_quorum_accepted C granted e)"
proof -
  define s where "s = (en_state e)\<lparr>st_io_state := (st_io_state (en_state e))\<lparr>io_cluster_committed :=
      snd (try_update (log_io_lt (tc_lid C)) (io_cluster_committed (st_io_state (en_state e)))
        (LogIOId (to_committed (vote_ref (en_state e))) granted))\<rparr>\<rparr>"
  have sv: "state_view s = state_view (en_state e)" by (simp add: s_def state_view_defs)
  have "view (set_state (update_local_committed s granted) e) =
      (view e)\<lparr>nv_committed := max (nv_committed (view e)) granted\<rparr>"
    using sv by (simp add: view_def set_state_def state_view_def vote_ref_def snapshot_last_log_id_def update_local_committed_frame)
  then show ?thesis
    unfolding try_commit_quorum_accepted_def Let_def s_def[symmetric] commits_only_def
    by (cases "case granted of None \<Rightarrow> False | Some c \<Rightarrow> \<not> is_same_leader (tc_lid C) (vote_ref (en_state e)) (clid c)")
      (auto intro: exI[of _ None])
qed

lemma commits_only_cong: "view e = view e1 \<Longrightarrow> commits_only e1 e' \<Longrightarrow> commits_only e e'"
  by (simp add: commits_only_def)

lemma set_progress_view [simp]:
  "en_leader e = Some ld \<Longrightarrow> view (set_leader (ld\<lparr>ld_progress := p\<rparr>) e) = view e"
  "en_leader e = Some ld \<Longrightarrow> view (set_leader (ld\<lparr>clock_progress := q\<rparr>) e) = view e"
  by (simp_all add: set_leader_view)

lemma rh_update_matching_commits: "rh_update_matching C nid m i e = Some e' \<Longrightarrow> commits_only e e'"
  by (auto simp: rh_update_matching_def bind_eq_Some_conv case_prod_beta split: option.splits
      intro: commits_only_refl intro!: commits_only_cong[OF set_progress_view(1)[symmetric] try_commit_commits])

lemma progress_case_view [simp]:
  "en_leader e = Some ld \<Longrightarrow>
   view (case x of None \<Rightarrow> e | Some p \<Rightarrow> set_leader (ld\<lparr>ld_progress := p\<rparr>) e) = view e"
  by (cases x) simp_all

lemma rh_update_conflicting_view: "rh_update_conflicting C t c i e = Some (b, e') \<Longrightarrow> view e' = view e"
  by (auto simp: rh_update_conflicting_def bind_eq_Some_conv split: option.split_asm)

lemma update_search_from_hint_view:
  assumes "update_search_from_hint C t h e = Some e'"
  shows "view e' = view e"
proof -
  obtain ld where "en_leader e = Some ld" using assms by (auto simp: update_search_from_hint_def bind_eq_Some_conv)
  then show ?thesis
    using assms
    by (cases "pp_try_get (tc_progress C) (ld_progress ld) t")
      (auto simp: update_search_from_hint_def Let_def case_prod_beta)
qed

lemma leader_bookkeeping_view:
  "try_update_leader_clock C i t st e = Some e' \<Longrightarrow> view e' = view e"
  "allow_next_revert C t b e = Some (r, e') \<Longrightarrow> view e' = view e"
  "send_heartbeat C now b e = Some (r', e') \<Longrightarrow> view e' = view e"
  by (auto simp: try_update_leader_clock_def update_clock_def allow_next_revert_def send_heartbeat_def bind_eq_Some_conv Let_def
      split: option.splits if_splits prod.splits)

lemma log_get_before_purge:
  assumes "log_wf l" "idx p < first_index l \<or> log_get l (idx p) = Some p" "log_get (log_purge l p) i = Some x"
  shows "log_get l i = Some x"
proof (cases "idx p < first_index l")
  case False
  then have get: "log_get l (idx p) = Some p" using assms(2) by blast
  have wf: "log_wf (log_purge l p)" using get assms(1) by (simp add: log_purge_wf can_purge_def)
  show ?thesis
    using assms(3) get False log_purge_view[OF assms(1), of p i] log_purge_purged[OF assms(1), of p]
    by (auto simp: log_get_at[OF wf] log_get_at[OF assms(1)] split: if_splits)
qed (use assms log_purge_cases[OF assms(1)] in simp)

lemma purge_log_cases: "view (purge_log e) = view e \<or>
   (\<exists>p. nv_purge_upto (view e) = Some p \<and> view (purge_log e) = (view e)\<lparr>nv_log := log_purge (nv_log (view e)) p\<rparr>)"
proof (cases "st_purge_upto (en_state e) \<le> last_purged_log_id (en_state e)")
  case False
  then show ?thesis using purge_log_view[of e]
    by (cases "st_purge_upto (en_state e)") (auto simp: purge_log_def last_purged_log_id_def)
qed (simp add: purge_log_def Let_def)

lemma purge_committed_known:
  assumes "committed_known (purge_log e)" "log_wf (nv_log (view e))"
    and "case nv_purge_upto (view e) of None \<Rightarrow> True
         | Some p \<Rightarrow> idx p < first_index (nv_log (view e)) \<or> log_get (nv_log (view e)) (idx p) = Some p"
  shows "committed_known e"
  using purge_log_cases[of e]
proof (elim disjE exE conjE)
  assume "view (purge_log e) = view e"
  then show ?thesis using assms(1) unfolding committed_known_view by (simp only:)
next
  fix p assume p: "nv_purge_upto (view e) = Some p" and v: "view (purge_log e) = (view e)\<lparr>nv_log := log_purge (nv_log (view e)) p\<rparr>"
  have ok: "idx p < first_index (nv_log (view e)) \<or> log_get (nv_log (view e)) (idx p) = Some p" using assms(3) p by simp
  show ?thesis
    using assms(1) log_get_before_purge[OF assms(2) ok] unfolding committed_known_view v
    by (cases "local_committed (en_state e)") simp_all
qed

lemma rh_try_purge_cases: "rh_try_purge_log C e = Some e' \<Longrightarrow> e' = e \<or> e' = purge_log e"
  by (auto simp: rh_try_purge_log_def bind_eq_Some_conv Let_def split: if_splits)

lemma commits_purge_run:
  assumes inv: "log_inv L (view e)" and com: "commits_only e e1" and pu: "e' = e1 \<or> e' = purge_log e1"
    and known: "committed_known e'"
  shows "node_run L (view e) (view e')"
proof -
  have "nv_log (view e1) = nv_log (view e)" "nv_purge_upto (view e1) = nv_purge_upto (view e)"
    using com unfolding commits_only_def by (auto simp del: view_sel)
  then have "committed_known e1"
    using pu known purge_committed_known[of e1] inv
    by (auto simp: log_inv_def simp del: view_sel split: option.splits)
  then have "node_run L (view e) (view e1)" using commits_only_run[OF inv com] by blast
  moreover have "node_run L (view e1) (view e')" using pu purge_log_run by auto
  ultimately show ?thesis by (rule rtranclp_trans)
qed

lemma update_progress_run:
  assumes inv: "log_inv L (view e)" and ok: "update_progress C sid p i e = Some e'" and known: "committed_known e'"
  shows "node_run L (view e) (view e')"
proof -
  obtain ld where ld: "en_leader e = Some ld" using ok by (auto simp: update_progress_def bind_eq_Some_conv)
  show ?thesis
  proof (cases "is_replication_stream_valid C ld (pg_target p) sid")
    case True
    then have "\<exists>e1. rh_try_purge_log C e1 = Some e' \<and> commits_only e e1"
    proof (cases "pg_result p")
      case (ReplicationError x1)
      then show ?thesis using ok ld True
        by (intro exI conjI, force simp: update_progress_def Let_def) (simp add: commits_only_refl)
    next
      case (ReplicationConflict x)
      then obtain b e0 where e0: "rh_update_conflicting C (pg_target p) x i e = Some (b, e0)"
        and rest: "(case pg_hint p of
               Some hint \<Rightarrow> if b \<and> i \<noteq> None then update_search_from_hint C (pg_target p) hint e0 else Some e0
             | None \<Rightarrow> Some e0) \<bind> rh_try_purge_log C = Some e'"
        using ok ld True by (auto simp: update_progress_def Let_def bind_eq_Some_conv)
      then obtain e1 where e1: "rh_try_purge_log C e1 = Some e'" "view e1 = view e0"
        by (auto simp: bind_eq_Some_conv dest: update_search_from_hint_view split: option.split_asm if_split_asm)
      then show ?thesis using rh_update_conflicting_view[OF e0] commits_only_refl[of e1 e] by auto
    next
      case (ReplicationMatching m)
      then show ?thesis using ok ld True
        by (auto simp: update_progress_def Let_def bind_eq_Some_conv intro: rh_update_matching_commits)
    qed
    then obtain e1 where e1: "rh_try_purge_log C e1 = Some e'" and c: "commits_only e e1" by blast
    show ?thesis by (rule commits_purge_run[OF inv c rh_try_purge_cases[OF e1] known])
  qed (use ok ld in \<open>simp add: update_progress_def\<close>)
qed

lemma update_local_progress_commits:
  assumes "update_local_progress C up_to e = Some e'"
  shows "commits_only e e'"
proof -
  obtain ld where ld: "en_leader e = Some ld" using assms by (auto simp: update_local_progress_def bind_eq_Some_conv)
  then show ?thesis
    using assms commits_only_cong[OF set_progress_view(1)[OF ld, symmetric]]
    by (auto simp: update_local_progress_def Let_def intro: commits_only_refl dest!: rh_update_matching_commits
        split: if_splits option.splits)
qed

section \<open>What a leader commits\<close>

text \<open>
  A log id that this leader may commit: it was proposed under its vote, and it is what the update of
  the progress that the leader holds afterwards has reported as accepted by a quorum.
\<close>

definition own_accepted ::
  "('n, 'nd, 'l, 'c::linorder, 'm, 'q, 'pp, 'cp, 'gp) raft_type_config \<Rightarrow> ('c log_id option \<times> 'pp) option \<Rightarrow>
   ('n, 'nd, 'l, 'c, 'm, 'd, 's, 'e, 'pp, 'cp, 'gp) engine \<Rightarrow>
   ('n, 'nd, 'l, 'c, 'm, 'd, 's, 'e, 'pp, 'cp, 'gp) engine \<Rightarrow> 'c log_id \<Rightarrow> bool" where
  "own_accepted C reported e e' x \<longleftrightarrow>
     clid x = lid_to_committed (tc_lid C) (v_leader_id (vote_ref (en_state e))) \<and>
     (\<exists>ld. en_leader e' = Some ld \<and> reported = Some (Some x, ld_progress ld))"

definition commits_own ::
  "('n, 'nd, 'l, 'c::linorder, 'm, 'q, 'pp, 'cp, 'gp) raft_type_config \<Rightarrow> ('c log_id option \<times> 'pp) option \<Rightarrow>
   ('n, 'nd, 'l, 'c, 'm, 'd, 's, 'e, 'pp, 'cp, 'gp) engine \<Rightarrow>
   ('n, 'nd, 'l, 'c, 'm, 'd, 's, 'e, 'pp, 'cp, 'gp) engine \<Rightarrow> bool" where
  "commits_own C reported e e' \<longleftrightarrow>
     (local_committed (en_state e') = local_committed (en_state e) \<or>
      (\<exists>x. local_committed (en_state e') = Some x \<and> local_committed (en_state e) < Some x \<and> own_accepted C reported e e' x)) \<and>
     (cluster_committed (en_state e') \<in> {cluster_committed (en_state e), None} \<or>
      (\<exists>x. cluster_committed (en_state e') = Some x \<and> own_accepted C reported e e' x)) \<and>
     (\<exists>cmds. out_commands (en_output e') = out_commands (en_output e) @ cmds \<and>
        (\<forall>cc. ReplicateCommitted cc \<in> set cmds \<longrightarrow> (\<exists>x. cc = Some x \<and> own_accepted C reported e e' x)))"

lemma commits_own_same:
  "en_state e' = en_state e \<Longrightarrow> en_output e' = en_output e \<Longrightarrow> commits_own C r e e'"
  by (simp add: commits_own_def)

lemma try_commit_own:
  assumes "en_leader e = Some ld" "r = Some (granted, ld_progress ld)"
  shows "commits_own C r e (try_commit_quorum_accepted C granted e)"
proof (cases "case granted of None \<Rightarrow> False | Some c \<Rightarrow> \<not> is_same_leader (tc_lid C) (vote_ref (en_state e)) (clid c)")
  case True
  then have "try_commit_quorum_accepted C granted e = e" by (simp add: try_commit_quorum_accepted_def)
  then show ?thesis by (simp add: commits_own_same)
next
  case False
  let ?e' = "try_commit_quorum_accepted C granted e"
  have keep: "en_leader ?e' = Some ld"
    using assms(1) by (simp add: try_commit_quorum_accepted_def Let_def)
  then have own: "own_accepted C r e ?e' x" if "granted = Some x" for x
    using that assms(2) False by (auto simp: own_accepted_def is_same_leader_def)
  have cc: "cluster_committed (en_state ?e') = cluster_committed (en_state e) \<or> cluster_committed (en_state ?e') = granted"
    using False
    by (auto simp: try_commit_quorum_accepted_def Let_def cluster_committed_def try_update_def try_update_option_def
        update_local_committed_def split: option.splits if_splits)
  have lc: "local_committed (en_state ?e') =
      (case granted of None \<Rightarrow> local_committed (en_state e) | Some x \<Rightarrow> max (local_committed (en_state e)) (Some x))"
    using False
    by (auto simp: try_commit_quorum_accepted_def Let_def local_committed_def io_accept_def max_def
        update_local_committed_def split: option.splits if_splits)
  have out: "out_commands (en_output ?e') = out_commands (en_output e) @
      (if cluster_committed (en_state ?e') > cluster_committed (en_state e)
       then [ReplicateCommitted (cluster_committed (en_state ?e'))] else [])"
    using False by (simp add: try_commit_quorum_accepted_def Let_def out_push_def push_command_def set_state_def)
  show ?thesis
    unfolding commits_own_def
  proof (intro conjI)
    show "local_committed (en_state ?e') = local_committed (en_state e) \<or>
      (\<exists>x. local_committed (en_state ?e') = Some x \<and> local_committed (en_state e) < Some x \<and> own_accepted C r e ?e' x)"
      using lc own by (cases granted) (auto simp: max_def not_le)
    show "cluster_committed (en_state ?e') \<in> {cluster_committed (en_state e), None} \<or>
      (\<exists>x. cluster_committed (en_state ?e') = Some x \<and> own_accepted C r e ?e' x)"
      using cc own by (cases granted) auto
    show "\<exists>cmds. out_commands (en_output ?e') = out_commands (en_output e) @ cmds \<and>
        (\<forall>cc. ReplicateCommitted cc \<in> set cmds \<longrightarrow> (\<exists>x. cc = Some x \<and> own_accepted C r e ?e' x))"
      using out cc own by (cases granted) auto
  qed
qed

lemma rh_update_matching_own:
  assumes "rh_update_matching C node_id m iid e = Some e'" and ld: "en_leader e = Some ld"
    and r: "r = pp_update_entry_with (tc_progress C) (ld_progress ld) node_id (\<lambda>entry. pe_update_matching entry m iid)"
  shows "commits_own C r e e'"
proof (cases r)
  case None
  then show ?thesis using assms by (simp add: rh_update_matching_def commits_own_same)
next
  case (Some x)
  then obtain granted pp where x: "r = Some (granted, pp)" by (cases x) auto
  let ?e = "set_leader (ld\<lparr>ld_progress := pp\<rparr>) e"
  have "commits_own C r ?e (try_commit_quorum_accepted C granted ?e)"
    by (rule try_commit_own[where ld = "ld\<lparr>ld_progress := pp\<rparr>"]) (use x in \<open>simp_all add: set_leader_def\<close>)
  moreover have "commits_own C r ?e d \<Longrightarrow> commits_own C r e d" for d
    by (simp add: commits_own_def own_accepted_def set_leader_def)
  ultimately show ?thesis using assms(1) ld r[symmetric] x by (simp add: rh_update_matching_def)
qed

lemma purge_own:
  assumes "commits_own C r e e1" "rh_try_purge_log C e1 = Some e'"
  shows "commits_own C r e e'"
proof -
  have "e' = e1 \<or> e' = purge_log e1" by (rule rh_try_purge_cases[OF assms(2)])
  moreover have "commits_own C r e (purge_log e1)"
  proof -
    let ?p = "purge_log e1"
    have frame: "local_committed (en_state ?p) = local_committed (en_state e1)"
        "cluster_committed (en_state ?p) = cluster_committed (en_state e1)" "en_leader ?p = en_leader e1"
        "\<exists>up_to. out_commands (en_output ?p) = out_commands (en_output e1) @ up_to \<and> (\<forall>cc. ReplicateCommitted cc \<notin> set up_to)"
      by (auto simp: purge_log_def Let_def accept_purge_def local_committed_def cluster_committed_def push_command_def
          out_push_def set_state_def split: option.split)
    then have own: "own_accepted C r e ?p = own_accepted C r e e1" by (simp add: own_accepted_def fun_eq_iff)
    show ?thesis using assms(1) frame(4) unfolding commits_own_def own frame(1,2) by fastforce
  qed
  ultimately show ?thesis using assms(1) by auto
qed

lemma progress_only_own:
  "commits_own C r e (case p of None \<Rightarrow> e | Some progress \<Rightarrow> set_leader (ld\<lparr>ld_progress := progress\<rparr>) e)"
  by (cases p) (auto intro!: commits_own_same simp: set_leader_def)

lemma progress_case_frame [simp]:
  "en_state (case x of None \<Rightarrow> e | Some p \<Rightarrow> set_leader (ld\<lparr>ld_progress := p\<rparr>) e) = en_state e"
  "en_output (case x of None \<Rightarrow> e | Some p \<Rightarrow> set_leader (ld\<lparr>ld_progress := p\<rparr>) e) = en_output e"
  by (cases x; simp add: set_leader_def)+

lemma conflict_frame:
  "rh_update_conflicting C target c i e = Some (b, e') \<Longrightarrow> en_state e' = en_state e \<and> en_output e' = en_output e"
  by (auto simp: rh_update_conflicting_def bind_eq_Some_conv set_leader_def split: option.split_asm)

lemma hint_frame:
  assumes "update_search_from_hint C target hint e = Some e'"
  shows "en_state e' = en_state e \<and> en_output e' = en_output e"
proof -
  obtain ld where "en_leader e = Some ld" using assms by (auto simp: update_search_from_hint_def bind_eq_Some_conv)
  then show ?thesis
    using assms
    by (cases "pp_try_get (tc_progress C) (ld_progress ld) target")
      (auto simp: update_search_from_hint_def Let_def case_prod_beta)
qed

text \<open>What the update of a follower's, or of the leader's own, matching log id reports.\<close>

definition follower_report ::
  "('n, 'nd, 'l, 'c::linorder, 'm, 'q, 'pp, 'cp, 'gp) raft_type_config \<Rightarrow> 'pp \<Rightarrow> ('n, 'c) progress_msg \<Rightarrow> nat option \<Rightarrow>
   ('c log_id option \<times> 'pp) option" where
  "follower_report C progress p iid =
     (case pg_result p of
        ReplicationMatching m \<Rightarrow> pp_update_entry_with (tc_progress C) progress (pg_target p) (\<lambda>entry. pe_update_matching entry m iid)
      | _ \<Rightarrow> None)"

definition local_report ::
  "('n, 'nd, 'l, 'c::linorder, 'm, 'q, 'pp, 'cp, 'gp) raft_type_config \<Rightarrow> 'pp \<Rightarrow> 'n \<Rightarrow> 'c log_id option \<Rightarrow>
   ('c log_id option \<times> 'pp) option" where
  "local_report C progress nid up_to =
     Option.bind (pp_update_data_with (tc_progress C) progress nid (\<lambda>d. d\<lparr>pd_inflight := inflight_probe None up_to 0\<rparr>))
       (\<lambda>progress. pp_update_entry_with (tc_progress C) progress nid (\<lambda>entry. pe_update_matching entry up_to (Some 0)))"

lemma update_progress_own:
  assumes ok: "update_progress C sid p i e = Some e'" and ld: "en_leader e = Some ld"
  shows "commits_own C (follower_report C (ld_progress ld) p i) e e'"
proof (cases "is_replication_stream_valid C ld (pg_target p) sid")
  case True
  show ?thesis
  proof (cases "pg_result p")
    case (ReplicationError x)
    then show ?thesis using assms True
      by (auto simp: update_progress_def Let_def intro: purge_own[OF progress_only_own])
  next
    case (ReplicationConflict x)
    then obtain b e0 e1 where "rh_update_conflicting C (pg_target p) x i e = Some (b, e0)" and
        "(case pg_hint p of
            Some hint \<Rightarrow> if b \<and> i \<noteq> None then update_search_from_hint C (pg_target p) hint e0 else Some e0
          | None \<Rightarrow> Some e0) = Some e1" and purge: "rh_try_purge_log C e1 = Some e'"
      using assms True by (auto simp: update_progress_def Let_def bind_eq_Some_conv)
    then have "en_state e1 = en_state e" "en_output e1 = en_output e"
      by (auto dest!: conflict_frame hint_frame split: option.split_asm if_split_asm)
    then show ?thesis by (intro purge_own[OF commits_own_same purge])
  next
    case (ReplicationMatching m)
    then obtain e1 where "rh_update_matching C (pg_target p) m i e = Some e1" "rh_try_purge_log C e1 = Some e'"
      using assms True by (auto simp: update_progress_def Let_def bind_eq_Some_conv)
    then show ?thesis using ld ReplicationMatching
      by (intro purge_own[OF rh_update_matching_own]) (auto simp: follower_report_def)
  qed
qed (use assms in \<open>simp add: update_progress_def commits_own_same\<close>)

lemma update_local_progress_own:
  assumes ok: "update_local_progress C up_to e = Some e'" and ld: "en_leader e = Some ld"
  shows "commits_own C (local_report C (ld_progress ld) (own_id e) up_to) e e'"
proof (cases "e' = e")
  case False
  then obtain pp where pp: "pp_update_data_with (tc_progress C) (ld_progress ld) (own_id e)
        (\<lambda>d. d\<lparr>pd_inflight := inflight_probe None up_to 0\<rparr>) = Some pp"
      and m: "rh_update_matching C (own_id e) up_to (Some 0) (set_leader (ld\<lparr>ld_progress := pp\<rparr>) e) = Some e'"
    using assms by (auto simp: update_local_progress_def Let_def split: if_split_asm option.split_asm)
  have "commits_own C (local_report C (ld_progress ld) (own_id e) up_to) (set_leader (ld\<lparr>ld_progress := pp\<rparr>) e) e'"
    by (rule rh_update_matching_own[OF m, where ld = "ld\<lparr>ld_progress := pp\<rparr>"]) (use pp in \<open>simp_all add: set_leader_def local_report_def\<close>)
  then show ?thesis by (simp add: commits_own_def own_accepted_def set_leader_def)
qed (simp add: commits_own_same)

section \<open>Votes\<close>

lemma become_following_view: "view (become_following C e) = (view e)\<lparr>nv_candidate := None, nv_leader := None\<rparr>"
proof -
  have "view (e\<lparr>en_leader := None, en_candidate := None, en_pre_candidate := None\<rparr>) = (view e)\<lparr>nv_candidate := None, nv_leader := None\<rparr>"
    by (simp add: view_def)
  then show ?thesis by (simp add: become_following_def Let_def if_distrib[of view])
qed

lemma is_leading_own: "is_leading (tc_lid C) (tc_mem C) (en_state e) (own_id e) \<Longrightarrow> own_vote (tc_lid C) (view e)"
  by (simp add: is_leading_def own_vote_def)

lemma by_last_leader_last: "map_option ll_last_ref (by_last_leader l) = log_last l"
  by (auto simp: by_last_leader_def ll_last_ref_def leader_log_ids_new_def Let_def split: option.split)

lemma leader_new_frame:
  "ld_committed_vote (fst (leader_new C now cv m r g)) = cv"
  "ld_last_log_id (fst (leader_new C now cv m r g)) = map_option ll_last_ref r"
  by (simp_all add: leader_new_def Let_def case_prod_beta update_self_quorum_def)

lemma state_new_leader_frame:
  "ld_committed_vote (fst (state_new_leader C now s)) = to_committed (vote_ref s)"
  "ld_last_log_id (fst (state_new_leader C now s)) = last_log_id s"
  "state_view (snd (state_new_leader C now s)) = state_view s"
  by (simp_all add: state_new_leader_def Let_def case_prod_beta leader_new_frame by_last_leader_last last_log_id_def)

lemma become_leader_run:
  assumes "is_leader (tc_lid C) (tc_mem C) (en_state e) (own_id e)"
    and ok: "become_leader C now e = Some e'"
  shows "node_run (tc_lid C) (view e) (view e')"
proof (cases "\<exists>ld. en_leader e = Some ld \<and> cv_leader_id (ld_committed_vote ld) = v_leader_id (vote_ref (en_state e))")
  case True
  then obtain ld where ld: "en_leader e = Some ld" "cv_leader_id (ld_committed_vote ld) = v_leader_id (vote_ref (en_state e))" by blast
  then have "to_committed (vote_ref (en_state e)) = ld_committed_vote ld"
    by (simp add: to_committed_def committed_vote.expand)
  then have "view e' = view e"
    using ok ld by (auto simp: become_leader_def intro!: set_leader_view)
  then show ?thesis by simp
next
  case False
  let ?r = "state_new_leader C now (en_state e)"
  define e1 where "e1 = set_leader (fst ?r) (set_state (snd ?r) e)"
  let ?io = "io_id_new_log_io (ld_committed_vote (fst ?r)) (ld_last_log_id (fst ?r))"
  define e2 where "e2 = update_server_state_if_changed C
      (push_command (UpdateIOProgress (map_option IOFlushed (fst (accept_log_io (tc_lid C) (en_state e1) ?io))) ?io)
        (set_state (snd (accept_log_io (tc_lid C) (en_state e1) ?io)) e1))"
  have none: "(case en_leader e of
           Some ld \<Rightarrow> if cv_leader_id (ld_committed_vote ld) = v_leader_id (vote_ref (en_state e)) then Some ld else None
         | None \<Rightarrow> None) = None"
    using False by (auto split: option.split)
  obtain e3 where e3: "rebuild_replication_streams C True e2 = Some e3"
    and rest: "(if ld_last_log_id (fst ?r) < Some (noop_log_id (fst ?r))
                then map_option snd (leader_append_entries C [Blank] e3) else initiate_replication C e3) = Some e'"
    using ok unfolding become_leader_def Let_def none by (auto simp: case_prod_beta e1_def e2_def bind_eq_Some_conv)
  have "node_step (tc_lid C) (view e) ((view e)\<lparr>nv_leader := Some (to_committed (vote_ref (en_state e)), last_log_id (en_state e))\<rparr>)"
    using node_step.restore[of "view e" "tc_lid C"] assms(1) is_leading_own
    by (auto simp: is_leader_def last_log_id_def)
  moreover have "(view e)\<lparr>nv_leader := Some (to_committed (vote_ref (en_state e)), last_log_id (en_state e))\<rparr> = view e1"
    unfolding e1_def using state_new_leader_frame[of C now "en_state e"]
    by (simp add: view_def set_leader_def set_state_def state_view_def)
  moreover have "view e3 = view e1"
    using rebuild_streams_view[OF e3] by (simp add: e2_def set_state_view_simps)
  moreover have "node_run (tc_lid C) (view e3) (view e')"
    using rest initiate_replication_view[of C e3 e'] leader_append_entries_run[of C "[Blank]" e3] by (auto split: if_splits)
  ultimately show ?thesis by (auto intro: converse_rtranclp_into_rtranclp)
qed

lemma update_internal_run:
  assumes "update_internal_server_state C now e = Some e'"
  shows "node_run (tc_lid C) (view e) (view e')"
  using assms become_leader_run[of C e now e'] node_step.resign[of "tc_lid C" "view e"]
  by (auto simp: update_internal_server_state_def become_following_view split: if_splits)

lemma update_internal_foreign:
  assumes "\<not> own_vote (tc_lid C) (view e)"
  shows "update_internal_server_state C now e = Some (become_following C e)"
  using assms is_leading_own[of C e] by (auto simp: update_internal_server_state_def is_leader_def)

lemma record_vote_view:
  assumes "raft_leader_id (tc_lid C)" "vote_ge (tc_lid C) v (vote_ref (en_state e))"
  shows "view (record_vote C now v e) = (view e)\<lparr>nv_vote := v\<rparr>"
proof (cases "vote_gt (tc_lid C) v (vote_ref (en_state e))")
  case True
  let ?s = "\<lambda>ls. (en_state e)\<lparr>st_vote := leased_update (st_vote (en_state e)) now ls v\<rparr>"
  have "view (set_state (snd (accept_log_io (tc_lid C) (?s ls) i)) e) = (view e)\<lparr>nv_vote := v\<rparr>" for ls i
    by (simp add: view_def set_state_def leased_update_def)
      (simp add: vote_ref_def local_committed_def snapshot_last_log_id_def)
  then show ?thesis using True by (simp add: record_vote_def Let_def case_prod_beta)
next
  case False
  then have "vote_ref (en_state e) = v" using raft_leader_id.vote_ge_not_gt[OF assms] by simp
  then show ?thesis
    using False by (auto simp: record_vote_def Let_def view_def set_state_def leased_touch_def vote_ref_def local_committed_def
        snapshot_last_log_id_def)
qed

lemma record_vote_config [simp]: "en_config (record_vote C now v e) = en_config e"
  by (simp add: record_vote_def Let_def case_prod_beta)

lemma update_vote_foreign:
  assumes "raft_leader_id (tc_lid C)" "leader_node_id (tc_lid C) v \<noteq> own_id e"
  shows "update_vote C now v e =
    Some (if vote_ge (tc_lid C) v (vote_ref (en_state e)) then (Inr (), become_following C (record_vote C now v e))
          else (Inl (vote_ref (en_state e)), e))"
proof (cases "vote_ge (tc_lid C) v (vote_ref (en_state e))")
  case True
  have "\<not> own_vote (tc_lid C) (view (record_vote C now v e))"
    using assms(2) by (simp add: record_vote_view[OF assms(1) True] own_vote_def del: view_sel) simp
  then show ?thesis using True update_internal_foreign by (simp add: update_vote_def)
qed (simp add: update_vote_def)

lemma update_vote_foreign_view:
  assumes "raft_leader_id (tc_lid C)" "leader_node_id (tc_lid C) v \<noteq> own_id e" "update_vote C now v e = Some (res, e')"
  shows "node_run (tc_lid C) (view e) (view e') \<and>
    (if isl res then e' = e
     else vote_ge (tc_lid C) v (vote_ref (en_state e)) \<and> view e' = (view e)\<lparr>nv_vote := v, nv_candidate := None, nv_leader := None\<rparr>)"
  using assms node_step.adopt[of "tc_lid C" v "view e"]
  by (auto simp: update_vote_foreign become_following_view record_vote_view split: if_splits)

lemma update_vote_cases:
  assumes "update_vote C now v e = Some (res, e')"
  shows "(res = Inl (vote_ref (en_state e)) \<and> e' = e \<and> \<not> vote_ge (tc_lid C) v (vote_ref (en_state e))) \<or>
    (res = Inr () \<and> vote_ge (tc_lid C) v (vote_ref (en_state e)) \<and>
     update_internal_server_state C now (record_vote C now v e) = Some e')"
  using assms by (auto simp: update_vote_def split: if_splits)

end
