(* ===== verification/EngineRuns.thy ===== *)
theory EngineRuns
  imports EngineViews
begin

text \<open>
  Every operation of the engine as a run of abstract steps, the engine as a step relation over the
  events that reach it, and what holds along every run of it.
\<close>

section \<open>Campaigns\<close>

lemma term_next_greater: "t \<le> term_next t \<Longrightarrow> term_next t = t + 1"
proof (rule ccontr)
  assume le: "t \<le> term_next t" and "term_next t \<noteq> t + 1"
  then have "\<not> t + 1 < 2 ^ 64" by (auto simp: term_next_def wrapping_add_small)
  moreover have "term_next t < 2 ^ 64" by (simp add: term_next_def wrapping_add_def)
  ultimately have "t + 1 = 2 ^ 64" using le by simp
  then have "term_next t = 0" unfolding term_next_def wrapping_add_def by (metis mod_self)
  with le \<open>t + 1 = 2 ^ 64\<close> show False by simp
qed

lemma campaign_vote_frame:
  assumes "raft_leader_id (tc_lid C)"
  shows "leader_node_id (tc_lid C) (campaign_vote C e) = own_id e" "\<not> v_committed (campaign_vote C e)"
    "vote_term (tc_lid C) (campaign_vote C e) = term_next (vote_term (tc_lid C) (vote_ref (en_state e)))"
  using raft_leader_id.new_accessors[OF assms]
  by (simp_all add: campaign_vote_def Let_def leader_node_id_def vote_term_def)

lemma campaign_vote_later:
  assumes "raft_leader_id (tc_lid C)" "vote_ge (tc_lid C) (campaign_vote C e) (vote_ref (en_state e))"
  shows "vote_term (tc_lid C) (vote_ref (en_state e)) < vote_term (tc_lid C) (campaign_vote C e)"
  using term_next_greater[of "vote_term (tc_lid C) (vote_ref (en_state e))"] raft_leader_id.vote_ge_term[OF assms]
  by (simp add: campaign_vote_frame(3)[OF assms(1)] vote_term_def[symmetric])

lemma own_id_resample [simp]: "ec_id (resample_election_timeout rng c) = ec_id c"
  by (simp add: resample_election_timeout_def Let_def)

lemma update_vote_campaign:
  assumes R: "raft_leader_id (tc_lid C)"
    and e1: "view e1 = (view e)\<lparr>nv_candidate := Some (v, nv_last (view e)), nv_leader := None\<rparr>"
    and v: "v = campaign_vote C e"
    and ok: "update_vote C now v e1 = Some (Inr (), e')"
  shows "node_run (tc_lid C) (view e) (view e')"
proof -
  have vote: "vote_ref (en_state e1) = vote_ref (en_state e)" using arg_cong[OF e1, of nv_vote] by simp
  have ge: "vote_ge (tc_lid C) v (vote_ref (en_state e1))"
    and int: "update_internal_server_state C now (record_vote C now v e1) = Some e'"
    using update_vote_cases[OF ok] by auto
  have "view (record_vote C now v e1) =
      (view e)\<lparr>nv_vote := v, nv_candidate := Some (v, nv_last (view e)), nv_leader := None\<rparr>"
    using record_vote_view[OF R ge] e1 by simp
  moreover have "node_step (tc_lid C) (view e)
      ((view e)\<lparr>nv_vote := v, nv_candidate := Some (v, nv_last (view e)), nv_leader := None\<rparr>)"
    using campaign_vote_later[OF R, of e] campaign_vote_frame[OF R, of e] ge v vote
    by (intro node_step.campaign) simp_all
  ultimately show ?thesis
    using update_internal_run[OF int] by (metis converse_rtranclp_into_rtranclp)
qed

lemma start_campaign_run:
  fixes d e :: "('n, 'nd, 'l, 'c::linorder, 'm, 'd, 's, 'e, 'pp, 'cp, 'gp) engine"
  assumes R: "raft_leader_id (tc_lid C)" and ok: "start_campaign C rng now tf d = Some e'"
    and d: "view d = (view e)\<lparr>nv_leader := None\<rparr>" "en_state d = en_state e"
  shows "node_run (tc_lid C) (view e) (view e')"
proof -
  define e2 where "e2 = d\<lparr>en_config := resample_election_timeout rng (en_config d)\<rparr>"
  let ?v = "campaign_vote C e2"
  define r where "r = new_candidate C now ?v e2"
  have v2: "view e2 = (view e)\<lparr>nv_leader := None\<rparr>" using d by (simp add: e2_def view_def)
  have "own_id e2 = own_id e" using arg_cong[OF v2, of nv_id] by simp
  then have v: "?v = campaign_vote C e" using d(2) by (simp add: campaign_vote_def e2_def)
  obtain e4 where e4: "update_vote C now ?v (snd r) = Some (Inr (), e4)" and e': "view e' = view e4"
    using ok unfolding start_campaign_def Let_def e2_def[symmetric] r_def[symmetric]
    by (auto simp: case_prod_beta bind_eq_Some_conv split: sum.split_asm) (metis obj_sumE old.unit.exhaust)
  have "view (snd r) = (view e2)\<lparr>nv_candidate := Some (?v, nv_last (view e))\<rparr>"
    using d(2) by (auto simp: r_def new_candidate_def Let_def view_def candidate_new_def last_log_id_def e2_def)
  then show ?thesis using update_vote_campaign[OF R _ v e4] v2 e' by simp
qed

lemma pre_candidate_view [simp]: "view (e\<lparr>en_pre_candidate := p\<rparr>) = view e"
  "view (e\<lparr>en_config := resample_election_timeout rng (en_config e)\<rparr>) = view e"
  by (simp_all add: view_def)

lemma do_elect_run:
  assumes R: "raft_leader_id (tc_lid C)" and ok: "do_elect C rng now tf e = Some e'"
  shows "node_run (tc_lid C) (view e) (view e')"
proof (cases "en_leader e")
  case None
  have "view (e\<lparr>en_pre_candidate := None\<rparr>) = (view e)\<lparr>nv_leader := None\<rparr>" using None by (simp add: view_def)
  moreover have "start_campaign C rng now tf (e\<lparr>en_pre_candidate := None\<rparr>) = Some e'"
    using ok None by (simp add: do_elect_def)
  ultimately show ?thesis using start_campaign_run[OF R] by fastforce
next
  case (Some ld)
  have "view (e\<lparr>en_pre_candidate := None, en_leader := None\<rparr>) = (view e)\<lparr>nv_leader := None\<rparr>"
    "view (e\<lparr>en_pre_candidate := None\<rparr>) = view e" by (simp_all add: view_def)
  then show ?thesis
    using ok Some start_campaign_run[OF R, where e = e and e' = e' and rng = rng and now = now and tf = tf and
        d = "push_command CloseReplicationStreams (prepend_command FailPendingReads (e\<lparr>en_pre_candidate := None, en_leader := None\<rparr>))"]
    by (auto simp: do_elect_def Let_def split: if_split_asm)
qed

lemma pre_elect_run:
  assumes R: "raft_leader_id (tc_lid C)" and ok: "pre_elect C rng now e = Some e'"
  shows "node_run (tc_lid C) (view e) (view e')"
  using ok
  by (auto simp: pre_elect_def elect_def Let_def new_pre_candidate_def case_prod_beta
      dest!: do_elect_run[OF R] split: if_split_asm)

lemma server_state_output [simp]: "en_output (update_server_state_if_changed C e) = en_output e"
  by (simp add: update_server_state_if_changed_def Let_def)

lemma start_campaign_total:
  fixes e :: "('n, 'nd, 'l, 'c::linorder, 'm, 'd, 's, 'e, 'pp, 'cp, 'gp) engine"
  assumes R: "raft_leader_id (tc_lid C)" and t: "vote_term (tc_lid C) (vote_ref (en_state e)) < 2 ^ 64 - 1"
  shows "\<exists>e'. start_campaign C rng now tf e = Some e' \<and> vote_ref (en_state e') = campaign_vote C e \<and>
    SendVote \<lparr>vq_vote = campaign_vote C e, vq_last_log_id = last_log_id (en_state e), leadership_transfer_from = tf\<rparr>
      \<in> set (out_commands (en_output e'))"
proof -
  define d where "d = e\<lparr>en_config := resample_election_timeout rng (en_config e)\<rparr>"
  have v: "campaign_vote C d = campaign_vote C e" by (simp add: campaign_vote_def d_def)
  define f where "f = snd (new_candidate C now (campaign_vote C e) d)"
  have f: "vote_ref (en_state f) = vote_ref (en_state e)" "own_id f = own_id e"
    by (simp_all add: f_def d_def new_candidate_def Let_def)
  have ge: "vote_ge (tc_lid C) (campaign_vote C e) (vote_ref (en_state f))"
  proof -
    have "term_next (vote_term (tc_lid C) (vote_ref (en_state e))) = vote_term (tc_lid C) (vote_ref (en_state e)) + 1"
      using t by (simp add: term_next_def wrapping_add_small)
    then have "vote_gt (tc_lid C) (campaign_vote C e) (vote_ref (en_state e))"
      using raft_leader_id.vote_later_term_gt[OF R, of "vote_ref (en_state e)" "campaign_vote C e"] campaign_vote_frame(3)[OF R, of e]
      by (simp add: vote_term_def)
    then show ?thesis using raft_leader_id.vote_gt_ge[OF R] f by metis
  qed
  let ?r = "record_vote C now (campaign_vote C e) f"
  have r: "vote_ref (en_state ?r) = campaign_vote C e" using view_sel(2)[of ?r] record_vote_view[OF R ge] by simp
  then have "\<not> is_leader (tc_lid C) (tc_mem C) (en_state ?r) (own_id ?r)"
    using campaign_vote_frame(2)[OF R, of e] by (simp add: is_leader_def)
  then obtain g where "update_internal_server_state C now ?r = Some g" "g = ?r \<or> g = become_following C ?r"
    by (cases "is_leading (tc_lid C) (tc_mem C) (en_state ?r) (own_id ?r)") (auto simp: update_internal_server_state_def)
  moreover have "vote_ref (en_state (become_following C ?r)) = vote_ref (en_state ?r)"
    using arg_cong[OF become_following_view[of C ?r], of nv_vote] by simp
  ultimately have "update_vote C now (campaign_vote C e) f = Some (Inr (), g)" "vote_ref (en_state g) = campaign_vote C e"
    using ge r by (auto simp: update_vote_def)
  moreover have "cd_last_log_id (fst (new_candidate C now (campaign_vote C e) d)) = last_log_id (en_state e)"
    by (simp add: new_candidate_def candidate_new_def Let_def d_def)
  moreover have "vote_ref (en_state (update_server_state_if_changed C (push_command cmd g))) = vote_ref (en_state g)" for cmd
    using view_sel(2) server_state_view command_view(1) by metis
  ultimately show ?thesis
    by (simp add: start_campaign_def Let_def d_def[symmetric] v case_prod_beta f_def[symmetric] push_command_def out_push_def)
qed

section \<open>Elections\<close>

text \<open>
  What a node may hear about votes: nobody else holds a vote for this node that it has not cast
  itself, unless its storage lost what it had saved.
\<close>

definition vote_heard ::
  "(nat, 'n, 'l, 'c) leader_id_ops \<Rightarrow> ('n, 'nd, 'l, 'c, 'm, 'd, 's, 'e, 'pp, 'cp, 'gp) engine \<Rightarrow> 'l vote \<Rightarrow> bool" where
  "vote_heard L e v \<longleftrightarrow> leader_node_id L v \<noteq> own_id e \<or> vote_ge L (vote_ref (en_state e)) v"

lemma update_vote_heard:
  assumes R: "raft_leader_id (tc_lid C)" and v: "vote_heard (tc_lid C) e v" and ok: "update_vote C now v e = Some (res, e')"
  shows "node_run (tc_lid C) (view e) (view e')"
proof (cases "leader_node_id (tc_lid C) v = own_id e")
  case False
  then show ?thesis using update_vote_foreign_view[OF R _ ok] by blast
next
  case True
  then have old: "vote_ge (tc_lid C) (vote_ref (en_state e)) v" using v by (simp add: vote_heard_def)
  show ?thesis using update_vote_cases[OF ok]
  proof (elim disjE conjE)
    assume ge: "vote_ge (tc_lid C) v (vote_ref (en_state e))"
      and int: "update_internal_server_state C now (record_vote C now v e) = Some e'"
    have "v = vote_ref (en_state e)" using raft_leader_id.vote_ge_antisym[OF R ge old] .
    then have "view (record_vote C now v e) = view e" using record_vote_view[OF R ge] by simp
    then show ?thesis using update_internal_run[OF int] by simp
  qed simp
qed

lemma delay_view [simp]: "view (set_greater_log x e) = view e" "view (reset_greater_log e) = view e" "view (e\<lparr>en_output := out\<rparr>) = view e"
  "en_state (set_greater_log x e) = en_state e" "en_config (set_greater_log x e) = en_config e"
  by (simp_all add: set_greater_log_def reset_greater_log_def view_def)

lemma handle_vote_req_run:
  assumes R: "raft_leader_id (tc_lid C)" and v: "vote_heard (tc_lid C) e (vq_vote req)"
    and ok: "handle_vote_req C now req e = Some (resp, e')"
  shows "node_run (tc_lid C) (view e) (view e')"
  using ok update_vote_heard[OF R v]
  by (auto simp: handle_vote_req_def Let_def bind_eq_Some_conv split: if_split_asm)

lemma handle_vote_req_foreign:
  assumes R: "raft_leader_id (tc_lid C)" and foreign: "leader_node_id (tc_lid C) (vq_vote req) \<noteq> own_id e"
  shows "\<exists>resp e'. handle_vote_req C now req e = Some (resp, e') \<and>
    (vote_granted resp \<longleftrightarrow>
       vote_ge (tc_lid C) (vq_vote req) (vote_ref (en_state e)) \<and>
       last_log_id (en_state e) \<le> vq_last_log_id req \<and>
       (leadership_transfer_from req = Some (vote_ref (en_state e)) \<or>
        (v_committed (vote_ref (en_state e)) \<longrightarrow> is_expired (st_vote (en_state e)) now 0) \<and>
        (case en_leader e of None \<Rightarrow> True
         | Some ld \<Rightarrow> \<not> ld_is_lease_valid C now ld (leader_lease (timer_config (en_config e)))))) \<and>
    vp_vote resp = vote_ref (en_state e') \<and>
    (if vote_granted resp then vote_ref (en_state e') = vq_vote req \<and> st_log_ids (en_state e') = st_log_ids (en_state e)
     else e' = e)"
proof -
  let ?e = "become_following C (record_vote C now (vq_vote req) e)"
  have "view ?e = (view e)\<lparr>nv_vote := vq_vote req, nv_candidate := None, nv_leader := None\<rparr>"
    if "vote_ge (tc_lid C) (vq_vote req) (vote_ref (en_state e))"
    using update_vote_foreign_view[OF R foreign, of now "Inr ()" ?e] update_vote_foreign[OF R foreign] that by simp
  then have "vote_ref (en_state ?e) = vq_vote req \<and> st_log_ids (en_state ?e) = st_log_ids (en_state e)"
    if "vote_ge (tc_lid C) (vq_vote req) (vote_ref (en_state e))"
    using that view_sel(2,3)[of ?e] by simp
  then show ?thesis
    by (auto simp: handle_vote_req_def Let_def update_vote_foreign[OF R foreign] respond_vote_def vote_response_new_def
        vote_ref_def split: option.splits)
qed

lemma std_grant_unique:
  assumes "vote_ge std_ops v w" "\<not> v_committed v" "vote_term std_ops v = vote_term std_ops w"
  shows "v = w"
  using assms
  by (cases v; cases w) (auto simp: vote_ge_def vote_partial_cmp_def std_ops_def lid_cmp_std_def cmp_def vote_term_def
      is_ge_def leader_id_std.expand split: if_splits option.splits bool.splits)

lemma uncommitted_vote_sel [simp]:
  "leader_node_id L (uncommitted_into_vote (to_non_committed v)) = leader_node_id L v"
  "v_leader_id (uncommitted_into_vote (to_non_committed v)) = v_leader_id v"
  "\<not> v_committed (uncommitted_into_vote (to_non_committed v))"
  by (simp_all add: leader_node_id_def uncommitted_into_vote_def to_non_committed_def)

lemma into_leader_frame:
  "ld_committed_vote (fst (into_leader C now cd g)) = to_committed (cd_vote cd)"
  "ld_last_log_id (fst (into_leader C now cd g)) = cd_last_log_id cd"
  by (simp_all add: into_leader_def leader_new_frame option.map_comp o_def leader_log_ids_new_single_def ll_last_ref_def option.map_ident)

lemma establish_leader_run:
  assumes R: "raft_leader_id (tc_lid C)" and inv: "role_inv (tc_lid C) (view e)"
    and ok: "establish_leader C now e = Some e'"
  shows "node_run (tc_lid C) (view e) (view e')"
proof -
  let ?L = "tc_lid C"
  obtain cd where cd: "en_candidate e = Some cd" using ok by (auto simp: establish_leader_def bind_eq_Some_conv)
  then have v: "cd_vote cd = vote_ref (en_state e)" using inv by (simp add: role_inv_def)
  have no: "en_leader e = None" using leader_no_candidate[OF inv] cd by (cases "en_leader e") simp_all
  define ld where "ld = fst (into_leader C now cd (progress_id_gen (en_state e)))"
  define e1 where "e1 = set_leader ld (set_state ((en_state e)\<lparr>progress_id_gen := snd (into_leader C now cd (progress_id_gen (en_state e)))\<rparr>)
      (e\<lparr>en_candidate := None\<rparr>))"
  have est: "establish C now cd (e\<lparr>en_candidate := None\<rparr>) = (Some ld, e1)"
    using no by (simp add: establish_def ld_def e1_def case_prod_beta)
  have ldf: "ld_committed_vote ld = to_committed (vote_ref (en_state e))" "ld_last_log_id ld = cd_last_log_id cd"
    by (simp_all add: ld_def into_leader_frame v)
  let ?cv = "ld_committed_vote ld"
  have eq: "establish_leader C now e =
      do {
        e \<leftarrow> rebuild_replication_streams C True (e1\<lparr>en_pre_candidate := None\<rparr>);
        (_, e) \<leftarrow> update_vote C now (committed_into_vote ?cv) e;
        map_option snd (leader_append_entries C [Blank]
          (set_state (snd (accept_log_io (tc_lid C) (en_state e) (io_id_new_log_io ?cv (ld_last_log_id ld)))) e))
      }"
    by (simp add: establish_leader_def cd est Let_def)
  obtain e2 res e3 r where e2: "rebuild_replication_streams C True (e1\<lparr>en_pre_candidate := None\<rparr>) = Some e2"
    and e3: "update_vote C now (committed_into_vote ?cv) e2 = Some (res, e3)"
    and e4: "leader_append_entries C [Blank] (set_state (snd (accept_log_io (tc_lid C) (en_state e3) (io_id_new_log_io ?cv (ld_last_log_id ld)))) e3) = Some (r, e')"
    using ok[unfolded eq] by (auto simp: bind_eq_Some_conv)
  have v2: "view e2 = (view e)\<lparr>nv_candidate := None, nv_leader := Some (?cv, cd_last_log_id cd)\<rparr>"
    using rebuild_streams_view[OF e2] ldf
    by (simp add: e1_def view_def set_leader_def set_state_def vote_ref_def local_committed_def snapshot_last_log_id_def)
  have vote2: "vote_ref (en_state e2) = vote_ref (en_state e)" using arg_cong[OF v2, of nv_vote] by simp
  have ge: "vote_ge ?L (committed_into_vote ?cv) (vote_ref (en_state e2))"
    using raft_leader_id.commit_same_leader_ge[OF R] by (simp add: ldf vote2 committed_into_vote_def to_committed_def)
  have int: "update_internal_server_state C now (record_vote C now (committed_into_vote ?cv) e2) = Some e3"
    using update_vote_cases[OF e3] ge by auto
  have "node_step ?L (view e) ((view e)\<lparr>nv_vote := committed_into_vote ?cv, nv_candidate := None,
      nv_leader := Some (?cv, cd_last_log_id cd)\<rparr>)"
    using node_step.win[of "view e" "cd_last_log_id cd" ?L] cd v ldf by simp
  moreover have "view (record_vote C now (committed_into_vote ?cv) e2) =
      (view e)\<lparr>nv_vote := committed_into_vote ?cv, nv_candidate := None, nv_leader := Some (?cv, cd_last_log_id cd)\<rparr>"
    using record_vote_view[OF R ge] v2 by simp
  ultimately have "node_run ?L (view e) (view e3)"
    using update_internal_run[OF int] by (metis converse_rtranclp_into_rtranclp)
  then show ?thesis
    using leader_append_entries_run[OF e4] by (simp add: set_state_view_simps rtranclp_trans)
qed

lemma grant_by_frame: "cd_vote (snd (grant_by C cd t)) = cd_vote cd" "cd_last_log_id (snd (grant_by C cd t)) = cd_last_log_id cd"
  by (simp_all add: grant_by_def split: option.split prod.split)

lemma candidate_view:
  "en_candidate e = Some cd \<Longrightarrow> view (e\<lparr>en_candidate := Some (snd (grant_by C cd t))\<rparr>) = view e"
  by (simp add: view_def grant_by_frame)

lemma handle_vote_resp_run:
  assumes R: "raft_leader_id (tc_lid C)" and inv: "role_inv (tc_lid C) (view e)"
    and v: "vote_heard (tc_lid C) e (uncommitted_into_vote (to_non_committed (vp_vote resp)))"
    and ok: "handle_vote_resp C now target resp e = Some e'"
  shows "node_run (tc_lid C) (view e) (view e')"
proof (cases "en_candidate e")
  case None
  then show ?thesis using ok by (simp add: handle_vote_resp_def)
next
  case (Some cd)
  let ?e = "e\<lparr>en_candidate := Some (snd (grant_by C cd target))\<rparr>"
  let ?v = "uncommitted_into_vote (to_non_committed (vp_vote resp))"
  have same: "view ?e = view e" using candidate_view[OF Some] .
  show ?thesis
  proof (cases "vote_granted resp \<and> vp_vote resp = cd_vote cd")
    case True
    then show ?thesis
      using ok Some same establish_leader_run[OF R, of ?e now e'] inv
      by (auto simp: handle_vote_resp_def case_prod_beta Let_def split: if_split_asm)
  next
    case False
    define e1 where "e1 = (if vp_last_log_id resp > last_log_id (en_state e) then set_greater_log (vp_last_log_id resp) e else e)"
    have e1: "view e1 = view e" "en_state e1 = en_state e" "en_config e1 = en_config e"
      by (simp_all add: e1_def)
    obtain res where up: "update_vote C now ?v e1 = Some (res, e')"
      using ok Some False unfolding handle_vote_resp_def Let_def e1_def[symmetric] by auto
    have "vote_heard (tc_lid C) e1 ?v" using v e1 by (simp add: vote_heard_def)
    from update_vote_heard[OF R this up] show ?thesis using e1 by simp
  qed
qed

lemma handle_pre_vote_resp_run:
  assumes R: "raft_leader_id (tc_lid C)"
    and v: "vote_heard (tc_lid C) e (uncommitted_into_vote (to_non_committed (vp_vote resp)))"
    and ok: "handle_pre_vote_resp C rng now target resp e = Some e'"
  shows "node_run (tc_lid C) (view e) (view e')"
proof (cases "en_pre_candidate e")
  case None
  then show ?thesis using ok by (simp add: handle_pre_vote_resp_def)
next
  case (Some cd)
  let ?v = "uncommitted_into_vote (to_non_committed (vp_vote resp))"
  show ?thesis
  proof (cases "vote_granted resp")
    case True
    then show ?thesis
      using ok Some
      by (auto simp: handle_pre_vote_resp_def elect_def case_prod_beta Let_def dest!: do_elect_run[OF R] split: if_split_asm)
  next
    case False
    define e1 where "e1 = (if vp_last_log_id resp > last_log_id (en_state e) then set_greater_log (vp_last_log_id resp) e else e)"
    have e1: "view e1 = view e" "en_state e1 = en_state e" "en_config e1 = en_config e"
      by (simp_all add: e1_def)
    have "vote_heard (tc_lid C) e1 ?v" using v e1 by (simp add: vote_heard_def)
    then show ?thesis
      using ok Some False e1 update_vote_heard[OF R, of e1 ?v now _ e']
      unfolding handle_pre_vote_resp_def Let_def e1_def[symmetric]
      by (auto split: if_split_asm)
  qed
qed

section \<open>Replication to this node\<close>

text \<open>A message of a leader: its vote is not this node's, and its segment extends a log of its term or before.\<close>

definition segment_heard ::
  "(nat, 'n, 'l, 'c::linorder) leader_id_ops \<Rightarrow> ('n, 'nd, 'l, 'c, 'm, 'd, 's, 'e, 'pp, 'cp, 'gp) engine \<Rightarrow> 'l vote \<Rightarrow>
   ('c, 'd, 'm) log_segment \<Rightarrow> bool" where
  "segment_heard L e v segment \<longleftrightarrow>
     leader_node_id L v \<noteq> own_id e \<and>
     segment_ok (lid_to_committed L (v_leader_id v)) (local_committed (en_state e)) (seg_prev_log_id segment)
       (map ent_log_id (seg_entries segment))"

lemma append_entries_run:
  assumes R: "raft_leader_id (tc_lid C)" and inv: "node_inv (tc_lid C) (view e)"
    and seg: "segment_heard (tc_lid C) e v segment"
    and ok: "append_entries C now v segment e = Some (res, e')"
  shows "node_run (tc_lid C) (view e) (view e')"
    "\<not> isl res \<Longrightarrow> res = Inr (segment_last segment) \<and>
       segment_in_log (local_committed (en_state e)) (seg_prev_log_id segment) (map ent_log_id (seg_entries segment))
         (st_log_ids (en_state e'))"
proof -
  let ?L = "tc_lid C" and ?prev = "seg_prev_log_id segment" and ?ids = "map ent_log_id (seg_entries segment)"
  obtain r e1 where e1: "update_vote C now v e = Some (r, e1)"
    and rest: "(case r of
       Inl higher \<Rightarrow> (Inl (RejectVote higher), e1)
     | Inr _ \<Rightarrow>
         (case ensure_log_consecutive C ?prev e1 of
            (Inl err, e) \<Rightarrow> (Inl err, e)
          | (Inr _, e) \<Rightarrow> (Inr (segment_last segment),
              follower_append_entries C (to_committed (vote_ref (en_state e1))) ?prev (seg_entries segment) e))) = (res, e')"
    using ok unfolding append_entries_def Let_def by (auto simp: bind_eq_Some_conv)
  have foreign: "leader_node_id ?L v \<noteq> own_id e" using seg by (simp add: segment_heard_def)
  note vote = update_vote_foreign_view[OF R foreign e1]
  have goal: "node_run ?L (view e) (view e') \<and>
    (\<not> isl res \<longrightarrow> res = Inr (segment_last segment) \<and>
       segment_in_log (local_committed (en_state e)) ?prev ?ids (st_log_ids (en_state e')))"
  proof (cases r)
    case (Inl higher)
    then show ?thesis using rest vote by auto
  next
    case (Inr u)
    then have v1: "view e1 = (view e)\<lparr>nv_vote := v, nv_candidate := None, nv_leader := None\<rparr>" using vote by simp
    have inv1: "node_inv ?L (view e1)" using raft_leader_id.run_inv[OF R] vote inv by blast
    have own: "\<not> own_vote ?L (view e1)" using foreign unfolding own_vote_def v1 by simp
    have seg1: "segment_ok (vote_clid ?L (view e1)) (nv_committed (view e1)) ?prev ?ids"
      using seg unfolding segment_heard_def vote_clid_def v1 by simp
    note ens = ensure_log_consecutive_run[OF inv1 own, of C ?prev]
    obtain er e2 where e2: "ensure_log_consecutive C ?prev e1 = (er, e2)" by fastforce
    show ?thesis
    proof (cases er)
      case (Inl err)
      then show ?thesis using rest Inr e2 ens(1) vote by (auto intro: rtranclp_trans)
    next
      case (Inr u')
      then have "e2 = e1" and has: "\<forall>p. ?prev = Some p \<longrightarrow> has_log_id (en_state e1) p" using ens(2) e2 by auto
      note app = follower_append_entries_run[OF inv1 own seg1 has, of C "to_committed (vote_ref (en_state e1))"]
      have "res = Inr (segment_last segment)"
        and "e' = follower_append_entries C (to_committed (vote_ref (en_state e1))) ?prev (seg_entries segment) e1"
        using rest \<open>r = Inr u\<close> e2 Inr \<open>e2 = e1\<close> by auto
      moreover have "nv_committed (view e1) = local_committed (en_state e)" unfolding v1 by simp
      ultimately show ?thesis using app vote by (auto intro: rtranclp_trans)
    qed
  qed
  then show "node_run ?L (view e) (view e')"
    "\<not> isl res \<Longrightarrow> res = Inr (segment_last segment) \<and>
       segment_in_log (local_committed (en_state e)) ?prev ?ids (st_log_ids (en_state e'))" by auto
qed

lemma handle_append_entries_run:
  assumes "raft_leader_id (tc_lid C)" "node_inv (tc_lid C) (view e)" "segment_heard (tc_lid C) e v segment"
    and "handle_append_entries C now v segment tx e = Some e'"
  shows "node_run (tc_lid C) (view e) (view e')"
  using assms(4) append_entries_run(1)[OF assms(1-3)]
  by (auto simp: handle_append_entries_def Let_def bind_eq_Some_conv)

lemma handle_install_full_snapshot_run:
  assumes R: "raft_leader_id (tc_lid C)" and inv: "node_inv (tc_lid C) (view e)" and v: "leader_node_id (tc_lid C) v \<noteq> own_id e"
    and ok: "handle_install_full_snapshot C now v snapshot tx e = Some e'"
  shows "node_run (tc_lid C) (view e) (view e')"
proof -
  let ?L = "tc_lid C"
  obtain r e1 where e1: "update_vote C now v e = Some (r, e1)"
    using ok by (auto simp: handle_install_full_snapshot_def accept_vote_def bind_eq_Some_conv)
  note vote = update_vote_foreign_view[OF R v e1]
  show ?thesis
  proof (cases r)
    case (Inl higher)
    then have "view e' = view e1" using ok e1 by (auto simp: handle_install_full_snapshot_def accept_vote_def)
    then show ?thesis using vote by simp
  next
    case (Inr u)
    then have v1: "view e1 = (view e)\<lparr>nv_vote := v, nv_candidate := None, nv_leader := None\<rparr>" using vote by simp
    have inv1: "node_inv ?L (view e1)" using raft_leader_id.run_inv[OF R] vote inv by blast
    have own: "\<not> own_vote ?L (view e1)" using v unfolding own_vote_def v1 by simp
    obtain cond e2 where e2: "install_full_snapshot C (to_committed (vote_ref (en_state e1))) snapshot e1 = Some (cond, e2)"
      and "view e' = view e2"
      using ok e1 Inr by (auto simp: handle_install_full_snapshot_def accept_vote_def bind_eq_Some_conv)
    moreover have "cv_committed_leader_id ?L (to_committed (vote_ref (en_state e1))) = vote_clid ?L (view e1)"
      by (simp add: cv_committed_leader_id_def vote_clid_def)
    ultimately show ?thesis using install_full_snapshot_run[OF inv1 own _ e2] vote by (auto intro: rtranclp_trans)
  qed
qed

section \<open>Initialization and maintenance\<close>

text \<open>A node that holds the vote it was created with and takes no part in an election.\<close>

definition fresh_node :: "(nat, 'n, 'l, 'c) leader_id_ops \<Rightarrow> ('n, 'nd, 'l, 'c, 'm, 'd, 's, 'e, 'pp, 'cp, 'gp) engine \<Rightarrow> bool" where
  "fresh_node L e \<longleftrightarrow> v_leader_id (vote_ref (en_state e)) = lid_new L 0 (own_id e) \<and> en_candidate e = None \<and> en_leader e = None"

lemma initialize_run:
  assumes R: "raft_leader_id (tc_lid C)" and fresh: "fresh_node (tc_lid C) e" and ok: "initialize C now m e = (res, e')"
  shows "node_run (tc_lid C) (view e) (view e')"
proof (cases res)
  case (Inl err)
  then show ?thesis using ok by (auto simp: initialize_def Let_def split: sum.split_asm)
next
  case (Inr u)
  let ?L = "tc_lid C"
  let ?v = "\<lparr>v_leader_id = lid_new ?L 0 (own_id e), v_committed = True\<rparr>"
  let ?x = "LogId (lid_to_committed ?L (v_leader_id ?v)) 0"
  have none: "nv_last (view e) = None"
    using ok Inr by (auto simp: initialize_def check_initialize_def is_initialized_def last_log_id_def split: if_split_asm)
  have ge: "vote_ge ?L ?v (nv_vote (view e))"
    using raft_leader_id.commit_same_leader_ge[OF R, of "vote_ref (en_state e)"] fresh by (simp add: fresh_node_def)
  have "view e' = (view e)\<lparr>nv_vote := ?v, nv_log := log_extend (nv_log (view e)) [?x]\<rparr>"
    using ok Inr
    by (auto simp: initialize_def Let_def do_append_entries_view split: sum.split_asm)
      (simp add: view_def set_state_def leased_update_def vote_ref_def local_committed_def snapshot_last_log_id_def)
  moreover have "leader_node_id ?L ?v = nv_id (view e)"
    using raft_leader_id.new_accessors(2)[OF R] by (simp add: leader_node_id_def)
  ultimately show ?thesis using node_step.found[OF none _ _ ge] fresh by (simp add: fresh_node_def r_into_rtranclp)
qed

lemma trigger_purge_log_run:
  assumes "log_wf (st_log_ids (en_state e))" "trigger_purge_log C index e = Some e'"
  shows "node_run L (view e) (view e')"
proof (cases "view e' = view e")
  case False
  then obtain snap x where snap: "snapshot_last_log_id (en_state e) = Some snap"
    and x: "get_log_id (en_state e) (min index (idx snap)) = Some x" and pu: "try_purge_log C (update_purge_upto x e) = Some e'"
    using assms(2)
    by (auto simp: trigger_purge_log_def Let_def bind_eq_Some_conv min_def not_le split: option.split_asm if_split_asm)
  have i: "idx x = min index (idx snap)"
    using log_get_clid_idx[OF assms(1), of "min index (idx snap)" x] x by (simp add: get_log_id_def ref_log_id_def log_get_def)
  have "node_run L (view e) (view (update_purge_upto x e))"
    using update_purge_upto_run[of e x L] x i snap by simp
  then show ?thesis using try_purge_log_run[OF pu] by (rule rtranclp_trans)
qed simp

lemma io_state_view:
  "accepted (apply_progress io) = local_committed (en_state e) \<Longrightarrow>
   view (set_state ((en_state e)\<lparr>st_io_state := io\<rparr>) e) = view e"
  by (simp add: set_state_view state_view_defs)

lemma on_building_snapshot_done_run:
  assumes wf: "log_wf (st_log_ids (en_state e))" and batch: "batch_end_positive e"
    and covered: "case meta of None \<Rightarrow> True
      | Some m \<Rightarrow> next_index (snap_last_log_id m) \<le> next_index (local_committed (en_state e))"
    and ok: "on_building_snapshot_done C meta e = Some e'"
  shows "node_run L (view e) (view e')"
proof -
  define e1 where "e1 = set_state (set_building_snapshot False (en_state e)) e"
  have v1: "view e1 = view e"
    unfolding e1_def set_building_snapshot_def by (rule io_state_view) (simp add: local_committed_def)
  show ?thesis
  proof (cases meta)
    case None
    then show ?thesis using ok v1 by (simp add: on_building_snapshot_done_def e1_def Let_def)
  next
    case (Some m)
    define s2 where "s2 = (case snap_last_log_id m of
        None \<Rightarrow> en_state e1
      | Some x \<Rightarrow> (en_state e1)\<lparr>st_io_state := (st_io_state (en_state e1))\<lparr>snapshot_progress :=
            try_update_all (<) (snapshot_progress (st_io_state (en_state e1))) x\<rparr>\<rparr>)"
    define e2 where "e2 = set_state s2 e1"
    have "state_view s2 = state_view (en_state e1)" by (simp add: s2_def state_view_defs split: option.split)
    then have v2: "view e2 = view e" using v1 by (simp add: e2_def set_state_view)
    obtain b e3 where e3: "update_snapshot m e2 = (b, e3)" by fastforce
    have e': "(if b then try_purge_log C (schedule_policy_based_purge e3) else Some e3) = Some e'"
      using ok e3 unfolding Some on_building_snapshot_done_def Let_def e1_def[symmetric] option.case s2_def[symmetric] e2_def[symmetric]
      by (simp split: bool.split_asm if_split_asm)
    have com: "local_committed (en_state e2) = local_committed (en_state e)" and log: "st_log_ids (en_state e2) = st_log_ids (en_state e)"
      using arg_cong[OF v2, of nv_committed] arg_cong[OF v2, of nv_log] by simp_all
    have run3: "node_run L (view e) (view e3)"
      using update_snapshot_run[of m e2 L] covered Some e3 v2 com by simp
    have "log_wf (st_log_ids (en_state e3))" "batch_end_positive e3"
      using e3 wf batch log
      by (auto simp: batch_end_positive_def last_purged_log_id_def update_snapshot_def e2_def e1_def split: if_split_asm)
    then have "node_run L (view e3) (view (schedule_policy_based_purge e3))" by (rule schedule_purge_run)
    then show ?thesis
      using run3 e' try_purge_log_run[of C "schedule_policy_based_purge e3" e' L]
      by (cases b) (auto intro: rtranclp_trans)
  qed
qed

lemma transfer_leader_view: "transfer_leader now to e = Some e' \<Longrightarrow> view e' = view e"
  by (auto simp: transfer_leader_def mark_transfer_def Let_def bind_eq_Some_conv)
    (simp add: view_def set_leader_def set_state_def disable_lease_def vote_ref_def local_committed_def snapshot_last_log_id_def)

lemma trigger_transfer_view: "view (trigger_transfer_leader now to e) = view e"
  by (auto simp: trigger_transfer_leader_def dest: transfer_leader_view split: option.split)

lemma trigger_snapshot_view: "trigger_snapshot e = (b, e') \<Longrightarrow> view e' = view e"
  by (auto simp: trigger_snapshot_def set_building_snapshot_def io_state_view local_committed_def split: if_split_asm)

lemma update_committed_commits: "commits_only e (set_state (update_committed L (en_state e) cc) e)"
proof -
  have "view (set_state (update_committed L (en_state e) cc) e) =
      (view e)\<lparr>nv_committed := max (nv_committed (view e))
        (calculate_local_committed L (st_io_state (with_cluster_committed L (en_state e) cc)))\<rparr>"
    by (simp add: view_def set_state_def vote_ref_def snapshot_last_log_id_def update_committed_frame update_committed_value)
  then show ?thesis unfolding commits_only_def by blast
qed

section \<open>The engine as a state machine\<close>

text \<open>
  The events that reach an engine after start-up, with what the environment guarantees: a message
  carries no vote for this node that it has not cast itself, a leader's segment agrees with the
  committed log, a commit point is in the log, a snapshot that was built covers committed entries, and
  the end of the next batch to purge is not index zero.
\<close>

inductive engine_step ::
  "('n::linorder, 'nd, 'l, 'c::linorder, 'm, 'q, 'pp, 'cp, 'gp) raft_type_config \<Rightarrow>
   ('n, 'nd, 'l, 'c, 'm, 'd, 's, 'e, 'pp, 'cp, 'gp) engine \<Rightarrow> ('n, 'nd, 'l, 'c, 'm, 'd, 's, 'e, 'pp, 'cp, 'gp) engine \<Rightarrow> bool"
  for C where
  step_elect: "elect C rng now e = Some e' \<Longrightarrow> engine_step C e e'"
| step_transfer_elect: "elect_by_leadership_transfer C rng now v e = Some e' \<Longrightarrow> engine_step C e e'"
| step_pre_elect: "pre_elect C rng now e = Some e' \<Longrightarrow> engine_step C e e'"
| step_initialize: "fresh_node (tc_lid C) e \<Longrightarrow> initialize C now m e = (res, e') \<Longrightarrow> engine_step C e e'"
| step_vote_req:
    "vote_heard (tc_lid C) e (vq_vote req) \<Longrightarrow> handle_vote_req C now req e = Some (resp, e') \<Longrightarrow> engine_step C e e'"
| step_vote_resp:
    "vote_heard (tc_lid C) e (uncommitted_into_vote (to_non_committed (vp_vote resp))) \<Longrightarrow>
     handle_vote_resp C now target resp e = Some e' \<Longrightarrow> engine_step C e e'"
| step_pre_vote_resp:
    "vote_heard (tc_lid C) e (uncommitted_into_vote (to_non_committed (vp_vote resp))) \<Longrightarrow>
     handle_pre_vote_resp C rng now target resp e = Some e' \<Longrightarrow> engine_step C e e'"
| step_append:
    "segment_heard (tc_lid C) e v segment \<Longrightarrow> handle_append_entries C now v segment tx e = Some e' \<Longrightarrow> engine_step C e e'"
| step_install:
    "leader_node_id (tc_lid C) v \<noteq> own_id e \<Longrightarrow> handle_install_full_snapshot C now v snapshot tx e = Some e' \<Longrightarrow>
     engine_step C e e'"
| step_propose: "leader_append_entries C payloads e = Some (ids, e') \<Longrightarrow> engine_step C e e'"
| step_heartbeat: "send_heartbeat C now b e = Some (sent, e') \<Longrightarrow> engine_step C e e'"
| step_transfer: "engine_step C e (trigger_transfer_leader now to e)"
| step_progress: "update_progress C sid p i e = Some e' \<Longrightarrow> committed_known e' \<Longrightarrow> engine_step C e e'"
| step_local_progress: "update_local_progress C up_to e = Some e' \<Longrightarrow> committed_known e' \<Longrightarrow> engine_step C e e'"
| step_clock: "try_update_leader_clock C sid target at e = Some e' \<Longrightarrow> engine_step C e e'"
| step_revert: "allow_next_revert C target b e = Some (r, e') \<Longrightarrow> engine_step C e e'"
| step_commit:
    "e' = set_state (update_committed (tc_lid C) (en_state e) cc) e \<Longrightarrow> committed_known e' \<Longrightarrow> engine_step C e e'"
| step_refresh: "refresh_server_state C now e = Some e' \<Longrightarrow> engine_step C e e'"
| step_build: "trigger_snapshot e = (b, e') \<Longrightarrow> engine_step C e e'"
| step_built:
    "batch_end_positive e \<Longrightarrow>
     (case meta of None \<Rightarrow> True | Some m \<Rightarrow> next_index (snap_last_log_id m) \<le> next_index (local_committed (en_state e))) \<Longrightarrow>
     on_building_snapshot_done C meta e = Some e' \<Longrightarrow> engine_step C e e'"
| step_purge: "try_purge_log C e = Some e' \<Longrightarrow> engine_step C e e'"
| step_trigger_purge: "trigger_purge_log C index e = Some e' \<Longrightarrow> engine_step C e e'"
| step_reset_delay: "engine_step C e (reset_greater_log e)"
| step_output: "engine_step C e (e\<lparr>en_output := out\<rparr>)"
| step_io:
    "accepted (apply_progress io) = local_committed (en_state e) \<Longrightarrow>
     engine_step C e (set_state ((en_state e)\<lparr>st_io_state := io\<rparr>) e)"
| step_higher_vote:
    "vote_heard (tc_lid C) e v \<Longrightarrow> update_vote C now v e = Some (vote_res, e') \<Longrightarrow> engine_step C e e'"
| step_replicate: "initiate_replication C e = Some e' \<Longrightarrow> engine_step C e e'"
| step_disable_lease: "engine_step C e (set_state ((en_state e)\<lparr>st_vote := disable_lease (st_vote (en_state e))\<rparr>) e)"
| step_heartbeat_timer: "en_leader e = Some ld \<Longrightarrow> engine_step C e (set_leader (ld\<lparr>next_heartbeat := t\<rparr>) e)"
| step_heartbeat_round:
    "en_leader e = Some ld \<Longrightarrow> next_heartbeat_round ld = Some (r, ld') \<Longrightarrow> engine_step C e (set_leader ld' e)"

text \<open>The core also changes the lease of the vote and the timers of the leader.\<close>

lemma core_bookkeeping_view:
  "view (set_state ((en_state e)\<lparr>st_vote := disable_lease (st_vote (en_state e))\<rparr>) e) = view e"
  "en_leader e = Some ld \<Longrightarrow> view (set_leader (ld\<lparr>next_heartbeat := t\<rparr>) e) = view e"
  "en_leader e = Some ld \<Longrightarrow> next_heartbeat_round ld = Some (r, ld') \<Longrightarrow> view (set_leader ld' e) = view e"
  by (auto simp: view_def set_state_def set_leader_def disable_lease_def vote_ref_def local_committed_def
      snapshot_last_log_id_def next_heartbeat_round_def split: option.splits)

theorem engine_step_refines:
  assumes R: "raft_leader_id (tc_lid C)" and "engine_step C e e'" and inv: "node_inv (tc_lid C) (view e)"
  shows "node_run (tc_lid C) (view e) (view e')"
  using assms(2,3)
proof (induction rule: engine_step.induct)
  case (step_elect rng now e e')
  then show ?case using do_elect_run[OF R] by (simp add: elect_def)
next
  case (step_transfer_elect rng now v e e')
  then show ?case using do_elect_run[OF R] by (simp add: elect_by_leadership_transfer_def)
next
  case (step_pre_elect rng now e e')
  then show ?case using pre_elect_run[OF R] by blast
next
  case (step_initialize e now m res e')
  then show ?case using initialize_run[OF R] by blast
next
  case (step_vote_req e req now resp e')
  then show ?case using handle_vote_req_run[OF R] by blast
next
  case (step_vote_resp e resp now target e')
  then show ?case using handle_vote_resp_run[OF R] by (auto simp: node_inv_def)
next
  case (step_pre_vote_resp e resp rng now target e')
  then show ?case using handle_pre_vote_resp_run[OF R] by blast
next
  case (step_append e v segment now tx e')
  then show ?case using handle_append_entries_run[OF R] by blast
next
  case (step_install v e now snapshot tx e')
  then show ?case using handle_install_full_snapshot_run[OF R] by blast
next
  case (step_propose payloads e ids e')
  then show ?case using leader_append_entries_run by blast
next
  case (step_progress sid p i e e')
  then show ?case using update_progress_run by (auto simp: node_inv_def)
next
  case (step_local_progress up_to e e')
  then show ?case
    using commits_only_run[where L = "tc_lid C", OF _ update_local_progress_commits[OF step_local_progress(1)] step_local_progress(2)]
    by (simp add: node_inv_def)
next
  case (step_commit e' e cc)
  then show ?case
    using commits_only_run[where L = "tc_lid C", OF _ update_committed_commits[where e = e and L = "tc_lid C" and cc = cc]]
    by (simp add: node_inv_def)
next
  case (step_refresh now e e')
  then show ?case using update_internal_run by (simp add: refresh_server_state_def)
next
  case (step_built e meta e')
  then show ?case using on_building_snapshot_done_run by (auto simp: node_inv_def log_inv_def)
next
  case (step_purge e e')
  then show ?case using try_purge_log_run by blast
next
  case (step_trigger_purge index e e')
  then show ?case using trigger_purge_log_run by (auto simp: node_inv_def log_inv_def)
next
  case (step_higher_vote e v now vote_res e')
  then show ?case using update_vote_heard[OF R] by blast
next
  case (step_heartbeat_timer e ld t)
  then show ?case by (simp add: core_bookkeeping_view(2))
next
  case (step_heartbeat_round e ld r ld')
  then show ?case by (simp add: core_bookkeeping_view(3))
qed (auto dest: leader_bookkeeping_view trigger_snapshot_view initiate_replication_view
    simp: trigger_transfer_view io_state_view core_bookkeeping_view)

section \<open>Runs\<close>

abbreviation engine_run ::
  "('n::linorder, 'nd, 'l, 'c::linorder, 'm, 'q, 'pp, 'cp, 'gp) raft_type_config \<Rightarrow>
   ('n, 'nd, 'l, 'c, 'm, 'd, 's, 'e, 'pp, 'cp, 'gp) engine \<Rightarrow> ('n, 'nd, 'l, 'c, 'm, 'd, 's, 'e, 'pp, 'cp, 'gp) engine \<Rightarrow> bool" where
  "engine_run C \<equiv> (engine_step C)\<^sup>*\<^sup>*"

theorem engine_run_refines:
  assumes R: "raft_leader_id (tc_lid C)" and "engine_run C e e'" and inv: "node_inv (tc_lid C) (view e)"
  shows "node_run (tc_lid C) (view e) (view e')"
  using assms(2)
proof (induction rule: rtranclp_induct)
  case (step d d')
  then have "node_inv (tc_lid C) (view d)" using raft_leader_id.run_inv[OF R] inv by blast
  then show ?case using engine_step_refines[OF R step(2)] step(3) by (blast intro: rtranclp_trans)
qed simp

text \<open>Start-up from storage: the node takes no role, and only its vote may be demoted.\<close>

lemma startup_inv:
  fixes e e' :: "('n, 'nd, 'l, 'c::linorder, 'm, 'd, 's, 'e, 'pp, 'cp, 'gp) engine"
  assumes R: "raft_leader_id (tc_lid C)" and e: "e = engine_new s cfg" and inv: "log_inv (tc_lid C) (view e)"
    and ok: "startup C rng now e = Some e'"
  shows "node_inv (tc_lid C) (view e')"
proof -
  define v where "v = (if is_leader (tc_lid C) (tc_mem C) s (ec_id cfg)
      then leased_update (st_vote s) now 0 (uncommitted_into_vote (to_non_committed (vote_ref s))) else st_vote s)"
  define s1 where "s1 = s\<lparr>st_vote := v, st_server_state := calc_following_state (tc_mem C) (s\<lparr>st_vote := v\<rparr>) (ec_id cfg)\<rparr>"
  define e1 where "e1 = set_state s1 e"
  have "e' = e1 \<or> elect C rng now e1 = Some e'"
    using ok by (auto simp: startup_def Let_def e1_def s1_def v_def e engine_new_def set_state_def split: if_split_asm)
  moreover have "node_inv (tc_lid C) (view e1)"
  proof -
    have "v_leader_id (leased_data v) = v_leader_id (nv_vote (view e))"
      by (simp add: e engine_new_def v_def vote_ref_def leased_update_def)
    then have "log_inv (tc_lid C) ((view e)\<lparr>nv_vote := leased_data v\<rparr>)" using log_inv_vote inv by blast
    moreover have "view e1 = (view e)\<lparr>nv_vote := leased_data v\<rparr>"
      by (simp add: view_def e e1_def s1_def engine_new_def set_state_def vote_ref_def local_committed_def snapshot_last_log_id_def)
    moreover have "role_inv (tc_lid C) (view e1)" by (simp add: role_inv_def e e1_def engine_new_def)
    ultimately show ?thesis by (simp add: node_inv_def)
  qed
  ultimately show ?thesis
    using do_elect_run[OF R, of rng now None e1 e'] raft_leader_id.run_inv[OF R] by (auto simp: elect_def)
qed

end
