(* ===== verification/Samples.thy ===== *)
theory Samples
  imports EngineRuns Memberships "HOL-Library.Code_Target_Nat"
begin

text \<open>
  Concrete instances of what the model takes as parameters, and concrete nodes, for the witnesses.
  The quorum-tracking structures are lists of the values of the nodes with their quorum set.
\<close>

section \<open>Tracking by lists\<close>

definition fresh_entries :: "('n \<Rightarrow> nat \<Rightarrow> 'e \<times> nat) \<Rightarrow> 'n list \<Rightarrow> nat \<Rightarrow> 'e list \<times> nat" where
  "fresh_entries mk ids g = fold (\<lambda>nid (es, g). let (e, g) = mk nid g in (es @ [e], g)) ids ([], g)"

definition list_accepted ::
  "('n, 'nd, 'm, 'q) membership_ops \<Rightarrow> 'q \<Rightarrow> ('n, 'c::linorder) progress_entry list \<Rightarrow> 'c log_id option" where
  "list_accepted M q es =
     foldr max (filter (\<lambda>v. qs_is_quorum M q (map pe_id (filter (\<lambda>e. v \<le> matching e) es))) (map matching es)) None"

definition list_progress ::
  "('n, 'nd, 'm, 'q) membership_ops \<Rightarrow> ('n, 'c::linorder, 'q, 'q \<times> ('n, 'c) progress_entry list) progress_ops" where
  "list_progress M =
     \<lparr>pp_new = (\<lambda>q others mk g. let (es, g) = fresh_entries mk (qs_ids M q @ others) g in ((q, es), g)),
      pp_upgrade_quorum_set = (\<lambda>(_, old) q others mk g.
        let (es, g) = fresh_entries (\<lambda>nid g. case find (\<lambda>e. pe_id e = nid) old of Some e \<Rightarrow> (e, g) | None \<Rightarrow> mk nid g)
              (qs_ids M q @ others) g
        in ((q, es), g)),
      pp_update_entry_with = (\<lambda>(q, es) nid f.
        if nid \<in> set (map pe_id es)
        then (let es = map (\<lambda>e. if pe_id e = nid then f e else e) es in Some (list_accepted M q es, (q, es))) else None),
      pp_reset_entry_with = (\<lambda>(q, es) nid f.
        if nid \<in> set (map pe_id es) then Some (q, map (\<lambda>e. if pe_id e = nid then f e else e) es) else None),
      pp_update_data_with = (\<lambda>(q, es) nid f.
        if nid \<in> set (map pe_id es) then Some (q, map (\<lambda>e. if pe_id e = nid then e\<lparr>pe_data := f (pe_data e)\<rparr> else e) es)
        else None),
      pp_try_get = (\<lambda>(_, es) nid. find (\<lambda>e. pe_id e = nid) es),
      pp_iter = snd,
      pp_write_back = (\<lambda>(q, _) es. (q, es))\<rparr>"

definition stamp_max :: "send_stamp option \<Rightarrow> send_stamp option \<Rightarrow> send_stamp option" where
  "stamp_max a b =
     (case (a, b) of (Some x, Some y) \<Rightarrow> Some (if stamp_le x y then y else x) | (None, _) \<Rightarrow> b | (_, None) \<Rightarrow> a)"

definition clock_accepted ::
  "('n, 'nd, 'm, 'q) membership_ops \<Rightarrow> 'q \<Rightarrow> ('n \<times> send_stamp option) list \<Rightarrow> send_stamp option" where
  "clock_accepted M q vs =
     foldr stamp_max (filter (\<lambda>v. qs_is_quorum M q (map fst (filter (\<lambda>(_, w). stamp_max v w = w) vs))) (map snd vs)) None"

definition list_clock ::
  "('n, 'nd, 'm, 'q) membership_ops \<Rightarrow> ('n, 'q, 'q \<times> ('n \<times> send_stamp option) list) clock_ops" where
  "list_clock M =
     \<lparr>cp_new = (\<lambda>q others. (q, map (\<lambda>n. (n, None)) (qs_ids M q @ others))),
      cp_upgrade_quorum_set = (\<lambda>(_, vs) q others. (q, map (\<lambda>n. (n, Option.bind (map_of vs n) id)) (qs_ids M q @ others))),
      cp_increase_to = (\<lambda>(q, vs) nid v.
        if nid \<in> set (map fst vs)
        then (let vs = map (\<lambda>(n, w). (n, if n = nid then stamp_max w v else w)) vs in Some (clock_accepted M q vs, (q, vs)))
        else None),
      cp_quorum_accepted = (\<lambda>(q, vs). clock_accepted M q vs),
      cp_voter_count = (\<lambda>(q, _). length (qs_ids M q)),
      cp_iter = snd,
      cp_is_voter = (\<lambda>(q, vs) nid. if nid \<in> set (map fst vs) then Some (nid \<in> set (qs_ids M q)) else None),
      cp_quorum_set = fst,
      cp_try_get = (\<lambda>(_, vs) nid. map_of vs nid)\<rparr>"

definition list_election ::
  "('n, 'nd, 'm, 'q) membership_ops \<Rightarrow> ('n, 'q, 'q list \<times> 'n list) election_ops" where
  "list_election M =
     \<lparr>gp_new_read = (\<lambda>q. ([q], [])),
      gp_new_both = (\<lambda>r w. ([r, w], [])),
      gp_update_progress = (\<lambda>(qs, granted) nid b.
        if nid \<in> set (concat (map (qs_ids M) qs))
        then (let granted = (if b then List.insert nid granted else granted)
              in Some (list_all (\<lambda>q. qs_is_quorum M q granted) qs, (qs, granted)))
        else None)\<rparr>"

section \<open>Nodes\<close>

definition sample_weighted :: "(nat, unit) weighted_membership" where
  "sample_weighted = (case weighted_membership_new [(1, 2), (2, 1), (3, 1)] 3 [(1, ()), (2, ()), (3, ())] of Inr m \<Rightarrow> m)"

abbreviation sample_membership_ops ::
  "(nat, unit, (nat, unit) weighted_membership, nat weighted_quorum_set joint) membership_ops" where
  "sample_membership_ops \<equiv> weighted_ops"

abbreviation sample_tc ::
  "(nat, unit, (nat, nat) leader_id_std, nat committed_leader_id, (nat, unit) weighted_membership,
    nat weighted_quorum_set joint, nat weighted_quorum_set joint \<times> (nat, nat committed_leader_id) progress_entry list,
    nat weighted_quorum_set joint \<times> (nat \<times> send_stamp option) list,
    nat weighted_quorum_set joint list \<times> nat list) raft_type_config" where
  "sample_tc \<equiv>
     \<lparr>tc_lid = std_ops, tc_mem = sample_membership_ops, tc_progress = list_progress sample_membership_ops,
      tc_clock = list_clock sample_membership_ops, tc_election = list_election sample_membership_ops\<rparr>"

lemma sample_leader_ids: "raft_leader_id (tc_lid sample_tc)"
  using std.raft_leader_id_axioms by simp

definition sample_engine_config :: "nat \<Rightarrow> nat engine_config" where
  "sample_engine_config nid =
     \<lparr>ec_id = nid, max_in_snapshot_log_to_keep = 2, purge_batch_size = 1, max_payload_entries = 16,
      ec_allow_log_reversion = False, election_timeout_min = 150, election_timeout_max = 300,
      timer_config = \<lparr>election_timeout = 200, smaller_log_timeout = 400, leader_lease = 300\<rparr>,
      enable_leader_restore = True, quorum_loss_probe_interval = None\<rparr>"

text \<open>A follower of node 2 in term 1: entries 0 to 3 are in its log, 0 to 2 are committed.\<close>

abbreviation lid1 :: "nat \<Rightarrow> nat committed_leader_id log_id" where
  "lid1 i \<equiv> LogId (CommittedLeaderId 1) i"

definition sample_node_state :: "((nat, nat) leader_id_std, nat committed_leader_id, (nat, unit) weighted_membership) raft_state" where
  "sample_node_state =
     (raft_state_new std_ops weighted_ops 1)
       \<lparr>st_vote := leased_new 0 300 (vote_new_committed std_ops 1 2),
        st_log_ids := \<lparr>purged = None, key_log_ids = [lid1 3]\<rparr>,
        st_membership_state :=
          \<lparr>ms_committed = \<lparr>sm_log_id = Some (lid1 0), sm_membership = sample_weighted\<rparr>,
           ms_effective = \<lparr>sm_log_id = Some (lid1 0), sm_membership = sample_weighted\<rparr>\<rparr>,
        st_server_state := Follower,
        st_io_state := io_state_new (vote_new_committed std_ops 1 2) (Some (lid1 2)) None None\<rparr>"

definition sample_node ::
  "(nat, unit, (nat, nat) leader_id_std, nat committed_leader_id, (nat, unit) weighted_membership, string, unit, unit,
    nat weighted_quorum_set joint \<times> (nat, nat committed_leader_id) progress_entry list,
    nat weighted_quorum_set joint \<times> (nat \<times> send_stamp option) list,
    nat weighted_quorum_set joint list \<times> nat list) engine" where
  "sample_node = engine_new sample_node_state (sample_engine_config 1)"

text \<open>Node 3 replaces entry 3 in term 2 and adds entry 4.\<close>

definition sample_segment :: "(nat committed_leader_id, string, (nat, unit) weighted_membership) log_segment" where
  "sample_segment =
     \<lparr>seg_prev_log_id = Some (lid1 2),
      seg_entries = [\<lparr>ent_log_id = LogId (CommittedLeaderId 2) 3, ent_payload = Normal ''x''\<rparr>,
                     \<lparr>ent_log_id = LogId (CommittedLeaderId 2) 4, ent_payload = Normal ''y''\<rparr>]\<rparr>"

lemma sample_get: "log_get \<lparr>purged = None, key_log_ids = [lid1 3]\<rparr> 2 = Some (lid1 2)"
  by code_simp

lemma sample_inv: "node_inv std_ops (view sample_node)"
  using sample_get
  by (simp add: node_inv_def role_inv_def log_inv_def vote_clid_def sample_node_def engine_new_def sample_node_state_def
      log_wf_def local_committed_def io_state_new_def io_progress_new_def snapshot_last_log_id_def raft_state_new_def
      vote_ref_def leased_new_def vote_new_committed_def std_ops_def std_to_committed_def
      log_last_def first_index_def)

lemma sample_heard: "segment_heard std_ops sample_node (vote_new_committed std_ops 2 3) sample_segment"
  by code_simp

definition sample_next where
  "sample_next = the (handle_append_entries sample_tc 10 (vote_new_committed std_ops 2 3) sample_segment 7 sample_node)"

lemma sample_append:
  "handle_append_entries sample_tc 10 (vote_new_committed std_ops 2 3) sample_segment 7 sample_node = Some sample_next"
proof -
  have "handle_append_entries sample_tc 10 (vote_new_committed std_ops 2 3) sample_segment 7 sample_node \<noteq> None"
    by code_simp
  then show ?thesis by (simp add: sample_next_def)
qed

lemma sample_step: "engine_step sample_tc sample_node sample_next"
  using step_append[OF _ sample_append] sample_heard by simp

text \<open>
  The same node, once its lease is over, asks for votes in term 2, is granted them by itself and by
  node 2, leads, proposes an entry and hears from node 2 that it has the log.
\<close>

definition granted_by_all :: "((nat, nat) leader_id_std, nat committed_leader_id) vote_response" where
  "granted_by_all = vote_response_new (vote_new std_ops 2 1) (Some (lid1 3)) True"

definition sample_candidate where
  "sample_candidate = the (elect sample_tc (\<lambda>_ _. 200) 1000 sample_node)"

definition sample_half where
  "sample_half = the (handle_vote_resp sample_tc 1001 1 granted_by_all sample_candidate)"

definition sample_leader where
  "sample_leader = the (handle_vote_resp sample_tc 1002 2 granted_by_all sample_half)"

definition sample_proposed where
  "sample_proposed = the (map_option snd (leader_append_entries sample_tc [Normal ''z''] sample_leader))"

lemma sample_elect: "engine_step sample_tc sample_node sample_candidate"
proof (rule step_elect)
  have "elect sample_tc (\<lambda>_ _. 200) 1000 sample_node \<noteq> None" by code_simp
  then show "elect sample_tc (\<lambda>_ _. 200) 1000 sample_node = Some sample_candidate" by (simp add: sample_candidate_def)
qed

lemma sample_grant: "engine_step sample_tc sample_candidate sample_half"
proof (rule step_vote_resp)
  show "vote_heard (tc_lid sample_tc) sample_candidate (uncommitted_into_vote (to_non_committed (vp_vote granted_by_all)))"
    by code_simp
  have "handle_vote_resp sample_tc 1001 1 granted_by_all sample_candidate \<noteq> None" by code_simp
  then show "handle_vote_resp sample_tc 1001 1 granted_by_all sample_candidate = Some sample_half"
    by (simp add: sample_half_def)
qed

lemma sample_win: "engine_step sample_tc sample_half sample_leader"
proof (rule step_vote_resp)
  show "vote_heard (tc_lid sample_tc) sample_half (uncommitted_into_vote (to_non_committed (vp_vote granted_by_all)))"
    by code_simp
  have "handle_vote_resp sample_tc 1002 2 granted_by_all sample_half \<noteq> None" by code_simp
  then show "handle_vote_resp sample_tc 1002 2 granted_by_all sample_half = Some sample_leader"
    by (simp add: sample_leader_def)
qed

lemma sample_propose: "engine_step sample_tc sample_leader sample_proposed"
proof (rule step_propose)
  have "map_option snd (leader_append_entries sample_tc [Normal ''z''] sample_leader) \<noteq> None" by code_simp
  then show "leader_append_entries sample_tc [Normal ''z''] sample_leader =
      Some (fst (the (leader_append_entries sample_tc [Normal ''z''] sample_leader)), sample_proposed)"
    by (auto simp: sample_proposed_def)
qed

lemma sample_runs: "engine_run sample_tc sample_node sample_leader" "engine_run sample_tc sample_leader sample_proposed"
  using sample_elect sample_grant sample_win sample_propose by (auto intro: rtranclp.rtrancl_into_rtrancl)

lemma sample_leader_inv: "node_inv std_ops (view sample_leader)"
  using raft_leader_id.run_inv[OF sample_leader_ids engine_run_refines[OF sample_leader_ids sample_runs(1)]] sample_inv by simp

text \<open>A request for the vote of the follower, once its lease is over.\<close>

definition sample_vote_request :: "((nat, nat) leader_id_std, nat committed_leader_id) vote_request" where
  "sample_vote_request = vote_request_new (vote_new std_ops 2 3) (Some (lid1 3))"

lemma sample_granted:
  obtains resp e' where "handle_vote_req sample_tc 1000 sample_vote_request sample_node = Some (resp, e')" "vote_granted resp"
    "own_id e' = 1" "map_option (vote_granted \<circ> fst) (handle_vote_req sample_tc 1001 sample_vote_request e') = Some True"
proof -
  have "(case handle_vote_req sample_tc 1000 sample_vote_request sample_node of None \<Rightarrow> False
    | Some (resp, e') \<Rightarrow> vote_granted resp \<and> own_id e' = 1 \<and>
        map_option (vote_granted \<circ> fst) (handle_vote_req sample_tc 1001 sample_vote_request e') = Some True)"
    by code_simp
  then show ?thesis using that by (auto split: option.splits)
qed

lemma sample_request_foreign:
  "leader_node_id std_ops (vq_vote sample_vote_request) = 3" "own_id sample_node = 1"
  "\<not> v_committed (vq_vote sample_vote_request)"
  by code_simp+

end
