(* ===== verification/CoreQueues.thy ===== *)
theory CoreQueues
  imports Proposer BTree "HOL-Library.Product_Lexorder" "HOL-Library.Multiset"
begin

text \<open>
  The queues of the core task: responders of clients that wait for their log entries
  (\<open>core/client_responder_queue.rs\<close>), linearizable reads that wait for a quorum to acknowledge the
  leader (\<open>core/linearizable_read\<close>) and the balance between the two input channels
  (\<open>core/balancer.rs\<close>).  A response channel is a number that identifies it; what is sent to it is
  returned.
\<close>

section \<open>Responders\<close>

type_synonym 'r responder_queue = "(nat \<times> 'r) list"

definition responder_push :: "nat \<Rightarrow> 'r \<Rightarrow> 'r responder_queue \<Rightarrow> 'r responder_queue" where
  "responder_push index r q = q @ [(index, r)]"

text \<open>\<open>partition_point\<close> on a queue whose indexes ascend is the length of the prefix that satisfies it.\<close>

definition drain_upto :: "nat \<Rightarrow> 'r responder_queue \<Rightarrow> (nat \<times> 'r) list \<times> 'r responder_queue" where
  "drain_upto last_index q =
     (let end_pos = length (takeWhile (\<lambda>(index, _). index \<le> last_index) q) in (take end_pos q, drop end_pos q))"

definition drain_from :: "nat \<Rightarrow> 'r responder_queue \<Rightarrow> (nat \<times> 'r) list \<times> 'r responder_queue" where
  "drain_from from_index q =
     (let start_pos = (case binary_search_by_key fst q from_index of Inl pos \<Rightarrow> pos | Inr pos \<Rightarrow> pos)
      in (drop start_pos q, take start_pos q))"

definition responders_wf :: "'r responder_queue \<Rightarrow> bool" where
  "responders_wf q \<longleftrightarrow> sorted_wrt (<) (map fst q)"

lemma downward_split:
  assumes "sorted_wrt (\<lambda>x y. P y \<longrightarrow> P x) xs"
  shows "takeWhile P xs = filter P xs" "dropWhile P xs = filter (\<lambda>x. \<not> P x) xs"
    "take (length (takeWhile P xs)) xs = filter P xs" "drop (length (takeWhile P xs)) xs = filter (\<lambda>x. \<not> P x) xs"
proof -
  show tw: "takeWhile P xs = filter P xs" and dw: "dropWhile P xs = filter (\<lambda>x. \<not> P x) xs"
    using assms by (induction xs) (auto simp: filter_empty_conv filter_id_conv)
  show "take (length (takeWhile P xs)) xs = filter P xs" "drop (length (takeWhile P xs)) xs = filter (\<lambda>x. \<not> P x) xs"
    unfolding takeWhile_eq_take[symmetric] dropWhile_eq_drop[symmetric] by (fact tw dw)+
qed

lemma drain_upto_spec:
  assumes "responders_wf q"
  shows "drain_upto i q = (filter (\<lambda>x. fst x \<le> i) q, filter (\<lambda>x. i < fst x) q)"
proof -
  have "sorted_wrt (\<lambda>x y. fst y \<le> i \<longrightarrow> fst x \<le> i) q"
    using assms unfolding responders_wf_def sorted_wrt_map by (rule sorted_wrt_mono_rel[rotated]) simp
  from downward_split(3,4)[OF this] show ?thesis by (simp add: drain_upto_def Let_def case_prod_unfold not_le)
qed

lemma drain_from_spec:
  assumes "responders_wf q"
  shows "drain_from i q = (filter (\<lambda>x. i \<le> fst x) q, filter (\<lambda>x. fst x < i) q)"
proof -
  have "(case binary_search_by_key fst q i of Inl pos \<Rightarrow> pos | Inr pos \<Rightarrow> pos) = length (takeWhile (\<lambda>x. fst x < i) q)"
    by (simp add: binary_search_by_key_def Let_def)
  moreover have "sorted_wrt (\<lambda>x y. fst y < i \<longrightarrow> fst x < i) q"
    using assms unfolding responders_wf_def sorted_wrt_map by (rule sorted_wrt_mono_rel[rotated]) simp
  ultimately show ?thesis using downward_split(3,4)[of "\<lambda>x. fst x < i" q] by (simp add: drain_from_def Let_def not_less)
qed

lemma responders_wf_filter: "responders_wf q \<Longrightarrow> responders_wf (filter P q)"
  by (induction q) (auto simp: responders_wf_def)

section \<open>Pending reads\<close>

instantiation send_stamp :: linorder
begin

definition less_eq_send_stamp :: "send_stamp \<Rightarrow> send_stamp \<Rightarrow> bool" where
  "a \<le> b \<longleftrightarrow> stamp_le a b"

definition less_send_stamp :: "send_stamp \<Rightarrow> send_stamp \<Rightarrow> bool" where
  "a < b \<longleftrightarrow> stamp_le a b \<and> a \<noteq> b"

instance
proof
  fix a b c :: send_stamp
  show "a < b \<longleftrightarrow> a \<le> b \<and> \<not> b \<le> a"
    by (cases a; cases b) (auto simp: less_send_stamp_def less_eq_send_stamp_def stamp_le_def)
  show "a \<le> a" by (simp add: less_eq_send_stamp_def stamp_le_def)
  show "a \<le> b \<Longrightarrow> b \<le> c \<Longrightarrow> a \<le> c" by (auto simp: less_eq_send_stamp_def stamp_le_def)
  show "a \<le> b \<Longrightarrow> b \<le> a \<Longrightarrow> a = b"
    by (cases a; cases b) (auto simp: less_eq_send_stamp_def stamp_le_def)
  show "a \<le> b \<or> b \<le> a" by (auto simp: less_eq_send_stamp_def stamp_le_def)
qed

end

datatype forward_reason = NotLeader | LeadershipTransfer | LeaseExpired

record ('n, 'nd) forward_error =
  fw_leader_id :: "'n option"
  fw_leader_node :: "'nd option"
  fw_reason :: forward_reason

datatype ('n, 'nd) read_error = ReadForward "('n, 'nd) forward_error" | QuorumNotEnough "'n list"

record ('n, 'c) linearizer =
  lin_node_id :: 'n
  lin_read_log_id :: "'c log_id"
  lin_applied :: "'c log_id option"

record ('n, 'c) pending_read =
  pr_deadline :: nat
  pr_linearizer :: "('n, 'c) linearizer"
  pr_tx :: nat

type_synonym pending_read_key = "send_stamp \<times> nat"
type_synonym pending_read_deadline_key = "nat \<times> nat"
type_synonym ('n, 'nd, 'c) read_result = "nat \<times> (('n, 'nd) read_error + ('n, 'c) linearizer)"

record ('n, 'c) pending_read_queue =
  next_sequence :: nat
  pq_reads :: "(pending_read_key, ('n, 'c) pending_read) btree_map"
  pq_deadlines :: "(pending_read_deadline_key, pending_read_key) btree_map"

definition pending_read_queue_new :: "('n, 'c) pending_read_queue" where
  "pending_read_queue_new = \<lparr>next_sequence = 0, pq_reads = [], pq_deadlines = []\<rparr>"

text \<open>\<^const>\<open>None\<close> is the panic when the sequence overflows.\<close>

definition pending_read_push ::
  "send_stamp \<Rightarrow> ('n, 'c) pending_read \<Rightarrow> ('n, 'c) pending_read_queue \<Rightarrow> ('n, 'c) pending_read_queue option" where
  "pending_read_push min_quorum_acked_at pr q =
     (let sequence = next_sequence q; key = (min_quorum_acked_at, sequence)
      in case checked_add sequence 1 of
           None \<Rightarrow> None
         | Some s \<Rightarrow>
             Some (q\<lparr>next_sequence := s, pq_reads := bm_insert key pr (pq_reads q),
                     pq_deadlines := bm_insert (pr_deadline pr, sequence) key (pq_deadlines q)\<rparr>))"

text \<open>The loops pop the first entry of one index and remove its counterpart from the other.\<close>

fun drain_expired_loop ::
  "nat \<Rightarrow> (send_stamp \<Rightarrow> ('n, 'nd) read_error) \<Rightarrow> (pending_read_deadline_key, pending_read_key) btree_map \<Rightarrow>
   (pending_read_key, ('n, 'c) pending_read) btree_map \<Rightarrow>
   (('n, 'nd, 'c) read_result list \<times> (pending_read_deadline_key, pending_read_key) btree_map \<times>
    (pending_read_key, ('n, 'c) pending_read) btree_map) option" where
  "drain_expired_loop now make_error [] reads = Some ([], [], reads)"
| "drain_expired_loop now make_error ((deadline_key, key) # rest) reads =
     (if fst deadline_key > now then Some ([], (deadline_key, key) # rest, reads)
      else
        (case bm_get reads key of
           None \<Rightarrow> None
         | Some pr \<Rightarrow>
             map_option (\<lambda>(rs, st). ((pr_tx pr, Inl (make_error (fst key))) # rs, st))
               (drain_expired_loop now make_error rest (bm_remove key reads))))"

definition drain_expired ::
  "nat \<Rightarrow> (send_stamp \<Rightarrow> ('n, 'nd) read_error) \<Rightarrow> ('n, 'c) pending_read_queue \<Rightarrow>
   (('n, 'nd, 'c) read_result list \<times> ('n, 'c) pending_read_queue) option" where
  "drain_expired now make_error q =
     map_option (\<lambda>(rs, deadlines, reads). (rs, q\<lparr>pq_reads := reads, pq_deadlines := deadlines\<rparr>))
       (drain_expired_loop now make_error (pq_deadlines q) (pq_reads q))"

fun drain_satisfied_loop ::
  "send_stamp \<Rightarrow> 'c log_id option \<Rightarrow> (pending_read_key, ('n, 'c) pending_read) btree_map \<Rightarrow>
   (pending_read_deadline_key, pending_read_key) btree_map \<Rightarrow>
   (('n, 'nd, 'c) read_result list \<times> (pending_read_key, ('n, 'c) pending_read) btree_map \<times>
    (pending_read_deadline_key, pending_read_key) btree_map) option" where
  "drain_satisfied_loop acked_at app [] deadlines = Some ([], [], deadlines)"
| "drain_satisfied_loop acked_at app ((key, pr) # rest) deadlines =
     (if fst key \<ge> acked_at then Some ([], (key, pr) # rest, deadlines)
      else
        (case bm_get deadlines (pr_deadline pr, snd key) of
           None \<Rightarrow> None
         | Some _ \<Rightarrow>
             map_option (\<lambda>(rs, st). ((pr_tx pr, Inr ((pr_linearizer pr)\<lparr>lin_applied := app\<rparr>)) # rs, st))
               (drain_satisfied_loop acked_at app rest (bm_remove (pr_deadline pr, snd key) deadlines))))"

definition drain_satisfied ::
  "send_stamp \<Rightarrow> 'c log_id option \<Rightarrow> ('n, 'c) pending_read_queue \<Rightarrow>
   (('n, 'nd, 'c) read_result list \<times> ('n, 'c) pending_read_queue) option" where
  "drain_satisfied acked_at app q =
     map_option (\<lambda>(rs, reads, deadlines). (rs, q\<lparr>pq_reads := reads, pq_deadlines := deadlines\<rparr>))
       (drain_satisfied_loop acked_at app (pq_reads q) (pq_deadlines q))"

definition drain_all_with_error ::
  "('n, 'nd) read_error \<Rightarrow> ('n, 'c) pending_read_queue \<Rightarrow>
   ('n, 'nd, 'c) read_result list \<times> ('n, 'c) pending_read_queue" where
  "drain_all_with_error err q =
     (map (\<lambda>(_, pr). (pr_tx pr, Inl err)) (pq_reads q), q\<lparr>pq_deadlines := [], pq_reads := []\<rparr>)"

definition earliest_deadline :: "('n, 'c) pending_read_queue \<Rightarrow> nat option" where
  "earliest_deadline q = (case pq_deadlines q of [] \<Rightarrow> None | (deadline_key, _) # _ \<Rightarrow> Some (fst deadline_key))"

text \<open>The two indexes hold the same reads, and a sequence number is used once.\<close>

definition indexes_agree ::
  "(pending_read_key, ('n, 'c) pending_read) btree_map \<Rightarrow> (pending_read_deadline_key, pending_read_key) btree_map \<Rightarrow> bool" where
  "indexes_agree reads deadlines \<longleftrightarrow>
     bm_wf reads \<and> bm_wf deadlines \<and>
     (\<forall>dk key. bm_get deadlines dk = Some key \<longleftrightarrow>
        (\<exists>pr. bm_get reads key = Some pr \<and> dk = (pr_deadline pr, snd key)))"

definition pending_reads_wf :: "('n, 'c) pending_read_queue \<Rightarrow> bool" where
  "pending_reads_wf q \<longleftrightarrow>
     indexes_agree (pq_reads q) (pq_deadlines q) \<and>
     (\<forall>key. bm_get (pq_reads q) key \<noteq> None \<longrightarrow> snd key < next_sequence q)"

lemma pending_read_queue_new_wf: "pending_reads_wf pending_read_queue_new"
  by (simp add: pending_reads_wf_def indexes_agree_def pending_read_queue_new_def)

lemma agree_iff:
  "indexes_agree reads deadlines \<Longrightarrow>
   bm_get deadlines dk = Some key \<longleftrightarrow> (\<exists>pr. bm_get reads key = Some pr \<and> dk = (pr_deadline pr, snd key))"
  by (simp only: indexes_agree_def)

lemma agree_insert:
  assumes "indexes_agree reads deadlines" "\<And>stamp. bm_get reads (stamp, seq) = None"
  shows "indexes_agree (bm_insert (stamp, seq) pr reads) (bm_insert (pr_deadline pr, seq) (stamp, seq) deadlines)"
  using assms unfolding indexes_agree_def by (auto split: if_splits)

lemma agree_remove:
  assumes agree: "indexes_agree reads deadlines" and key: "bm_get reads key = Some pr"
  shows "indexes_agree (bm_remove key reads) (bm_remove (pr_deadline pr, snd key) deadlines)"
  unfolding indexes_agree_def
proof (intro conjI allI)
  show "bm_wf (bm_remove key reads)" "bm_wf (bm_remove (pr_deadline pr, snd key) deadlines)"
    using agree by (simp_all add: indexes_agree_def)
  fix dk key'
  have d0: "bm_get deadlines (pr_deadline pr, snd key) = Some key" using agree_iff[OF agree] key by blast
  show "bm_get (bm_remove (pr_deadline pr, snd key) deadlines) dk = Some key' \<longleftrightarrow>
    (\<exists>pr'. bm_get (bm_remove key reads) key' = Some pr' \<and> dk = (pr_deadline pr', snd key'))"
  proof (cases "dk = (pr_deadline pr, snd key)")
    case True
    then show ?thesis using d0 agree_iff[OF agree, of dk key'] by auto
  next
    case False
    then show ?thesis using key agree_iff[OF agree, of dk key'] by auto
  qed
qed

lemma pending_read_push_wf:
  assumes "pending_reads_wf q" "next_sequence q < u64_max"
  shows "\<exists>q'. pending_read_push stamp pr q = Some q' \<and> pending_reads_wf q' \<and> bm_get (pq_reads q') (stamp, next_sequence q) = Some pr"
proof -
  have fresh: "bm_get (pq_reads q) (s, next_sequence q) = None" for s
    using assms(1) by (force simp: pending_reads_wf_def)
  have agree: "indexes_agree (pq_reads q) (pq_deadlines q)" using assms(1) by (simp add: pending_reads_wf_def)
  then have wf: "bm_wf (pq_reads q)" by (simp add: indexes_agree_def)
  have "checked_add (next_sequence q) 1 = Some (Suc (next_sequence q))" using assms(2) by (simp add: checked_add_def u64_max_def)
  then show ?thesis
    using agree_insert[OF agree fresh, of stamp pr] wf assms(1)
    by (auto simp: pending_reads_wf_def pending_read_push_def Let_def less_Suc_eq)
qed

lemma bm_remove_head: "bm_wf ((k, v) # m) \<Longrightarrow> bm_remove k ((k, v) # m) = m"
  by (auto simp: bm_remove_def filter_id_conv)

lemma bm_get_iff: "bm_wf m \<Longrightarrow> bm_get m k = Some v \<longleftrightarrow> (k, v) \<in> set m"
  by (simp add: bm_get_def bm_wf_distinct)

lemma drain_expired_loop_spec:
  assumes "indexes_agree reads deadlines"
  shows "drain_expired_loop now mk deadlines reads =
    Some (map (\<lambda>(dk, key). (pr_tx (the (bm_get reads key)), Inl (mk (fst key)))) (filter (\<lambda>x. fst (fst x) \<le> now) deadlines),
          filter (\<lambda>x. now < fst (fst x)) deadlines, filter (\<lambda>x. now < pr_deadline (snd x)) reads)"
  using assms
proof (induction deadlines arbitrary: reads)
  case Nil
  have "bm_get reads key = None" for key
    using agree_iff[OF Nil.prems, of "(pr_deadline (the (bm_get reads key)), snd key)" key] by (cases "bm_get reads key") auto
  then have "map_of reads = Map.empty" by (simp add: bm_get_def fun_eq_iff)
  then have "reads = []" by simp
  then show ?case by simp
next
  case (Cons x rest)
  obtain dk key where x: "x = (dk, key)" by (rule prod.exhaust)
  have wf: "bm_wf reads" "bm_wf ((dk, key) # rest)" using Cons.prems x by (simp_all add: indexes_agree_def)
  obtain pr where pr: "bm_get reads key = Some pr" "dk = (pr_deadline pr, snd key)"
  proof -
    have "bm_get ((dk, key) # rest) dk = Some key" by (simp add: bm_get_def)
    then show ?thesis using that agree_iff[OF Cons.prems[unfolded x], of dk key] by blast
  qed
  show ?case
  proof (cases "now < fst dk")
    case True
    have later: "now < fst (fst y)" if "y \<in> set rest" for y
    proof -
      have "dk < fst y" using wf(2) that by simp
      then have "fst dk \<le> fst (fst y)" by (auto simp: less_prod_def)
      then show ?thesis using True by simp
    qed
    have "now < pr_deadline (snd y)" if "y \<in> set reads" for y
    proof -
      have "bm_get reads (fst y) = Some (snd y)" using bm_get_iff[OF wf(1)] that by simp
      then have "bm_get ((dk, key) # rest) (pr_deadline (snd y), snd (fst y)) = Some (fst y)"
        using agree_iff[OF Cons.prems[unfolded x]] by blast
      then have "((pr_deadline (snd y), snd (fst y)), fst y) \<in> set ((dk, key) # rest)"
        using bm_get_iff[OF wf(2)] by blast
      then show ?thesis using True later[of "((pr_deadline (snd y), snd (fst y)), fst y)"] by auto
    qed
    then have "filter (\<lambda>y. now < pr_deadline (snd y)) reads = reads" by (simp add: filter_id_conv)
    moreover have "filter (\<lambda>y. now < fst (fst y)) rest = rest" "filter (\<lambda>y. fst (fst y) \<le> now) rest = []"
      using later by (simp_all add: filter_id_conv filter_empty_conv not_le)
    ultimately show ?thesis using True x by (simp add: not_le)
  next
    case False
    let ?reads = "bm_remove key reads"
    have "indexes_agree ?reads rest"
      using agree_remove[OF Cons.prems pr(1)] bm_remove_head[OF wf(2)] pr(2) x by simp
    note IH = Cons.IH[OF this]
    have "bm_get ?reads (snd y) = bm_get reads (snd y)" if "y \<in> set rest" for y
    proof -
      have "bm_get ((dk, key) # rest) (fst y) = Some (snd y)" using bm_get_iff[OF wf(2)] that by simp
      then obtain pr' where "bm_get reads (snd y) = Some pr'" "fst y = (pr_deadline pr', snd (snd y))"
        using agree_iff[OF Cons.prems[unfolded x]] by blast
      moreover have "dk < fst y" using wf(2) that by simp
      ultimately have "snd y \<noteq> key" using pr by auto
      then show ?thesis by simp
    qed
    moreover have "filter (\<lambda>y. now < pr_deadline (snd y)) ?reads = filter (\<lambda>y. now < pr_deadline (snd y)) reads"
    proof -
      have "snd y = pr" if "y \<in> set reads" "fst y = key" for y
        using bm_get_iff[OF wf(1), of key "snd y"] that pr(1) by (metis option.inject prod.collapse)
      then show ?thesis using False pr(2) by (auto simp: bm_remove_def intro!: filter_cong)
    qed
    moreover from calculation(1)
    have "map (\<lambda>y. (pr_tx (the (bm_get ?reads (snd y))), Inl (mk (fst (snd y))))) (filter (\<lambda>y. fst (fst y) \<le> now) rest) =
      map (\<lambda>y. (pr_tx (the (bm_get reads (snd y))), Inl (mk (fst (snd y))))) (filter (\<lambda>y. fst (fst y) \<le> now) rest)"
      by (intro map_cong) simp_all
    ultimately show ?thesis
      using False pr(1) unfolding x by (simp add: IH not_less case_prod_unfold)
  qed
qed

lemma drain_satisfied_loop_spec:
  assumes "indexes_agree reads deadlines"
  shows "drain_satisfied_loop acked app reads deadlines =
    Some (map (\<lambda>(key, pr). (pr_tx pr, Inr ((pr_linearizer pr)\<lparr>lin_applied := app\<rparr>))) (filter (\<lambda>x. fst (fst x) < acked) reads),
          filter (\<lambda>x. acked \<le> fst (fst x)) reads, filter (\<lambda>x. acked \<le> fst (snd x)) deadlines)"
  using assms
proof (induction reads arbitrary: deadlines)
  case Nil
  have "bm_get deadlines dk = None" for dk
    using agree_iff[OF Nil.prems, of dk "the (bm_get deadlines dk)"] by (cases "bm_get deadlines dk") auto
  then have "map_of deadlines = Map.empty" by (simp add: bm_get_def fun_eq_iff)
  then show ?case by simp
next
  case (Cons x rest)
  obtain key pr where x: "x = (key, pr)" by (rule prod.exhaust)
  let ?reads = "(key, pr) # rest"
  note agree = Cons.prems[unfolded x]
  have wf: "bm_wf ?reads" "bm_wf deadlines" using agree by (simp_all add: indexes_agree_def)
  have key: "bm_get ?reads key = Some pr" by (simp add: bm_get_def)
  then have d0: "bm_get deadlines (pr_deadline pr, snd key) = Some key" using agree_iff[OF agree] by blast
  show ?case
  proof (cases "acked \<le> fst key")
    case True
    have later: "acked \<le> fst (fst y)" if "y \<in> set ?reads" for y
    proof (cases "y = (key, pr)")
      case False
      then have "key < fst y" using wf(1) that by auto
      then have "fst key \<le> fst (fst y)" by (auto simp: less_prod_def)
      then show ?thesis using True by simp
    qed (simp add: True)
    have "acked \<le> fst (snd y)" if "y \<in> set deadlines" for y
    proof -
      have "bm_get deadlines (fst y) = Some (snd y)" using bm_get_iff[OF wf(2)] that by simp
      then obtain pr' where "bm_get ?reads (snd y) = Some pr'" using agree_iff[OF agree] by blast
      then show ?thesis using later[of "(snd y, pr')"] bm_get_iff[OF wf(1), of "snd y" pr'] by simp
    qed
    then have "filter (\<lambda>y. acked \<le> fst (snd y)) deadlines = deadlines" by (simp add: filter_id_conv)
    moreover have "filter (\<lambda>y. acked \<le> fst (fst y)) ?reads = ?reads" "filter (\<lambda>y. fst (fst y) < acked) ?reads = []"
      using later by (simp_all only: filter_id_conv filter_empty_conv not_less) blast+
    ultimately show ?thesis using True unfolding x by simp
  next
    case False
    let ?deadlines = "bm_remove (pr_deadline pr, snd key) deadlines"
    have "indexes_agree rest ?deadlines"
      using agree_remove[OF agree key] bm_remove_head[OF wf(1)] by simp
    note IH = Cons.IH[OF this]
    have "filter (\<lambda>y. acked \<le> fst (snd y)) ?deadlines = filter (\<lambda>y. acked \<le> fst (snd y)) deadlines"
    proof -
      have "snd y = key" if "y \<in> set deadlines" "fst y = (pr_deadline pr, snd key)" for y
        using bm_get_iff[OF wf(2), of "(pr_deadline pr, snd key)" "snd y"] that d0 by (metis option.inject prod.collapse)
      then show ?thesis
        unfolding bm_remove_def filter_filter case_prod_unfold using False by (intro filter_cong refl) metis
    qed
    then show ?thesis using False d0 unfolding x by (simp add: IH not_le case_prod_unfold)
  qed
qed

lemma agree_filter:
  assumes agree: "indexes_agree reads deadlines"
    and PQ: "\<And>key pr. P (key, pr) \<longleftrightarrow> Q ((pr_deadline pr, snd key), key)"
  shows "indexes_agree (filter P reads) (filter Q deadlines)"
proof -
  have wf: "bm_wf reads" "bm_wf deadlines" using agree by (simp_all add: indexes_agree_def)
  show ?thesis
    unfolding indexes_agree_def
  proof (intro conjI allI)
    show "bm_wf (filter P reads)" "bm_wf (filter Q deadlines)" using wf by (simp_all add: bm_filter_wf)
    fix dk key
    show "bm_get (filter Q deadlines) dk = Some key \<longleftrightarrow>
      (\<exists>pr. bm_get (filter P reads) key = Some pr \<and> dk = (pr_deadline pr, snd key))"
      using agree_iff[OF agree, of dk key] PQ
      by (auto simp: bm_get_iff[OF bm_filter_wf] bm_get_iff wf)
  qed
qed

lemma bm_get_filter: "bm_wf m \<Longrightarrow> bm_get (filter P m) k \<noteq> None \<Longrightarrow> bm_get m k \<noteq> None"
  by (auto simp: bm_get_iff[OF bm_filter_wf] bm_get_iff)

lemma agree_keys:
  assumes agree: "indexes_agree reads deadlines"
  shows "mset (map snd deadlines) = mset (map fst reads)"
proof -
  have wf: "bm_wf reads" "bm_wf deadlines" using agree by (simp_all add: indexes_agree_def)
  have in_iff: "(dk, key) \<in> set deadlines \<longleftrightarrow> (\<exists>pr. (key, pr) \<in> set reads \<and> dk = (pr_deadline pr, snd key))" for dk key
    using agree_iff[OF agree, of dk key] by (simp add: bm_get_iff wf)
  have "inj_on snd (set deadlines)"
  proof (rule inj_onI)
    fix x y assume xy: "x \<in> set deadlines" "y \<in> set deadlines" "snd x = snd y"
    have "(fst x, snd x) \<in> set deadlines" "(fst y, snd x) \<in> set deadlines"
      using xy by (metis prod.collapse)+
    then obtain p p' where "(snd x, p) \<in> set reads" "fst x = (pr_deadline p, snd (snd x))"
      "(snd x, p') \<in> set reads" "fst y = (pr_deadline p', snd (snd x))"
      unfolding in_iff by blast
    moreover from this have "p = p'" using eq_key_imp_eq_value[OF bm_wf_distinct[OF wf(1)]] by blast
    ultimately show "x = y" using xy(3) by (simp add: prod_eq_iff)
  qed
  then have "distinct (map snd deadlines)" using bm_wf_distinct[OF wf(2)] by (simp add: distinct_map)
  moreover have "snd ` set deadlines = fst ` set reads"
  proof (rule set_eqI)
    fix key
    have "key \<in> snd ` set deadlines \<longleftrightarrow> (\<exists>dk. (dk, key) \<in> set deadlines)"
      "key \<in> fst ` set reads \<longleftrightarrow> (\<exists>pr. (key, pr) \<in> set reads)" by (force intro: rev_image_eqI)+
    then show "key \<in> snd ` set deadlines \<longleftrightarrow> key \<in> fst ` set reads" using in_iff[of _ key] by blast
  qed
  ultimately show ?thesis
    using bm_wf_distinct[OF wf(1)] set_eq_iff_mset_eq_distinct[of "map snd deadlines" "map fst reads"] by simp
qed

text \<open>Every read whose deadline is over is answered once, with the error for its own threshold.\<close>

lemma pending_reads_wf_filter:
  assumes "pending_reads_wf q" "\<And>key pr. P (key, pr) \<longleftrightarrow> Q ((pr_deadline pr, snd key), key)"
  shows "pending_reads_wf (q\<lparr>pq_reads := filter P (pq_reads q), pq_deadlines := filter Q (pq_deadlines q)\<rparr>)"
proof -
  have "indexes_agree (pq_reads q) (pq_deadlines q)" and wf: "bm_wf (pq_reads q)"
    using assms(1) by (simp_all add: pending_reads_wf_def indexes_agree_def)
  then have "indexes_agree (filter P (pq_reads q)) (filter Q (pq_deadlines q))" using agree_filter assms(2) by blast
  moreover have "snd key < next_sequence q" if "bm_get (filter P (pq_reads q)) key \<noteq> None" for key
    using bm_get_filter[OF wf that] assms(1) unfolding pending_reads_wf_def by blast
  ultimately show ?thesis by (simp add: pending_reads_wf_def)
qed

lemma drain_expired_spec:
  assumes "pending_reads_wf q"
  shows "\<exists>rs q'. drain_expired now mk q = Some (rs, q') \<and> pending_reads_wf q' \<and>
    pq_reads q' = filter (\<lambda>x. now < pr_deadline (snd x)) (pq_reads q) \<and>
    mset rs = mset (map (\<lambda>x. (pr_tx (snd x), Inl (mk (fst (fst x))))) (filter (\<lambda>x. pr_deadline (snd x) \<le> now) (pq_reads q)))"
proof -
  let ?R = "pq_reads q" and ?D = "pq_deadlines q"
  let ?answer = "\<lambda>key. (pr_tx (the (bm_get ?R key)), Inl (mk (fst key)))"
  have agree: "indexes_agree ?R ?D" and wf: "bm_wf ?R" using assms by (simp_all add: pending_reads_wf_def indexes_agree_def)
  have keys: "mset (map snd (filter (\<lambda>x. fst (fst x) \<le> now) ?D)) = mset (map fst (filter (\<lambda>x. pr_deadline (snd x) \<le> now) ?R))"
    by (rule agree_keys[OF agree_filter[OF agree]]) simp
  have "mset (map (\<lambda>(dk, key). ?answer key) (filter (\<lambda>x. fst (fst x) \<le> now) ?D)) =
      image_mset ?answer (mset (map snd (filter (\<lambda>x. fst (fst x) \<le> now) ?D)))"
    by (simp add: case_prod_unfold image_mset.compositionality comp_def)
  also have "\<dots> = mset (map (?answer \<circ> fst) (filter (\<lambda>x. pr_deadline (snd x) \<le> now) ?R))"
    unfolding keys by (simp add: image_mset.compositionality)
  also have "map (?answer \<circ> fst) (filter (\<lambda>x. pr_deadline (snd x) \<le> now) ?R) =
      map (\<lambda>x. (pr_tx (snd x), Inl (mk (fst (fst x))))) (filter (\<lambda>x. pr_deadline (snd x) \<le> now) ?R)"
  proof (intro map_cong refl)
    fix x assume "x \<in> set (filter (\<lambda>x. pr_deadline (snd x) \<le> now) ?R)"
    then have "bm_get ?R (fst x) = Some (snd x)" using bm_get_iff[OF wf] by simp
    then show "(?answer \<circ> fst) x = (pr_tx (snd x), Inl (mk (fst (fst x))))" by simp
  qed
  finally show ?thesis
    using pending_reads_wf_filter[OF assms, of "\<lambda>x. now < pr_deadline (snd x)" "\<lambda>x. now < fst (fst x)"]
    by (simp add: drain_expired_def drain_expired_loop_spec[OF agree])
qed

lemma drain_satisfied_spec:
  assumes "pending_reads_wf q"
  shows "\<exists>q'. drain_satisfied acked app q =
      Some (map (\<lambda>x. (pr_tx (snd x), Inr ((pr_linearizer (snd x))\<lparr>lin_applied := app\<rparr>))) (filter (\<lambda>x. fst (fst x) < acked) (pq_reads q)), q') \<and>
    pending_reads_wf q' \<and> pq_reads q' = filter (\<lambda>x. acked \<le> fst (fst x)) (pq_reads q)"
proof -
  have agree: "indexes_agree (pq_reads q) (pq_deadlines q)" using assms by (simp add: pending_reads_wf_def)
  show ?thesis
    using pending_reads_wf_filter[OF assms, of "\<lambda>x. acked \<le> fst (fst x)" "\<lambda>x. acked \<le> fst (snd x)"]
    by (simp add: drain_satisfied_def drain_satisfied_loop_spec[OF agree] case_prod_unfold)
qed

lemma drain_all_with_error_wf: "pending_reads_wf q \<Longrightarrow> pending_reads_wf (snd (drain_all_with_error err q))"
  by (simp add: drain_all_with_error_def pending_reads_wf_def indexes_agree_def)

text \<open>The timer is set to the deadline of the read that times out first.\<close>

lemma earliest_deadline_spec:
  assumes "pending_reads_wf q"
  shows "case earliest_deadline q of
      None \<Rightarrow> pq_reads q = []
    | Some d \<Rightarrow> (\<exists>x \<in> set (pq_reads q). pr_deadline (snd x) = d) \<and> (\<forall>x \<in> set (pq_reads q). d \<le> pr_deadline (snd x))"
proof -
  have agree: "indexes_agree (pq_reads q) (pq_deadlines q)" using assms by (simp only: pending_reads_wf_def)
  have wf: "bm_wf (pq_reads q)" "bm_wf (pq_deadlines q)" using agree by (simp_all only: indexes_agree_def)
  show ?thesis
  proof (cases "pq_deadlines q")
    case Nil
    have "length (pq_deadlines q) = length (pq_reads q)" using arg_cong[OF agree_keys[OF agree], of size] by simp
    then have "pq_reads q = []" unfolding Nil by simp
    then show ?thesis unfolding earliest_deadline_def Nil by simp
  next
    case (Cons x rest)
    have "(fst x, snd x) \<in> set (pq_deadlines q)" using Cons by simp
    then obtain pr where "(snd x, pr) \<in> set (pq_reads q)" "fst x = (pr_deadline pr, snd (snd x))"
      using agree_iff[OF agree, of "fst x" "snd x"] by (auto simp: bm_get_iff wf)
    then have "\<exists>y \<in> set (pq_reads q). pr_deadline (snd y) = fst (fst x)" by force
    moreover have "fst (fst x) \<le> pr_deadline (snd y)" if "y \<in> set (pq_reads q)" for y
    proof -
      have "bm_get (pq_reads q) (fst y) = Some (snd y)" using that by (simp add: bm_get_iff wf)
      then have "bm_get (pq_deadlines q) (pr_deadline (snd y), snd (fst y)) = Some (fst y)"
        using agree_iff[OF agree] by blast
      then have "((pr_deadline (snd y), snd (fst y)), fst y) \<in> set (x # rest)"
        using bm_get_iff[OF wf(2)] Cons by metis
      moreover have "fst x < fst z" if "z \<in> set rest" for z
        using wf(2) that bm_wf_simps(2)[of "fst x" "snd x" rest] unfolding Cons by simp
      ultimately have "fst x = (pr_deadline (snd y), snd (fst y)) \<or> fst x < (pr_deadline (snd y), snd (fst y))"
        unfolding set_simps insert_iff by (metis fst_conv)
      then have "fst x \<le> (pr_deadline (snd y), snd (fst y))" by (rule disjE) simp_all
      then show ?thesis by (auto simp: less_eq_prod_def)
    qed
    ultimately show ?thesis unfolding earliest_deadline_def Cons by (simp add: case_prod_unfold)
  qed
qed

section \<open>Options of a read\<close>

text \<open>Durations are nanoseconds.\<close>

record linearizer_option =
  max_quorum_ack_age :: "nat option"
  heartbeat_if_quorum_ack_stale :: bool
  wait_timeout :: "nat option"

definition effective_max_quorum_ack_age :: "linearizer_option \<Rightarrow> nat \<Rightarrow> nat" where
  "effective_max_quorum_ack_age opt ls =
     (let requested_age = (case max_quorum_ack_age opt of None \<Rightarrow> ls | Some age \<Rightarrow> age) in min requested_age ls)"

definition effective_wait_timeout :: "linearizer_option \<Rightarrow> nat \<Rightarrow> nat" where
  "effective_wait_timeout opt ls = (case wait_timeout opt of None \<Rightarrow> ls | Some t \<Rightarrow> t)"

datatype read_policy = ReadIndex | LeaseRead

definition from_read_policy :: "read_policy \<Rightarrow> linearizer_option" where
  "from_read_policy p =
     (case p of
        LeaseRead \<Rightarrow> \<lparr>max_quorum_ack_age = None, heartbeat_if_quorum_ack_stale = False, wait_timeout = Some 0\<rparr>
      | ReadIndex \<Rightarrow> \<lparr>max_quorum_ack_age = Some 0, heartbeat_if_quorum_ack_stale = True, wait_timeout = None\<rparr>)"

lemma effective_age_le: "effective_max_quorum_ack_age opt ls \<le> ls"
  by (simp add: effective_max_quorum_ack_age_def Let_def)

section \<open>Budgets\<close>

text \<open>How many messages of each kind one round of the loop handles.\<close>

record balancer =
  bal_total :: nat
  bal_raft_msg :: nat

definition balancer_new :: "nat \<Rightarrow> balancer" where
  "balancer_new tot = \<lparr>bal_total = tot, bal_raft_msg = tot div 10\<rparr>"

definition bal_notification :: "balancer \<Rightarrow> nat" where
  "bal_notification b = bal_total b - bal_raft_msg b"

definition increase_notification :: "balancer \<Rightarrow> balancer" where
  "increase_notification b =
     (let r = bal_raft_msg b * 15 div 16 in b\<lparr>bal_raft_msg := if r = 0 then 1 else r\<rparr>)"

definition increase_raft_msg :: "balancer \<Rightarrow> balancer" where
  "increase_raft_msg b =
     (let r = bal_raft_msg b * 17 div 16
      in b\<lparr>bal_raft_msg := if r > bal_total b div 2 then bal_total b div 2 else r\<rparr>)"

text \<open>The adjustments of a run, in the order the loop makes them.\<close>

inductive balancer_run :: "balancer \<Rightarrow> balancer \<Rightarrow> bool" where
  run_start: "balancer_run b b"
| run_notification: "balancer_run b b' \<Longrightarrow> balancer_run b (increase_notification b')"
| run_raft_msg: "balancer_run b b' \<Longrightarrow> balancer_run b (increase_raft_msg b')"

definition budgets_ok :: "balancer \<Rightarrow> bool" where
  "budgets_ok b \<longleftrightarrow> 0 < bal_raft_msg b \<and> bal_raft_msg b \<le> bal_total b div 2"

lemma balancer_new_ok: "10 \<le> tot \<Longrightarrow> budgets_ok (balancer_new tot)"
  by (simp add: budgets_ok_def balancer_new_def div_greater_zero_iff div_le_mono2)

lemma increase_notification_ok: "budgets_ok b \<Longrightarrow> budgets_ok (increase_notification b)"
  by (auto simp: budgets_ok_def increase_notification_def Let_def)

lemma increase_raft_msg_ok: "budgets_ok b \<Longrightarrow> budgets_ok (increase_raft_msg b)"
  by (auto simp: budgets_ok_def increase_raft_msg_def Let_def)

lemma increase_total [simp]:
  "bal_total (increase_notification b) = bal_total b" "bal_total (increase_raft_msg b) = bal_total b"
  by (simp_all add: increase_notification_def increase_raft_msg_def Let_def)

lemma balancer_run_ok: "balancer_run b b' \<Longrightarrow> budgets_ok b \<Longrightarrow> budgets_ok b' \<and> bal_total b' = bal_total b"
  by (induction rule: balancer_run.induct) (auto intro: increase_notification_ok increase_raft_msg_ok)

text \<open>Below sixteen, the increment of a sixteenth rounds to nothing, so the budget never grows again.\<close>

lemma increase_raft_msg_stuck: "bal_raft_msg b < 16 \<Longrightarrow> bal_raft_msg (increase_raft_msg b) \<le> bal_raft_msg b"
  by (auto simp: increase_raft_msg_def Let_def)

lemma increase_notification_le: "0 < bal_raft_msg b \<Longrightarrow> bal_raft_msg (increase_notification b) \<le> bal_raft_msg b"
  by (auto simp: increase_notification_def Let_def)

lemma balancer_run_stuck:
  "balancer_run b b' \<Longrightarrow> budgets_ok b \<Longrightarrow> bal_raft_msg b < 16 \<Longrightarrow> bal_raft_msg b' \<le> bal_raft_msg b"
proof (induction rule: balancer_run.induct)
  case (run_notification b b')
  then show ?case using balancer_run_ok[of b b'] increase_notification_le[of b'] by (simp add: budgets_ok_def)
next
  case (run_raft_msg b b')
  then show ?case using increase_raft_msg_stuck[of b'] by simp
qed simp

end
