(* ===== verification/Config.thy ===== *)
theory Config
  imports Handlers
begin

text \<open>
  The configuration of a node (\<open>config/config.rs\<close>): the fields that the consensus code reads, their
  validation, the policy for snapshots and the configuration of the engine derived from it.  Times
  are milliseconds here.  Sums and products of \<open>u64\<close> wrap, as in a release build.  The syntax of the
  back-off policy belongs to a third-party package: \<open>parse_backoff\<close> gives its error.
\<close>

datatype snapshot_policy = LogsSinceLast nat | NeverSnapshot

record raft_config =
  cf_election_timeout_min :: nat
  cf_election_timeout_max :: nat
  heartbeat_interval :: nat
  cf_heartbeat_min_interval :: "nat option"
  cf_max_payload_entries :: nat
  cf_max_append_entries :: "nat option"
  snapshot_policy_of :: snapshot_policy
  cf_max_in_snapshot_log_to_keep :: nat
  cf_purge_batch_size :: nat
  api_batch_capacity :: nat
  cf_broadcast_submitted_on_append :: "bool option"
  cf_enable_heartbeat :: bool
  cf_enable_elect :: bool
  cf_enable_local_lease_read :: "bool option"
  cf_quorum_loss_probe_interval :: "nat option"
  cf_enable_pre_vote :: "bool option"
  cf_backoff :: string
  cf_reset_backoff_on_transfer_leader :: "bool option"
  cf_allow_log_reversion :: "bool option"
  cf_enable_leader_restore :: "bool option"

datatype config_error =
    ElectionTimeout nat nat
  | MaxPayloadIs0
  | ElectionTimeoutLTHeartBeat nat nat
  | HeartbeatMinIntervalTooLarge nat nat nat
  | QuorumLossProbeIntervalTooSmall nat nat
  | InvalidBackoff string

definition unwrap_or :: "'a \<Rightarrow> 'a option \<Rightarrow> 'a" where
  "unwrap_or d x = (case x of None \<Rightarrow> d | Some v \<Rightarrow> v)"

definition config_default :: raft_config where
  "config_default =
     \<lparr>cf_election_timeout_min = 150, cf_election_timeout_max = 300, heartbeat_interval = 50,
      cf_heartbeat_min_interval = Some 0, cf_max_payload_entries = 300, cf_max_append_entries = Some 4096,
      snapshot_policy_of = LogsSinceLast 5000, cf_max_in_snapshot_log_to_keep = 1000, cf_purge_batch_size = 1,
      api_batch_capacity = 4096,
      cf_broadcast_submitted_on_append = None, cf_enable_heartbeat = True, cf_enable_elect = True,
      cf_enable_local_lease_read = None, cf_quorum_loss_probe_interval = None, cf_enable_pre_vote = None,
      cf_backoff = ''200ms'', cf_reset_backoff_on_transfer_leader = None, cf_allow_log_reversion = None,
      cf_enable_leader_restore = None\<rparr>"

definition tick_interval :: "raft_config \<Rightarrow> nat" where
  "tick_interval c = max (heartbeat_interval c * 13 mod 2 ^ 64 div 64) 1"

definition config_validate :: "(string \<Rightarrow> string option) \<Rightarrow> raft_config \<Rightarrow> config_error + raft_config" where
  "config_validate parse_backoff c =
     (let min_interval = unwrap_or 0 (cf_heartbeat_min_interval c);
          suppression_enabled = (min_interval > 0);
          max_heartbeat_gap = wrapping_add (wrapping_add min_interval (heartbeat_interval c)) (tick_interval c)
      in if cf_election_timeout_min c \<ge> cf_election_timeout_max c
         then Inl (ElectionTimeout (cf_election_timeout_min c) (cf_election_timeout_max c))
         else if cf_election_timeout_min c \<le> heartbeat_interval c
         then Inl (ElectionTimeoutLTHeartBeat (cf_election_timeout_min c) (heartbeat_interval c))
         else if suppression_enabled \<and> cf_election_timeout_min c \<le> max_heartbeat_gap
         then Inl (HeartbeatMinIntervalTooLarge (cf_election_timeout_min c) (heartbeat_interval c) min_interval)
         else if cf_max_payload_entries c = 0 then Inl MaxPayloadIs0
         else
           (case cf_quorum_loss_probe_interval c of
              Some probe_interval \<Rightarrow>
                if probe_interval < cf_election_timeout_max c + cf_election_timeout_max c
                then Inl (QuorumLossProbeIntervalTooSmall (cf_election_timeout_max c) probe_interval)
                else (case parse_backoff (cf_backoff c) of Some e \<Rightarrow> Inl (InvalidBackoff e) | None \<Rightarrow> Inr c)
            | None \<Rightarrow> (case parse_backoff (cf_backoff c) of Some e \<Rightarrow> Inl (InvalidBackoff e) | None \<Rightarrow> Inr c)))"

definition should_snapshot ::
  "snapshot_policy \<Rightarrow> ('l, 'c::linorder, 'm) raft_state \<Rightarrow> 'c log_id option \<Rightarrow> 'c log_id option" where
  "should_snapshot policy s last_tried_at =
     (case policy of
        LogsSinceLast threshold \<Rightarrow>
          (let committed_next = next_index (local_committed s);
               base_log_id = max last_tried_at (snapshot_last_log_id s)
           in if committed_next \<ge> saturating_add (next_index base_log_id) threshold then local_committed s else None)
      | NeverSnapshot \<Rightarrow> None)"

definition engine_config_new :: "(nat \<Rightarrow> nat \<Rightarrow> nat) \<Rightarrow> 'n \<Rightarrow> raft_config \<Rightarrow> 'n engine_config" where
  "engine_config_new random_range nid c =
     resample_election_timeout random_range
       \<lparr>ec_id = nid, max_in_snapshot_log_to_keep = cf_max_in_snapshot_log_to_keep c,
        purge_batch_size = cf_purge_batch_size c, max_payload_entries = cf_max_payload_entries c,
        ec_allow_log_reversion = unwrap_or False (cf_allow_log_reversion c),
        election_timeout_min = cf_election_timeout_min c, election_timeout_max = cf_election_timeout_max c,
        timer_config = \<lparr>election_timeout = 0, smaller_log_timeout = from_millis (cf_election_timeout_max c * 2 mod 2 ^ 64),
                        leader_lease = from_millis (cf_election_timeout_max c)\<rparr>,
        enable_leader_restore = unwrap_or True (cf_enable_leader_restore c),
        quorum_loss_probe_interval = map_option from_millis (cf_quorum_loss_probe_interval c)\<rparr>"

lemma config_validate_Inr:
  assumes "config_validate p c = Inr c'"
  shows "c' = c" "cf_election_timeout_min c < cf_election_timeout_max c" "heartbeat_interval c < cf_election_timeout_min c"
    "0 < cf_max_payload_entries c"
    "\<And>i. cf_quorum_loss_probe_interval c = Some i \<Longrightarrow> 2 * cf_election_timeout_max c \<le> i"
    "0 < unwrap_or 0 (cf_heartbeat_min_interval c) \<Longrightarrow>
      wrapping_add (wrapping_add (unwrap_or 0 (cf_heartbeat_min_interval c)) (heartbeat_interval c)) (tick_interval c)
        < cf_election_timeout_min c"
  using assms by (auto simp: config_validate_def Let_def split: if_splits option.splits)

text \<open>The default configuration is valid as long as its back-off policy parses.\<close>

lemma config_default_valid: "p ''200ms'' = None \<Longrightarrow> config_validate p config_default = Inr config_default"
  by (simp add: config_validate_def config_default_def unwrap_or_def)

text \<open>
  A configuration that passes the check gives an engine whose probes never divide by zero and whose
  timeouts are in order, unless doubling the longest election timeout overflows.
\<close>

lemma engine_config_probe:
  assumes ok: "config_validate p c = Inr c'" and i: "quorum_loss_probe_interval (engine_config_new rr nid c) = Some i"
  shows "0 < i"
proof -
  obtain j where "cf_quorum_loss_probe_interval c = Some j" "i = from_millis j"
    using i by (auto simp: engine_config_new_def resample_election_timeout_def Let_def)
  then show ?thesis
    using config_validate_Inr(2,5)[OF ok] by (fastforce simp: from_millis_def)
qed

lemma engine_config_timers:
  fixes nid :: 'n
  assumes ok: "config_validate p c = Inr c'" and fits: "cf_election_timeout_max c < 2 ^ 63"
    and rr: "rr (cf_election_timeout_min c) (cf_election_timeout_max c) \<in> {cf_election_timeout_min c ..< cf_election_timeout_max c}"
  defines "t \<equiv> timer_config (engine_config_new rr nid c)"
  shows "from_millis (heartbeat_interval c) < election_timeout t" "election_timeout t < leader_lease t"
    "leader_lease t < smaller_log_timeout t"
  using config_validate_Inr(2,3)[OF ok] fits rr
  unfolding t_def by (auto simp: engine_config_new_def resample_election_timeout_def Let_def from_millis_def)

lemma heartbeat_never_panics:
  assumes ok: "config_validate p c = Inr c'" and e: "quorum_loss_probe_interval (en_config e) = quorum_loss_probe_interval (engine_config_new rr nid c)"
  shows "heartbeat_is_allowed C now ld e \<noteq> None"
proof (cases "lh_quorum_loss_probe C ld e")
  case None
  then show ?thesis by (simp add: heartbeat_is_allowed_def)
next
  case (Some probe)
  then have "0 < qlp_interval probe"
    using engine_config_probe[OF ok] e by (auto simp: lh_quorum_loss_probe_def bind_eq_Some_conv split: if_split_asm option.split_asm)
  then show ?thesis using Some by (auto simp: heartbeat_is_allowed_def quiet_for_def phase_def Let_def)
qed

end
