(* ===== verification/CoreState.thy ===== *)
theory CoreState
  imports EngineRuns CoreQueues Config
begin

text \<open>
  The task that owns the engine (\<open>core/raft_core.rs\<close>): the messages and notifications that reach it
  and the handler of each.  A handler reads the clock once, as \<open>now\<close>.  What leaves the core - the
  answers to clients, calls of the storage, commands for the state machine, requests to other nodes -
  is appended to a trace of effects in the order the code produces it.  A response channel is a
  number that identifies it.
\<close>

section \<open>Messages\<close>

datatype 'c precondition =
    PreCommittedLeaderId 'c
  | PreLastLogId "'c log_id option"
  | PreLastMembershipLogId "'c log_id option"

datatype 'c precondition_failed =
    CommittedLeaderIdMismatch 'c "'c option"
  | LastLogIdMismatch "'c log_id option" "'c log_id option"
  | LastMembershipLogIdMismatch "'c log_id option" "'c log_id option"

datatype ('n, 'nd, 'c, 'e) client_write_error =
    ForwardToLeader "('n, 'nd) forward_error"
  | LogEntryDiscarded "('n, 'nd) forward_error"
  | ChangeMembershipError "('c log_id, 'n, 'e) change_membership_error"
  | PreconditionFailed "'c precondition_failed"

datatype ('n, 'nd) allow_next_revert_error = RevertNodeNotFound 'n | RevertForward "('n, 'nd) forward_error"

datatype ('d, 'm) membership_payloads =
    UniformPayload "('d, 'm) entry_payload"
  | JointOrUniform "('d, 'm) entry_payload" "('d, 'm) entry_payload" nat

record ('l, 'c, 'd, 'm) append_entries_request =
  aq_vote :: "'l vote"
  aq_prev_log_id :: "'c log_id option"
  aq_entries :: "('c, 'd, 'm) entry list"
  aq_leader_commit :: "'c log_id option"

datatype ('n, 'l, 'c) external_command =
    XElect bool
  | XHeartbeat
  | XSnapshot
  | XPurgeLog nat
  | XTriggerTransferLeader 'n
  | XResetBackoff "'n list"
  | XAllowNextRevert 'n bool nat
  | XSetMetricsRecorder
  | XRefreshServerState "'l vote option" "'c log_id option"

datatype ('n, 'l, 'c, 'm, 'd, 'ed) raft_msg =
    MAppendEntries "('l, 'c, 'd, 'm) append_entries_request" nat
  | MRequestVote "('l, 'c) vote_request" nat
  | MRequestPreVote "('l, 'c) vote_request" nat
  | MClientWrite "('d, 'm) entry_payload list" "nat option list" "'c option"
  | MGetLinearizer linearizer_option nat
  | MInitialize 'm nat
  | MChangeMembership 'ed "('d, 'm) membership_payloads" bool "'c precondition list" nat
  | MAppendMembership "('d, 'm) entry_payload" "'c precondition list" nat
  | MWithRaftState nat
  | MHandleTransferLeader "'l vote" 'n "'c log_id option"
  | MExternalCommand "('n, 'l, 'c) external_command"

datatype ('l, 'c, 'm) sm_response =
    BuildSnapshotDone "('c, 'm) snapshot_meta option"
  | InstallSnapshotDone "('l, 'c) log_io_id" "('c, 'm) snapshot_meta option"
  | ApplyDone nat nat "'c log_id"

datatype ('n, 'l, 'c, 'm) notification =
    NVoteResponse 'n "('l, 'c) vote_response" "'l uncommitted_vote"
  | NPreVoteResponse 'n "('l, 'c) vote_response" "'l uncommitted_vote"
  | NHigherVote 'n "'l vote" "'l committed_vote"
  | NStorageError string
  | NLocalIO "('l, 'c) io_id"
  | NLogPurged "'c log_id"
  | NReplicationProgress nat "('n, 'c) progress_msg" "nat option"
  | NHeartbeatProgress nat send_stamp 'n
  | NStateMachine "string + ('l, 'c, 'm) sm_response"
  | NTick nat
  | NPendingReadDeadlineReached

datatype fatal = FatalStorage string | FatalStopped

text \<open>What the core handles in one go, as far as it matters to the engine.\<close>

datatype ('n, 'l, 'c, 'm, 'd) core_event =
    OnAppendEntries "('l, 'c, 'd, 'm) append_entries_request"
  | OnRequestVote "('l, 'c) vote_request"
  | OnInitialize
  | OnOtherMsg
  | OnInstallSnapshot "'l vote"
  | OnNotification "('n, 'l, 'c, 'm) notification"

definition msg_event :: "('n, 'l, 'c, 'm, 'd, 'ed) raft_msg \<Rightarrow> ('n, 'l, 'c, 'm, 'd) core_event" where
  "msg_event msg =
     (case msg of
        MAppendEntries rpc _ \<Rightarrow> OnAppendEntries rpc
      | MRequestVote rpc _ \<Rightarrow> OnRequestVote rpc
      | MInitialize _ _ \<Rightarrow> OnInitialize
      | _ \<Rightarrow> OnOtherMsg)"

section \<open>The state of the core\<close>

text \<open>
  Two fields are not in the code: the trace of effects, and the history of what the core has handled,
  each event with the engine before and after it.
\<close>

record ('l, 'c) lease_read_state =
  lrs_leader_vote :: "'l committed_vote"
  lrs_noop_log_id :: "'c log_id"
  lrs_committed :: "'c log_id option"
  lrs_quorum_acked_at :: "nat option"
  lrs_leader_lease :: nat
  lrs_self_quorum :: bool

record 'c heartbeat_event =
  hb_time :: send_stamp
  hb_matching :: "'c log_id option"
  hb_cluster_committed :: "'c log_id option"

record replication_handle =
  rh_stream_id :: nat
  snapshot_transmit_handle :: "nat option"

datatype ('n, 'nd, 'l, 'c, 'm, 'd, 's, 'e) core_effect =
    AnswerWrite nat "('n, 'nd, 'c, 'e) client_write_error"
  | CommitNotice nat "'c log_id"
  | AnswerRead nat "('n, 'nd) read_error + ('n, 'c) linearizer"
  | AnswerRespond "('n, 'l, 'c, 'm, 'e) respond"
  | AnswerRevert nat "('n, 'nd) allow_next_revert_error + unit"
  | UnusedPayload nat "('d, 'm) entry_payload option"
  | ShowState nat "('l, 'c, 'm) raft_state"
  | StoreAppend "('l, 'c) io_id" "('c, 'd, 'm) entry list"
  | StoreVote "'l vote"
  | StorePurge "'c log_id"
  | StoreTruncate "'c log_id option"
  | StoreCommitted "'c log_id option"
  | SmSend "('l, 'c, 'm, 's) sm_command"
  | VoteRpc 'n "('l, 'c) vote_request"
  | PreVoteRpc 'n "('l, 'c) vote_request"
  | TransferRpc 'n "('n, 'l, 'c) transfer_leader_request"
  | HeartbeatTo 'n "'c heartbeat_event"
  | ReplicateTo 'n "'c replicate"
  | SnapshotTo 'n "'l committed_vote" nat nat
  | BackoffReset 'n
  | StreamSpawned 'n "'l committed_vote" nat
  | StreamClosed 'n

record ('n, 'nd, 'l, 'c, 'm, 'd, 's, 'e, 'pp, 'cp, 'gp) raft_core =
  rc_id :: 'n
  rc_config :: raft_config
  enable_heartbeat :: bool
  enable_elect :: bool
  enable_pre_vote :: bool
  snapshot_tried_at :: "'c log_id option"
  rc_engine :: "('n, 'nd, 'l, 'c, 'm, 'd, 's, 'e, 'pp, 'cp, 'gp) engine"
  published :: "('l, 'c) lease_read_state option"
  client_responders :: "nat responder_queue"
  pending_reads :: "('n, 'c) pending_read_queue"
  read_deadline :: "nat option"
  replications :: "('n, replication_handle) btree_map"
  heartbeat_workers :: "('n, nat) btree_map"
  pending_notifications :: "('n, 'l, 'c, 'm) notification list"
  notify_channel :: "('n, 'l, 'c, 'm) notification list"
  io_accepted :: "('l, 'c) io_id"
  io_submitted :: "('l, 'c) io_id"
  io_committed :: "'c log_id option"
  quorum_loss_probe_tx :: "quorum_loss_probe option"
  rc_effects :: "('n, 'nd, 'l, 'c, 'm, 'd, 's, 'e) core_effect list"
  rc_handled :: "(('n, 'l, 'c, 'm, 'd) core_event \<times> ('n, 'nd, 'l, 'c, 'm, 'd, 's, 'e, 'pp, 'cp, 'gp) engine \<times>
    ('n, 'nd, 'l, 'c, 'm, 'd, 's, 'e, 'pp, 'cp, 'gp) engine) list"

abbreviation rc_state ::
  "('n, 'nd, 'l, 'c, 'm, 'd, 's, 'e, 'pp, 'cp, 'gp) raft_core \<Rightarrow> ('l, 'c, 'm) raft_state" where
  "rc_state c \<equiv> en_state (rc_engine c)"

definition emit ::
  "_ list \<Rightarrow> (_, _, _, _, _, _, _, _, _, _, _) raft_core \<Rightarrow> (_, _, _, _, _, _, _, _, _, _, _) raft_core" where
  "emit fx c = c\<lparr>rc_effects := rc_effects c @ fx\<rparr>"

text \<open>The core \<open>c'\<close> after handling an event in the core \<open>c\<close>.\<close>

definition note_handled ::
  "('n, 'l, 'c, 'm, 'd) core_event \<Rightarrow> ('n, 'nd, 'l, 'c, 'm, 'd, 's, 'e, 'pp, 'cp, 'gp) raft_core \<Rightarrow>
   ('n, 'nd, 'l, 'c, 'm, 'd, 's, 'e, 'pp, 'cp, 'gp) raft_core \<Rightarrow> ('n, 'nd, 'l, 'c, 'm, 'd, 's, 'e, 'pp, 'cp, 'gp) raft_core" where
  "note_handled ev c c' = c'\<lparr>rc_handled := rc_handled c @ [(ev, rc_engine c, rc_engine c')]\<rparr>"

definition set_engine ::
  "('n, 'nd, 'l, 'c, 'm, 'd, 's, 'e, 'pp, 'cp, 'gp) engine \<Rightarrow> (_, _, _, _, _, _, _, _, _, _, _) raft_core \<Rightarrow>
   (_, _, _, _, _, _, _, _, _, _, _) raft_core" where
  "set_engine e c = c\<lparr>rc_engine := e\<rparr>"

definition update_io ::
  "(('l, 'c) io_state \<Rightarrow> ('l, 'c) io_state) \<Rightarrow> ('n, 'nd, 'l, 'c, 'm, 'd, 's, 'e, 'pp, 'cp, 'gp) raft_core \<Rightarrow>
   (_, _, _, _, _, _, _, _, _, _, _) raft_core" where
  "update_io f c = set_engine (set_state ((rc_state c)\<lparr>st_io_state := f (st_io_state (rc_state c))\<rparr>) (rc_engine c)) c"

text \<open>A watch channel that only moves forward.\<close>

definition send_if_greater ::
  "(nat, 'n, 'l, 'c::linorder) leader_id_ops \<Rightarrow> ('l, 'c) io_id \<Rightarrow> ('l, 'c) io_id \<Rightarrow> ('l, 'c) io_id" where
  "send_if_greater L v cur = (if io_partial_cmp L v cur = Some Greater then v else cur)"

section \<open>Sequencing\<close>

text \<open>
  An operation that may end the core: \<^const>\<open>None\<close> is a panic and \<^const>\<open>Inl\<close> the error that
  stops the main loop.  \<open>core_then\<close> is the \<open>?\<close> operator.
\<close>

definition core_then ::
  "((fatal + 'a) \<times> 'k) option \<Rightarrow> ('a \<Rightarrow> 'k \<Rightarrow> ((fatal + 'b) \<times> 'k) option) \<Rightarrow> ((fatal + 'b) \<times> 'k) option" where
  "core_then r f =
     (case r of None \<Rightarrow> None | Some (Inl err, c) \<Rightarrow> Some (Inl err, c) | Some (Inr x, c) \<Rightarrow> f x c)"

definition core_ok :: "'a \<Rightarrow> 'k \<Rightarrow> ((fatal + 'a) \<times> 'k) option" where
  "core_ok x c = Some (Inr x, c)"

lemma core_then_simps [simp]:
  "core_then None f = None" "core_then (Some (Inl err, c)) f = Some (Inl err, c)" "core_then (Some (Inr x, c)) f = f x c"
  "core_then (core_ok x c) f = f x c"
  by (simp_all add: core_then_def core_ok_def)

lemma core_then_cong [fundef_cong]:
  assumes "r = r'" "\<And>x c. r' = Some (Inr x, c) \<Longrightarrow> f x c = f' x c"
  shows "core_then r f = core_then r' f'"
  using assms by (auto simp: core_then_def split: option.split sum.split)

named_theorems core_runs \<open>inverting a run of the core that does not stop\<close>

lemma core_then_runs [core_runs]:
  "core_then r f = Some (Inr y, c') \<longleftrightarrow> (\<exists>x c. r = Some (Inr x, c) \<and> f x c = Some (Inr y, c'))"
  by (auto simp: core_then_def split: option.split sum.split)

lemma core_ok_runs [core_runs]: "core_ok x c = Some (r, c') \<longleftrightarrow> r = Inr x \<and> c' = c"
  by (auto simp: core_ok_def)

section \<open>Leadership\<close>

definition forward_of :: "forward_reason \<Rightarrow> ('n \<times> 'nd) option \<Rightarrow> ('n, 'nd) forward_error" where
  "forward_of reason p = \<lparr>fw_leader_id = map_option fst p, fw_leader_node = map_option snd p, fw_reason = reason\<rparr>"

definition try_leader_handler ::
  "('n, 'nd, 'l, 'c, 'm, 'q, 'pp, 'cp, 'gp) raft_type_config \<Rightarrow>
   ('n, 'nd, 'l, 'c, 'm, 'd, 's, 'e, 'pp, 'cp, 'gp) engine \<Rightarrow> ('n, 'nd) forward_error + ('n, 'l, 'c, 'pp, 'cp) leader" where
  "try_leader_handler C e =
     (case en_leader e of
        None \<Rightarrow> Inl (forward_of NotLeader (forward_to_leader (tc_lid C) (tc_mem C) (en_state e)))
      | Some ld \<Rightarrow> Inr ld)"

definition ensure_leader_handler ::
  "('n, 'nd, 'l, 'c, 'm, 'q, 'pp, 'cp, 'gp) raft_type_config \<Rightarrow>
   ('n, 'nd, 'l, 'c, 'm, 'd, 's, 'e, 'pp, 'cp, 'gp) engine \<Rightarrow> ('n, 'nd) forward_error + ('n, 'l, 'c, 'pp, 'cp) leader" where
  "ensure_leader_handler C e =
     (case try_leader_handler C e of
        Inl forward \<Rightarrow> Inl forward
      | Inr ld \<Rightarrow>
          (case get_transfer_to ld of
             Some to \<Rightarrow> Inl (forward_of LeadershipTransfer (new_forward_to_leader (tc_mem C) (en_state e) to))
           | None \<Rightarrow> Inr ld))"

definition ensure_writable_leader_handler ::
  "('n, 'nd, 'l, 'c, 'm, 'q, 'pp, 'cp, 'gp) raft_type_config \<Rightarrow> nat \<Rightarrow>
   ('n, 'nd, 'l, 'c, 'm, 'd, 's, 'e, 'pp, 'cp, 'gp) engine \<Rightarrow> ('n, 'nd) forward_error + ('n, 'l, 'c, 'pp, 'cp) leader" where
  "ensure_writable_leader_handler C now e =
     (case ensure_leader_handler C e of
        Inl forward \<Rightarrow> Inl forward
      | Inr ld \<Rightarrow>
          if ld_is_lease_valid C now ld (leader_lease (timer_config (en_config e))) then Inr ld
          else Inl (forward_of LeaseExpired None))"

definition ensure_leader_log_committed ::
  "('l, 'c::linorder, 'm) raft_state \<Rightarrow> ('n, 'l, 'c, 'pp, 'cp) leader \<Rightarrow> ('c log_id, 'n, 'e) change_membership_error + unit" where
  "ensure_leader_log_committed s ld =
     (if cluster_committed s \<ge> Some (noop_log_id ld) then Inr ()
      else Inl (CUncommittedLeaderLog (cluster_committed s) (noop_log_id ld)))"

definition current_leader ::
  "('n, 'nd, 'l, 'c, 'm, 'q, 'pp, 'cp, 'gp) raft_type_config \<Rightarrow>
   ('n, 'nd, 'l, 'c, 'm, 'd, 's, 'e, 'pp, 'cp, 'gp) raft_core \<Rightarrow> 'n option" where
  "current_leader C c =
     (let v = vote_ref (rc_state c) in if \<not> v_committed v then None else Some (leader_node_id (tc_lid C) v))"

definition get_leader_node ::
  "('n, 'nd, 'l, 'c, 'm, 'q, 'pp, 'cp, 'gp) raft_type_config \<Rightarrow>
   ('n, 'nd, 'l, 'c, 'm, 'd, 's, 'e, 'pp, 'cp, 'gp) raft_core \<Rightarrow> 'n option \<Rightarrow> 'nd option" where
  "get_leader_node C c leader_id =
     Option.bind leader_id (stored_get_node (tc_mem C) (effective_membership (rc_engine c)))"

section \<open>Lease reads\<close>

definition build_lease_read_state ::
  "('n, 'nd, 'l, 'c, 'm, 'q, 'pp, 'cp, 'gp) raft_type_config \<Rightarrow>
   ('n, 'nd, 'l, 'c, 'm, 'd, 's, 'e, 'pp, 'cp, 'gp) raft_core \<Rightarrow> ('l, 'c) lease_read_state option" where
  "build_lease_read_state C c =
     (case ensure_leader_handler C (rc_engine c) of
        Inl _ \<Rightarrow> None
      | Inr ld \<Rightarrow>
          if \<not> lease_enabled (st_vote (rc_state c)) then None
          else Some \<lparr>lrs_leader_vote = ld_committed_vote ld, lrs_noop_log_id = noop_log_id ld,
                     lrs_committed = local_committed (rc_state c),
                     lrs_quorum_acked_at = (if self_quorum ld then None else last_quorum_acked_time C ld),
                     lrs_leader_lease = leader_lease (timer_config (en_config (rc_engine c))),
                     lrs_self_quorum = self_quorum ld\<rparr>)"

definition publish_lease_read_state ::
  "('n, 'nd, 'l, 'c, 'm, 'q, 'pp, 'cp, 'gp) raft_type_config \<Rightarrow>
   ('n, 'nd, 'l, 'c, 'm, 'd, 's, 'e, 'pp, 'cp, 'gp) raft_core \<Rightarrow> (_, _, _, _, _, _, _, _, _, _, _) raft_core" where
  "publish_lease_read_state C c =
     (if \<not> unwrap_or False (cf_enable_local_lease_read (rc_config c)) then c
      else c\<lparr>published := build_lease_read_state C c\<rparr>)"

text \<open>The caller's side: a read that needs no message to the core.\<close>

definition try_linearizer ::
  "('l, 'c::linorder) lease_read_state \<Rightarrow> 'n \<Rightarrow> linearizer_option \<Rightarrow> nat \<Rightarrow> ('n, 'c) linearizer option" where
  "try_linearizer s nid opt now =
     (let max_age = effective_max_quorum_ack_age opt (lrs_leader_lease s);
          allows_cached_read =
            (max_age \<noteq> 0 \<and>
             (lrs_self_quorum s \<or>
              (case lrs_quorum_acked_at s of None \<Rightarrow> False | Some acked_at \<Rightarrow> now < acked_at + max_age)))
      in if allows_cached_read
         then Some \<lparr>lin_node_id = nid,
                    lin_read_log_id = (case lrs_committed s of Some committed \<Rightarrow> max (lrs_noop_log_id s) committed
                                       | None \<Rightarrow> lrs_noop_log_id s),
                    lin_applied = None\<rparr>
         else None)"

section \<open>Linearizable reads\<close>

definition reschedule_pending_read_check ::
  "('n, 'nd, 'l, 'c, 'm, 'd, 's, 'e, 'pp, 'cp, 'gp) raft_core \<Rightarrow> (_, _, _, _, _, _, _, _, _, _, _) raft_core" where
  "reschedule_pending_read_check c = c\<lparr>read_deadline := earliest_deadline (pending_reads c)\<rparr>"

definition answer_reads ::
  "('n, 'nd, 'c) read_result list \<times> ('n, 'c) pending_read_queue \<Rightarrow>
   ('n, 'nd, 'l, 'c, 'm, 'd, 's, 'e, 'pp, 'cp, 'gp) raft_core \<Rightarrow> (_, _, _, _, _, _, _, _, _, _, _) raft_core" where
  "answer_reads r c = emit (map (\<lambda>(tx, res). AnswerRead tx res) (fst r)) (c\<lparr>pending_reads := snd r\<rparr>)"

text \<open>The subtraction from an instant panics when the result is before the clock's origin.\<close>

definition handle_get_linearizer ::
  "('n::linorder, 'nd, 'l, 'c::linorder, 'm, 'q, 'pp, 'cp, 'gp) raft_type_config \<Rightarrow> nat \<Rightarrow> linearizer_option \<Rightarrow> nat \<Rightarrow>
   ('n, 'nd, 'l, 'c, 'm, 'd, 's, 'e, 'pp, 'cp, 'gp) raft_core \<Rightarrow> (_, _, _, _, _, _, _, _, _, _, _) raft_core option" where
  "handle_get_linearizer C now opt tx c =
     (let e = rc_engine c;
          ls = leader_lease (timer_config (en_config e));
          max_age = effective_max_quorum_ack_age opt ls;
          app = io_applied (st_io_state (en_state e))
      in case ensure_leader_handler C e of
           Inl forward \<Rightarrow> Some (emit [AnswerRead tx (Inl (ReadForward forward))] c)
         | Inr ld \<Rightarrow>
             do {
               read_log_id \<leftarrow> get_read_log_id e;
               let lin = \<lparr>lin_node_id = rc_id c, lin_read_log_id = read_log_id, lin_applied = app\<rparr>;
               if self_quorum ld then Some (emit [AnswerRead tx (Inr lin)] c)
               else if (case last_quorum_acked_time C ld of None \<Rightarrow> False | Some acked \<Rightarrow> now < acked + max_age)
               then Some (emit [AnswerRead tx (Inr lin)] c)
               else if now < max_age then None
               else
                 (let min_quorum_acked_at = SendStamp (now - max_age) (ld_heartbeat_round ld);
                      wait = effective_wait_timeout opt ls
                  in if wait = 0
                     then Some (emit [AnswerRead tx (Inl (QuorumNotEnough (clock_quorum_not_enough C ld min_quorum_acked_at)))] c)
                     else do {
                       c \<leftarrow> (if heartbeat_if_quorum_ack_stale opt
                             then map_option (\<lambda>(_, e). set_engine e c) (send_heartbeat C now True e) else Some c);
                       q \<leftarrow> pending_read_push min_quorum_acked_at
                             \<lparr>pr_deadline = now + wait, pr_linearizer = lin, pr_tx = tx\<rparr> (pending_reads c);
                       Some (reschedule_pending_read_check (c\<lparr>pending_reads := q\<rparr>))
                     })
             })"

definition process_pending_reads ::
  "('n::linorder, 'nd, 'l, 'c, 'm, 'q, 'pp, 'cp, 'gp) raft_type_config \<Rightarrow> nat \<Rightarrow>
   ('n, 'nd, 'l, 'c, 'm, 'd, 's, 'e, 'pp, 'cp, 'gp) raft_core \<Rightarrow> (_, _, _, _, _, _, _, _, _, _, _) raft_core option" where
  "process_pending_reads C now c =
     do {
       c \<leftarrow> (case try_leader_handler C (rc_engine c) of
               Inr ld \<Rightarrow>
                 do {
                   c \<leftarrow> (case last_quorum_acked_stamp C ld of
                           None \<Rightarrow> Some c
                         | Some acked_at \<Rightarrow>
                             map_option (\<lambda>r. answer_reads r c)
                               (drain_satisfied acked_at (io_applied (st_io_state (rc_state c))) (pending_reads c)));
                   map_option (\<lambda>r. answer_reads r c)
                     (drain_expired now (\<lambda>min_acked. QuorumNotEnough (clock_quorum_not_enough C ld min_acked)) (pending_reads c))
                 }
             | Inl forward \<Rightarrow> Some (answer_reads (drain_all_with_error (ReadForward forward) (pending_reads c)) c));
       Some (reschedule_pending_read_check c)
     }"

definition fail_pending_reads ::
  "('n, 'nd, 'l, 'c, 'm, 'q, 'pp, 'cp, 'gp) raft_type_config \<Rightarrow>
   ('n, 'nd, 'l, 'c, 'm, 'd, 's, 'e, 'pp, 'cp, 'gp) raft_core \<Rightarrow> (_, _, _, _, _, _, _, _, _, _, _) raft_core" where
  "fail_pending_reads C c =
     (let forward = forward_of NotLeader (forward_to_leader (tc_lid C) (tc_mem C) (rc_state c))
      in reschedule_pending_read_check (answer_reads (drain_all_with_error (ReadForward forward) (pending_reads c)) c))"

end
