(* ===== verification/Core.thy ===== *)
theory Core
  imports CoreState
begin

text \<open>
  The handlers of the core: client writes and changes of the membership, requests of other nodes,
  the commands of the application, timers, and the notifications of the other tasks.
\<close>

section \<open>Writes\<close>

definition ensure_satisfied ::
  "(nat, 'n, 'l, 'c) leader_id_ops \<Rightarrow> ('l, 'c, 'm) raft_state \<Rightarrow> 'c precondition \<Rightarrow> 'c precondition_failed + unit" where
  "ensure_satisfied L s p =
     (case p of
        PreCommittedLeaderId expected \<Rightarrow>
          (let actual = try_to_committed_leader_id L (vote_ref s)
           in if actual = Some expected then Inr () else Inl (CommittedLeaderIdMismatch expected actual))
      | PreLastLogId expected \<Rightarrow>
          (let actual = last_log_id s in if actual = expected then Inr () else Inl (LastLogIdMismatch expected actual))
      | PreLastMembershipLogId expected \<Rightarrow>
          (let actual = sm_log_id (ms_effective (st_membership_state s))
           in if actual = expected then Inr () else Inl (LastMembershipLogIdMismatch expected actual)))"

fun ensure_preconditions_satisfied ::
  "(nat, 'n, 'l, 'c) leader_id_ops \<Rightarrow> ('l, 'c, 'm) raft_state \<Rightarrow> 'c precondition list \<Rightarrow> 'c precondition_failed + unit" where
  "ensure_preconditions_satisfied L s [] = Inr ()"
| "ensure_preconditions_satisfied L s (p # ps) =
     (case ensure_satisfied L s p of Inl e \<Rightarrow> Inl e | Inr _ \<Rightarrow> ensure_preconditions_satisfied L s ps)"

definition with_membership :: "('d, 'm) entry_payload \<Rightarrow> 'm \<Rightarrow> ('d, 'm) entry_payload" where
  "with_membership payload membership = MembershipPayload membership"

definition payloads_select ::
  "('d, 'm) membership_payloads \<Rightarrow> 'm \<Rightarrow> bool \<Rightarrow> ('d, 'm) entry_payload \<times> (nat \<times> ('d, 'm) entry_payload option) option" where
  "payloads_select payloads membership finished =
     (case payloads of
        UniformPayload uniform \<Rightarrow> (with_membership uniform membership, None)
      | JointOrUniform joint uniform unused_tx \<Rightarrow>
          (let (selected, unused) = (if finished then (uniform, None) else (joint, Some uniform))
           in (with_membership selected membership, Some (unused_tx, unused))))"

definition apply_membership_to_payload ::
  "('n::linorder, 'nd, 'm, 'q) membership_ops \<Rightarrow> ('m \<Rightarrow> bool \<Rightarrow> (('n, 'f) membership_error + 'm) option) \<Rightarrow> ('f \<Rightarrow> 'e) \<Rightarrow>
   ('c, 'm) membership_state \<Rightarrow> bool \<Rightarrow> ('d, 'm) membership_payloads \<Rightarrow>
   (('c log_id, 'n, 'e) change_membership_error + ('d, 'm) entry_payload \<times> (nat \<times> ('d, 'm) entry_payload option) option) option" where
  "apply_membership_to_payload M change_apply wrap s retain payloads =
     (case next_membership M change_apply wrap s retain of
        None \<Rightarrow> None
      | Some (Inl e) \<Rightarrow> Some (Inl e)
      | Some (Inr (membership, joint)) \<Rightarrow> Some (Inr (payloads_select payloads membership (\<not> joint))))"

fun push_responders :: "'c log_id list \<Rightarrow> 'r option list \<Rightarrow> 'r responder_queue \<Rightarrow> 'r responder_queue" where
  "push_responders (log_id # ids) (tx # txs) q =
     push_responders ids txs (case tx of None \<Rightarrow> q | Some tx \<Rightarrow> responder_push (idx log_id) tx q)"
| "push_responders _ _ q = q"

definition write_entries ::
  "('n, 'nd, 'l, 'c::linorder, 'm, 'q, 'pp, 'cp, 'gp) raft_type_config \<Rightarrow> nat \<Rightarrow> ('d, 'm) entry_payload list \<Rightarrow>
   nat option list \<Rightarrow> ('n, 'nd, 'l, 'c, 'm, 'd, 's, 'e, 'pp, 'cp, 'gp) raft_core \<Rightarrow>
   ('c leader_log_ids option \<times> (_, _, _, _, _, _, _, _, _, _, _) raft_core) option" where
  "write_entries C now payloads responders c =
     (case ensure_writable_leader_handler C now (rc_engine c) of
        Inl forward \<Rightarrow> Some (None, emit [AnswerWrite tx (ForwardToLeader forward). tx \<leftarrow> List.map_filter id responders] c)
      | Inr _ \<Rightarrow>
          do {
            (ids, e) \<leftarrow> leader_append_entries C payloads (rc_engine c);
            let c = set_engine e c;
            case ids of
              None \<Rightarrow> Some (None, c)
            | Some log_ids \<Rightarrow>
                Some (Some log_ids,
                  c\<lparr>client_responders := push_responders (iter_list (leader_log_ids_into_iter log_ids)) responders (client_responders c)\<rparr>)
          })"

text \<open>The checks that both kinds of membership change start with, in the order the code reports them.\<close>

definition ensure_membership_changeable ::
  "('n, 'nd, 'l, 'c::linorder, 'm, 'q, 'pp, 'cp, 'gp) raft_type_config \<Rightarrow> nat \<Rightarrow> 'c precondition list \<Rightarrow>
   ('n, 'nd, 'l, 'c, 'm, 'd, 's, 'e, 'pp, 'cp, 'gp) raft_core \<Rightarrow>
   ('n, 'nd, 'c, 'e) client_write_error + ('n, 'l, 'c, 'pp, 'cp) leader" where
  "ensure_membership_changeable C now preconditions c =
     (case ensure_writable_leader_handler C now (rc_engine c) of
        Inl forward \<Rightarrow> Inl (ForwardToLeader forward)
      | Inr ld \<Rightarrow>
          (let leader_log_committed = ensure_leader_log_committed (rc_state c) ld
           in case ensure_preconditions_satisfied (tc_lid C) (rc_state c) preconditions of
                Inl err \<Rightarrow> Inl (PreconditionFailed err)
              | Inr _ \<Rightarrow>
                  (case leader_log_committed of
                     Inl err \<Rightarrow> Inl (ChangeMembershipError err)
                   | Inr _ \<Rightarrow> Inr ld)))"

definition change_membership ::
  "('n::linorder, 'nd, 'l, 'c::linorder, 'm, 'q, 'pp, 'cp, 'gp) raft_type_config \<Rightarrow> nat \<Rightarrow>
   ('m \<Rightarrow> bool \<Rightarrow> (('n, 'f) membership_error + 'm) option) \<Rightarrow> ('f \<Rightarrow> 'e) \<Rightarrow> bool \<Rightarrow> 'c precondition list \<Rightarrow>
   ('d, 'm) membership_payloads \<Rightarrow> nat \<Rightarrow> ('n, 'nd, 'l, 'c, 'm, 'd, 's, 'e, 'pp, 'cp, 'gp) raft_core \<Rightarrow>
   (_, _, _, _, _, _, _, _, _, _, _) raft_core option" where
  "change_membership C now change_apply wrap retain preconditions payloads tx c =
     (case ensure_membership_changeable C now preconditions c of
        Inl err \<Rightarrow> Some (emit [AnswerWrite tx err] c)
      | Inr _ \<Rightarrow>
          (case apply_membership_to_payload (tc_mem C) change_apply wrap (st_membership_state (rc_state c)) retain payloads of
             None \<Rightarrow> None
           | Some (Inl err) \<Rightarrow> Some (emit [AnswerWrite tx (ChangeMembershipError err)] c)
           | Some (Inr (payload, unused)) \<Rightarrow>
               (let c = (case unused of None \<Rightarrow> c | Some (unused_tx, p) \<Rightarrow> emit [UnusedPayload unused_tx p] c)
                in map_option snd (write_entries C now [payload] [Some tx] c))))"

text \<open>A payload that carries no membership is a panic.\<close>

definition append_membership ::
  "('n::linorder, 'nd, 'l, 'c::linorder, 'm, 'q, 'pp, 'cp, 'gp) raft_type_config \<Rightarrow> nat \<Rightarrow> ('d, 'm) entry_payload \<Rightarrow>
   'c precondition list \<Rightarrow> nat \<Rightarrow> ('n, 'nd, 'l, 'c, 'm, 'd, 's, 'e, 'pp, 'cp, 'gp) raft_core \<Rightarrow>
   (_, _, _, _, _, _, _, _, _, _, _) raft_core option" where
  "append_membership C now payload preconditions tx c =
     (case ensure_membership_changeable C now preconditions c of
        Inl err \<Rightarrow> Some (emit [AnswerWrite tx err] c)
      | Inr _ \<Rightarrow>
          (case get_membership payload of
             None \<Rightarrow> None
           | Some membership \<Rightarrow>
               (case validate_append_membership (tc_mem C) (st_membership_state (rc_state c)) membership of
                  Inl err \<Rightarrow> Some (emit [AnswerWrite tx (ChangeMembershipError err)] c)
                | Inr _ \<Rightarrow> map_option snd (write_entries C now [payload] [Some tx] c))))"

section \<open>Requests of other nodes\<close>

definition push_respond ::
  "('l, 'c) io_condition option \<Rightarrow> ('n, 'l, 'c, 'm, 'e) respond \<Rightarrow>
   ('n, 'nd, 'l, 'c, 'm, 'd, 's, 'e, 'pp, 'cp, 'gp) engine \<Rightarrow> (_, _, _, _, _, _, _, _, _, _, _) engine" where
  "push_respond cond resp e = push_command (Respond cond resp) e"

definition handle_vote_request ::
  "('n, 'nd, 'l, 'c::linorder, 'm, 'q, 'pp, 'cp, 'gp) raft_type_config \<Rightarrow> nat \<Rightarrow> ('l, 'c) vote_request \<Rightarrow> nat \<Rightarrow>
   ('n, 'nd, 'l, 'c, 'm, 'd, 's, 'e, 'pp, 'cp, 'gp) raft_core \<Rightarrow> (_, _, _, _, _, _, _, _, _, _, _) raft_core option" where
  "handle_vote_request C now req tx c =
     do {
       (resp, e) \<leftarrow> handle_vote_req C now req (rc_engine c);
       Some (set_engine (push_respond (Some (IOFlushed (io_id_new (vote_ref (en_state e))))) (RespondVote resp tx) e) c)
     }"

definition handle_pre_vote_request ::
  "('n, 'nd, 'l, 'c::linorder, 'm, 'q, 'pp, 'cp, 'gp) raft_type_config \<Rightarrow> nat \<Rightarrow> ('l, 'c) vote_request \<Rightarrow> nat \<Rightarrow>
   ('n, 'nd, 'l, 'c, 'm, 'd, 's, 'e, 'pp, 'cp, 'gp) raft_core \<Rightarrow> (_, _, _, _, _, _, _, _, _, _, _) raft_core" where
  "handle_pre_vote_request C now req tx c =
     (let resp = handle_pre_vote_req C now req (rc_engine c)
      in set_engine (push_respond None (RespondVote resp tx) (rc_engine c)) c)"

definition handle_append_entries_request ::
  "('n, 'nd, 'l, 'c::linorder, 'm, 'q, 'pp, 'cp, 'gp) raft_type_config \<Rightarrow> nat \<Rightarrow> ('l, 'c, 'd, 'm) append_entries_request \<Rightarrow>
   nat \<Rightarrow> ('n, 'nd, 'l, 'c, 'm, 'd, 's, 'e, 'pp, 'cp, 'gp) raft_core \<Rightarrow> (_, _, _, _, _, _, _, _, _, _, _) raft_core option" where
  "handle_append_entries_request C now req tx c =
     do {
       let segment = \<lparr>seg_prev_log_id = aq_prev_log_id req, seg_entries = aq_entries req\<rparr>;
       e \<leftarrow> handle_append_entries C now (aq_vote req) segment tx (rc_engine c);
       let committed = LogIOId (to_committed (aq_vote req)) (aq_leader_commit req);
       Some (set_engine (set_state (update_committed (tc_lid C) (en_state e) committed) e) c)
     }"

definition handle_install_full_snapshot_request ::
  "('n, 'nd, 'l, 'c::linorder, 'm, 'q, 'pp, 'cp, 'gp) raft_type_config \<Rightarrow> nat \<Rightarrow> 'l vote \<Rightarrow> ('c, 'm, 's) snapshot \<Rightarrow> nat \<Rightarrow>
   ('n, 'nd, 'l, 'c, 'm, 'd, 's, 'e, 'pp, 'cp, 'gp) raft_core \<Rightarrow> (_, _, _, _, _, _, _, _, _, _, _) raft_core option" where
  "handle_install_full_snapshot_request C now v sn tx c =
     map_option (\<lambda>e. set_engine e c) (handle_install_full_snapshot C now v sn tx (rc_engine c))"

definition handle_initialize ::
  "('n::linorder, 'nd, 'l, 'c::linorder, 'm, 'q, 'pp, 'cp, 'gp) raft_type_config \<Rightarrow> (nat \<Rightarrow> nat \<Rightarrow> nat) \<Rightarrow> nat \<Rightarrow> 'm \<Rightarrow> nat \<Rightarrow>
   ('n, 'nd, 'l, 'c, 'm, 'd, 's, 'e, 'pp, 'cp, 'gp) raft_core \<Rightarrow> (_, _, _, _, _, _, _, _, _, _, _) raft_core option" where
  "handle_initialize C rng now membership tx c =
     (let (res, e) = initialize C now membership (rc_engine c);
          has_error = (case res of Inl _ \<Rightarrow> True | Inr _ \<Rightarrow> False);
          condition = (if has_error then None
                       else map_option IOFlushed (accepted (log_progress (st_io_state (en_state e)))));
          e = push_respond condition (RespondInitialize res tx) e
      in if has_error then Some (set_engine e c)
         else map_option (\<lambda>e. set_engine e c) (elect C rng now e))"

section \<open>Commands of the application and timers\<close>

definition core_send_heartbeat ::
  "('n, 'nd, 'l, 'c, 'm, 'q, 'pp, 'cp, 'gp) raft_type_config \<Rightarrow> nat \<Rightarrow>
   ('n, 'nd, 'l, 'c, 'm, 'd, 's, 'e, 'pp, 'cp, 'gp) raft_core \<Rightarrow> (bool \<times> (_, _, _, _, _, _, _, _, _, _, _) raft_core) option" where
  "core_send_heartbeat C now c =
     (case try_leader_handler C (rc_engine c) of
        Inl _ \<Rightarrow> Some (False, c)
      | Inr ld \<Rightarrow>
          if get_transfer_to ld \<noteq> None then Some (False, c)
          else map_option (\<lambda>(sent, e). (sent, set_engine e c)) (send_heartbeat C now False (rc_engine c)))"

definition core_trigger_snapshot ::
  "('n, 'nd, 'l, 'c, 'm, 'd, 's, 'e, 'pp, 'cp, 'gp) raft_core \<Rightarrow> bool \<times> (_, _, _, _, _, _, _, _, _, _, _) raft_core" where
  "core_trigger_snapshot c = (let (queued, e) = trigger_snapshot (rc_engine c) in (queued, set_engine e c))"

definition trigger_reset_backoff ::
  "'n list \<Rightarrow> ('n, 'nd, 'l, 'c, 'm, 'd, 's, 'e, 'pp, 'cp, 'gp) raft_core \<Rightarrow> (_, _, _, _, _, _, _, _, _, _, _) raft_core" where
  "trigger_reset_backoff to c =
     (if to = [] then emit (map BackoffReset (bm_keys (replications c))) c
      else emit (map BackoffReset (filter (bm_contains_key (replications c)) to)) c)"

definition handle_external_command ::
  "('n, 'nd, 'l, 'c::linorder, 'm, 'q, 'pp, 'cp, 'gp) raft_type_config \<Rightarrow> (nat \<Rightarrow> nat \<Rightarrow> nat) \<Rightarrow> nat \<Rightarrow>
   ('n, 'l, 'c) external_command \<Rightarrow> ('n, 'nd, 'l, 'c, 'm, 'd, 's, 'e, 'pp, 'cp, 'gp) raft_core \<Rightarrow>
   (_, _, _, _, _, _, _, _, _, _, _) raft_core option" where
  "handle_external_command C rng now cmd c =
     (let e = rc_engine c
      in case cmd of
           XElect pre_vote \<Rightarrow>
             if en_leader e \<noteq> None then Some c
             else if is_campaigner_in_effective_or_committed (tc_mem C) (st_membership_state (en_state e)) (rc_id c)
             then map_option (\<lambda>e. set_engine e c) (if pre_vote then pre_elect C rng now e else elect C rng now e)
             else Some c
         | XHeartbeat \<Rightarrow> map_option snd (core_send_heartbeat C now c)
         | XSnapshot \<Rightarrow> Some (snd (core_trigger_snapshot c))
         | XPurgeLog up_to \<Rightarrow> map_option (\<lambda>e. set_engine e c) (trigger_purge_log C up_to e)
         | XTriggerTransferLeader to \<Rightarrow>
             (let c = c\<lparr>published := None\<rparr>;
                  c = (if unwrap_or True (cf_reset_backoff_on_transfer_leader (rc_config c)) then trigger_reset_backoff [to] c else c)
              in Some (set_engine (trigger_transfer_leader now to e) c))
         | XResetBackoff to \<Rightarrow> Some (trigger_reset_backoff to c)
         | XAllowNextRevert to allow tx \<Rightarrow>
             (case try_leader_handler C e of
                Inl forward \<Rightarrow> Some (emit [AnswerRevert tx (Inl (RevertForward forward))] c)
              | Inr _ \<Rightarrow>
                  map_option
                    (\<lambda>(res, e). emit [AnswerRevert tx (case res of Inl nid \<Rightarrow> Inl (RevertNodeNotFound nid) | Inr u \<Rightarrow> Inr u)] (set_engine e c))
                    (allow_next_revert C to allow e))
         | XSetMetricsRecorder \<Rightarrow> Some c
         | XRefreshServerState vote membership_log_id \<Rightarrow>
             (let vote_unchanged = (case vote of None \<Rightarrow> True | Some v \<Rightarrow> vote_ref (en_state e) = v);
                  membership_unchanged =
                    (case membership_log_id of None \<Rightarrow> True | Some log_id \<Rightarrow> sm_log_id (effective_membership e) = Some log_id)
              in if vote_unchanged \<and> membership_unchanged
                 then map_option (\<lambda>e. set_engine e c) (refresh_server_state C now e) else Some c))"

definition handle_tick_election ::
  "('n::linorder, 'nd, 'l, 'c::linorder, 'm, 'q, 'pp, 'cp, 'gp) raft_type_config \<Rightarrow> (nat \<Rightarrow> nat \<Rightarrow> nat) \<Rightarrow> nat \<Rightarrow>
   ('n, 'nd, 'l, 'c, 'm, 'd, 's, 'e, 'pp, 'cp, 'gp) raft_core \<Rightarrow> (_, _, _, _, _, _, _, _, _, _, _) raft_core option" where
  "handle_tick_election C rng now c =
     (let e = rc_engine c; s = en_state e; M = tc_mem C;
          transfer_expired = (case en_leader e of None \<Rightarrow> False | Some ld \<Rightarrow> is_transfer_expired now ld)
      in if st_server_state s = Leader \<and> \<not> transfer_expired then Some c
         else if \<not> is_campaigner_in_effective_or_committed M (st_membership_state s) (rc_id c) then Some c
         else if \<not> enable_elect c then Some c
         else
           (let timers = timer_config (en_config e);
                timeout = election_timeout timers + (if is_there_greater_log e then smaller_log_timeout timers else 0);
                effective = effective_membership e;
                is_sole_voter = (mem_voter_ids M (sm_membership effective) = [rc_id c]);
                votes_for_self = (leader_node_id (tc_lid C) (vote_ref s) = rc_id c);
                is_single_campaigner = (stored_is_campaigner M effective (rc_id c) \<and> is_sole_voter \<and> votes_for_self)
            in if is_single_campaigner \<and> en_candidate e \<noteq> None then Some c
               else if \<not> is_single_campaigner \<and> \<not> is_expired (st_vote s) now timeout then Some c
               else
                 (let pre_vote = (enable_pre_vote c \<and> \<not> is_single_campaigner);
                      in_flight = (case en_pre_candidate e of None \<Rightarrow> False | Some pc \<Rightarrow> now < starting_time pc + timeout)
                  in if pre_vote \<and> in_flight then Some c
                     else
                       (let e = reset_greater_log e
                        in map_option (\<lambda>e. set_engine e c)
                             (if pre_vote then pre_elect C rng now e else elect C rng now e)))))"

definition handle_tick ::
  "('n::linorder, 'nd, 'l, 'c::linorder, 'm, 'q, 'pp, 'cp, 'gp) raft_type_config \<Rightarrow> (nat \<Rightarrow> nat \<Rightarrow> nat) \<Rightarrow> nat \<Rightarrow>
   ('n, 'nd, 'l, 'c, 'm, 'd, 's, 'e, 'pp, 'cp, 'gp) raft_core \<Rightarrow> (_, _, _, _, _, _, _, _, _, _, _) raft_core option" where
  "handle_tick C rng now c =
     do {
       c \<leftarrow> handle_tick_election C rng now c;
       case en_leader (rc_engine c) of
         None \<Rightarrow> Some c
       | Some ld \<Rightarrow>
           if now < next_heartbeat ld then Some c
           else
             do {
               c \<leftarrow> (if enable_heartbeat c then map_option snd (core_send_heartbeat C now c) else Some c);
               Some (case en_leader (rc_engine c) of
                       None \<Rightarrow> c
                     | Some ld \<Rightarrow>
                         set_engine (set_leader (ld\<lparr>next_heartbeat := now + from_millis (heartbeat_interval (rc_config c))\<rparr>)
                           (rc_engine c)) c)
             }
     }"

section \<open>Notifications\<close>

text \<open>
  Whether a message was sent under the vote that this node still holds in a role; votes are compared
  by their leader.
\<close>

definition does_vote_match :: "'l \<Rightarrow> 'l option \<Rightarrow> bool" where
  "does_vote_match sent my_vote = (case my_vote of None \<Rightarrow> False | Some mine \<Rightarrow> sent = mine)"

definition handle_local_io ::
  "('n, 'nd, 'l, 'c::linorder, 'm, 'q, 'pp, 'cp, 'gp) raft_type_config \<Rightarrow> ('l, 'c) io_id \<Rightarrow>
   ('n, 'nd, 'l, 'c, 'm, 'd, 's, 'e, 'pp, 'cp, 'gp) raft_core \<Rightarrow> (_, _, _, _, _, _, _, _, _, _, _) raft_core option" where
  "handle_local_io C io_id c =
     (let c = update_io (\<lambda>io. io\<lparr>log_progress := try_flush (io_lt (tc_lid C)) (log_progress io) io_id\<rparr>) c
      in case io_id of
           IOLog log_io_id \<Rightarrow>
             if does_vote_match (cv_leader_id (lio_committed_vote log_io_id))
                  (map_option (\<lambda>ld. cv_leader_id (ld_committed_vote ld)) (en_leader (rc_engine c)))
             then map_option (\<lambda>e. set_engine e c) (update_local_progress C (lio_log_id log_io_id) (rc_engine c))
             else Some c
         | IOVote _ \<Rightarrow> Some c)"

definition handle_state_machine_result ::
  "('n, 'nd, 'l, 'c::linorder, 'm, 'q, 'pp, 'cp, 'gp) raft_type_config \<Rightarrow> string + ('l, 'c, 'm) sm_response \<Rightarrow>
   ('n, 'nd, 'l, 'c, 'm, 'd, 's, 'e, 'pp, 'cp, 'gp) raft_core \<Rightarrow>
   ((fatal + unit) \<times> (_, _, _, _, _, _, _, _, _, _, _) raft_core) option" where
  "handle_state_machine_result C result c =
     (case result of
        Inl err \<Rightarrow> Some (Inl (FatalStorage err), c)
      | Inr (BuildSnapshotDone meta) \<Rightarrow>
          map_option (\<lambda>e. (Inr (), set_engine e c)) (on_building_snapshot_done C meta (rc_engine c))
      | Inr (InstallSnapshotDone log_io_id meta) \<Rightarrow>
          (let c = update_io (\<lambda>io. io\<lparr>log_progress := try_flush (io_lt (tc_lid C)) (log_progress io) (IOLog log_io_id)\<rparr>) c
           in Some (Inr (),
                case Option.bind meta snap_last_log_id of
                  None \<Rightarrow> c
                | Some lst \<Rightarrow>
                    update_io (\<lambda>io. io\<lparr>apply_progress := try_flush (<) (apply_progress io) lst,
                                       snapshot_progress := try_flush (<) (snapshot_progress io) lst\<rparr>) c))
      | Inr (ApplyDone _ _ last_applied) \<Rightarrow>
          Some (Inr (), update_io (\<lambda>io. io\<lparr>apply_progress := try_flush (<) (apply_progress io) last_applied\<rparr>) c))"

definition handle_notification_inner ::
  "('n::linorder, 'nd, 'l, 'c::linorder, 'm, 'q, 'pp, 'cp, 'gp) raft_type_config \<Rightarrow> (nat \<Rightarrow> nat \<Rightarrow> nat) \<Rightarrow> nat \<Rightarrow>
   ('n, 'l, 'c, 'm) notification \<Rightarrow> ('n, 'nd, 'l, 'c, 'm, 'd, 's, 'e, 'pp, 'cp, 'gp) raft_core \<Rightarrow>
   ((fatal + unit) \<times> (_, _, _, _, _, _, _, _, _, _, _) raft_core) option" where
  "handle_notification_inner C rng now notify c =
     (let e = rc_engine c; ok = (\<lambda>e. (Inr (), set_engine e c))
      in case notify of
           NVoteResponse target resp candidate_vote \<Rightarrow>
             if does_vote_match (uv_leader_id candidate_vote) (map_option (\<lambda>cd. v_leader_id (cd_vote cd)) (en_candidate e))
             then map_option ok (handle_vote_resp C now target resp e) else Some (Inr (), c)
         | NPreVoteResponse target resp candidate_vote \<Rightarrow>
             if does_vote_match (uv_leader_id candidate_vote) (map_option (\<lambda>cd. v_leader_id (cd_vote cd)) (en_pre_candidate e))
             then map_option ok (handle_pre_vote_resp C rng now target resp e) else Some (Inr (), c)
         | NHigherVote _ higher leader_vote \<Rightarrow>
             if does_vote_match (cv_leader_id leader_vote) (map_option (\<lambda>ld. cv_leader_id (ld_committed_vote ld)) (en_leader e))
             then map_option (\<lambda>(_, e). ok e) (update_vote C now higher e) else Some (Inr (), c)
         | NTick _ \<Rightarrow> map_option (Pair (Inr ())) (handle_tick C rng now c)
         | NStorageError err \<Rightarrow> Some (Inl (FatalStorage err), c)
         | NLocalIO io_id \<Rightarrow> map_option (Pair (Inr ())) (handle_local_io C io_id c)
         | NLogPurged up_to \<Rightarrow> Some (Inr (), update_io (\<lambda>io. io\<lparr>purged_progress := io_flush (purged_progress io) up_to\<rparr>) c)
         | NReplicationProgress stream progress inflight \<Rightarrow>
             if en_leader e = None then Some (Inr (), c) else map_option ok (update_progress C stream progress inflight e)
         | NHeartbeatProgress stream sending_time target \<Rightarrow>
             if en_leader e = None then Some (Inr (), c)
             else map_option ok (try_update_leader_clock C stream target sending_time e)
         | NStateMachine command_result \<Rightarrow> handle_state_machine_result C command_result c
         | NPendingReadDeadlineReached \<Rightarrow> map_option (Pair (Inr ())) (process_pending_reads C now c))"

definition handle_notification ::
  "('n::linorder, 'nd, 'l, 'c::linorder, 'm, 'q, 'pp, 'cp, 'gp) raft_type_config \<Rightarrow> (nat \<Rightarrow> nat \<Rightarrow> nat) \<Rightarrow> nat \<Rightarrow>
   ('n, 'l, 'c, 'm) notification \<Rightarrow> ('n, 'nd, 'l, 'c, 'm, 'd, 's, 'e, 'pp, 'cp, 'gp) raft_core \<Rightarrow>
   ((fatal + unit) \<times> (_, _, _, _, _, _, _, _, _, _, _) raft_core) option" where
  "handle_notification C rng now notify c =
     map_option
       (\<lambda>(result, c). (result, case result of Inl _ \<Rightarrow> c\<lparr>published := None\<rparr> | Inr _ \<Rightarrow> publish_lease_read_state C c))
       (handle_notification_inner C rng now notify c)"

section \<open>Messages and routine actions\<close>

text \<open>
  \<open>change_apply\<close> is how the type of a membership change edits a membership, \<open>wrap\<close> how its error
  becomes the application's.
\<close>

definition handle_api_msg ::
  "('n::linorder, 'nd, 'l, 'c::linorder, 'm, 'q, 'pp, 'cp, 'gp) raft_type_config \<Rightarrow>
   ('ed \<Rightarrow> 'm \<Rightarrow> bool \<Rightarrow> (('n, 'f) membership_error + 'm) option) \<Rightarrow> ('f \<Rightarrow> 'e) \<Rightarrow> (nat \<Rightarrow> nat \<Rightarrow> nat) \<Rightarrow> nat \<Rightarrow>
   ('n, 'l, 'c, 'm, 'd, 'ed) raft_msg \<Rightarrow> ('n, 'nd, 'l, 'c, 'm, 'd, 's, 'e, 'pp, 'cp, 'gp) raft_core \<Rightarrow>
   (_, _, _, _, _, _, _, _, _, _, _) raft_core option" where
  "handle_api_msg C change_apply wrap rng now msg c =
     (case msg of
        MAppendEntries rpc tx \<Rightarrow> handle_append_entries_request C now rpc tx c
      | MRequestVote rpc tx \<Rightarrow> handle_vote_request C now rpc tx c
      | MRequestPreVote rpc tx \<Rightarrow> Some (handle_pre_vote_request C now rpc tx c)
      | MGetLinearizer opt tx \<Rightarrow> handle_get_linearizer C now opt tx c
      | MClientWrite payloads responders expected_leader \<Rightarrow>
          if expected_leader \<noteq> None \<and> try_to_committed_leader_id (tc_lid C) (vote_ref (rc_state c)) \<noteq> expected_leader
          then
            (let forward = forward_of NotLeader (forward_to_leader (tc_lid C) (tc_mem C) (rc_state c))
             in Some (emit [AnswerWrite tx (ForwardToLeader forward). tx \<leftarrow> List.map_filter id responders] c))
          else map_option snd (write_entries C now payloads responders c)
      | MInitialize members tx \<Rightarrow> handle_initialize C rng now members tx c
      | MChangeMembership changes payloads retain preconditions tx \<Rightarrow>
          change_membership C now (change_apply changes) wrap retain preconditions payloads tx c
      | MAppendMembership payload preconditions tx \<Rightarrow> append_membership C now payload preconditions tx c
      | MWithRaftState req \<Rightarrow> Some (emit [ShowState req (rc_state c)] c)
      | MHandleTransferLeader current_leader_vote to last_log \<Rightarrow>
          if vote_ref (rc_state c) = current_leader_vote then
            (let c = c\<lparr>published := None\<rparr>;
                 s = (rc_state c)\<lparr>st_vote := disable_lease (st_vote (rc_state c))\<rparr>;
                 c = set_engine (set_state s (rc_engine c)) c
             in if rc_id c = to \<and> \<not> last_log > last_log_id s
                then map_option (\<lambda>e. set_engine e c) (elect_by_leadership_transfer C rng now current_leader_vote (rc_engine c))
                else Some c)
          else Some c
      | MExternalCommand cmd \<Rightarrow> handle_external_command C rng now cmd c)"

definition trigger_routine_actions ::
  "('n::linorder, 'nd, 'l, 'c::linorder, 'm, 'q, 'pp, 'cp, 'gp) raft_type_config \<Rightarrow> nat \<Rightarrow>
   ('n, 'nd, 'l, 'c, 'm, 'd, 's, 'e, 'pp, 'cp, 'gp) raft_core \<Rightarrow> (_, _, _, _, _, _, _, _, _, _, _) raft_core option" where
  "trigger_routine_actions C now c =
     do {
       let c = (case should_snapshot (snapshot_policy_of (rc_config c)) (rc_state c) (snapshot_tried_at c) of
                  None \<Rightarrow> c
                | Some at \<Rightarrow>
                    (let (queued, c) = core_trigger_snapshot c in if queued then c\<lparr>snapshot_tried_at := Some at\<rparr> else c));
       c \<leftarrow> (case try_leader_handler C (rc_engine c) of
               Inl _ \<Rightarrow> Some c
             | Inr _ \<Rightarrow> map_option (\<lambda>e. set_engine e c) (initiate_replication C (rc_engine c)));
       let c = c\<lparr>quorum_loss_probe_tx :=
                  (case try_leader_handler C (rc_engine c) of Inl _ \<Rightarrow> None | Inr ld \<Rightarrow> lh_quorum_loss_probe C ld (rc_engine c))\<rparr>;
       let c = (case submitted (log_progress (st_io_state (rc_state c))) of
                  None \<Rightarrow> c
                | Some sub \<Rightarrow> c\<lparr>io_submitted := send_if_greater (tc_lid C) sub (io_submitted c)\<rparr>);
       process_pending_reads C now c
     }"

end
