(* ===== verification/CoreCommands.thy ===== *)
theory CoreCommands
  imports Core
begin

text \<open>
  How the core runs what the engine asks for: each command with its storage call, the loop over the
  queue of commands, the batches of messages and notifications, and a round of the main loop.  What
  the environment decides is an input: the result of the storage call of a command, whether the
  channel of the state machine takes the command, and how many notifications arrive while the core
  waits.  What has been handled is noted in the history of the core.  The core owns both ends of its notification channel, so that the channel never closes.
\<close>

section \<open>Inputs and the notification channel\<close>

datatype sm_send = SmSent | SmClosed | SmShutdown

record command_input =
  ci_storage :: "string option"
  ci_send :: sm_send
  ci_received :: nat
  ci_flushed :: nat

definition enqueue ::
  "('n, 'l, 'c, 'm) notification \<Rightarrow> ('n, 'nd, 'l, 'c, 'm, 'd, 's, 'e, 'pp, 'cp, 'gp) raft_core \<Rightarrow>
   (_, _, _, _, _, _, _, _, _, _, _) raft_core" where
  "enqueue x c = c\<lparr>pending_notifications := pending_notifications c @ [x]\<rparr>"

text \<open>Handling up to \<open>n\<close> notifications from the front of the channel.\<close>

fun receive_notifications ::
  "('n::linorder, 'nd, 'l, 'c::linorder, 'm, 'q, 'pp, 'cp, 'gp) raft_type_config \<Rightarrow> (nat \<Rightarrow> nat \<Rightarrow> nat) \<Rightarrow> nat \<Rightarrow> nat \<Rightarrow>
   ('n, 'nd, 'l, 'c, 'm, 'd, 's, 'e, 'pp, 'cp, 'gp) raft_core \<Rightarrow>
   ((fatal + nat) \<times> (_, _, _, _, _, _, _, _, _, _, _) raft_core) option" where
  "receive_notifications C rng now 0 c = core_ok 0 c"
| "receive_notifications C rng now (Suc n) c =
     (case notify_channel c of
        [] \<Rightarrow> core_ok 0 c
      | x # rest \<Rightarrow>
          core_then (handle_notification C rng now x (c\<lparr>notify_channel := rest\<rparr>)) (\<lambda>_ c'.
          core_then (receive_notifications C rng now n (note_handled (OnNotification x) c c')) (\<lambda>k c. core_ok (Suc k) c)))"

definition flush_notifications ::
  "('n::linorder, 'nd, 'l, 'c::linorder, 'm, 'q, 'pp, 'cp, 'gp) raft_type_config \<Rightarrow> (nat \<Rightarrow> nat \<Rightarrow> nat) \<Rightarrow> nat \<Rightarrow> nat \<Rightarrow>
   ('n, 'nd, 'l, 'c, 'm, 'd, 's, 'e, 'pp, 'cp, 'gp) raft_core \<Rightarrow>
   ((fatal + nat) \<times> (_, _, _, _, _, _, _, _, _, _, _) raft_core) option" where
  "flush_notifications C rng now n c =
     (if pending_notifications c = [] then core_ok 0 c
      else receive_notifications C rng now n
             (c\<lparr>notify_channel := notify_channel c @ pending_notifications c, pending_notifications := []\<rparr>))"

definition send_sm_command ::
  "('n::linorder, 'nd, 'l, 'c::linorder, 'm, 'q, 'pp, 'cp, 'gp) raft_type_config \<Rightarrow> (nat \<Rightarrow> nat \<Rightarrow> nat) \<Rightarrow> nat \<Rightarrow>
   command_input \<Rightarrow> ('l, 'c, 'm, 's) sm_command \<Rightarrow> ('n, 'nd, 'l, 'c, 'm, 'd, 's, 'e, 'pp, 'cp, 'gp) raft_core \<Rightarrow>
   ((fatal + unit) \<times> (_, _, _, _, _, _, _, _, _, _, _) raft_core) option" where
  "send_sm_command C rng now inp cmd c =
     core_then (receive_notifications C rng now (ci_received inp) c) (\<lambda>_ c.
       (case ci_send inp of
          SmShutdown \<Rightarrow> Some (Inl FatalStopped, c)
        | SmClosed \<Rightarrow> Some (Inl (FatalStorage ''cannot send to sm::Worker''), c)
        | SmSent \<Rightarrow> core_ok () (emit [SmSend cmd] c)))"

section \<open>Commands\<close>

definition storage_result :: "command_input \<Rightarrow> 'k \<Rightarrow> ((fatal + unit) \<times> 'k) option" where
  "storage_result inp c = (case ci_storage inp of Some err \<Rightarrow> Some (Inl (FatalStorage err), c) | None \<Rightarrow> core_ok () c)"

lemma storage_result_runs [core_runs]: "storage_result inp c = Some (Inr u, c') \<longleftrightarrow> ci_storage inp = None \<and> c' = c"
  by (auto simp: storage_result_def core_ok_def split: option.split)

definition submit_log_io ::
  "('n, 'nd, 'l, 'c::linorder, 'm, 'q, 'pp, 'cp, 'gp) raft_type_config \<Rightarrow> ('l, 'c) io_id \<Rightarrow>
   ('n, 'nd, 'l, 'c, 'm, 'd, 's, 'e, 'pp, 'cp, 'gp) raft_core \<Rightarrow> (_, _, _, _, _, _, _, _, _, _, _) raft_core" where
  "submit_log_io C io_id c =
     update_io (\<lambda>io. io\<lparr>log_progress := io_submit (log_progress io) io_id\<rparr>)
       (c\<lparr>io_accepted := send_if_greater (tc_lid C) io_id (io_accepted c)\<rparr>)"

definition run_update_io_progress ::
  "('n, 'nd, 'l, 'c::linorder, 'm, 'q, 'pp, 'cp, 'gp) raft_type_config \<Rightarrow> ('l, 'c) io_id \<Rightarrow>
   ('n, 'nd, 'l, 'c, 'm, 'd, 's, 'e, 'pp, 'cp, 'gp) raft_core \<Rightarrow> (_, _, _, _, _, _, _, _, _, _, _) raft_core" where
  "run_update_io_progress C io_id c = enqueue (NLocalIO io_id) (submit_log_io C io_id c)"

definition run_append_entries ::
  "('n, 'nd, 'l, 'c::linorder, 'm, 'q, 'pp, 'cp, 'gp) raft_type_config \<Rightarrow> command_input \<Rightarrow> 'l committed_vote \<Rightarrow>
   ('c, 'd, 'm) entry list \<Rightarrow> ('n, 'nd, 'l, 'c, 'm, 'd, 's, 'e, 'pp, 'cp, 'gp) raft_core \<Rightarrow>
   ((fatal + unit) \<times> (_, _, _, _, _, _, _, _, _, _, _) raft_core) option" where
  "run_append_entries C inp cv entries c =
     do {
       lst \<leftarrow> last_opt entries;
       let io_id = io_id_new_log_io cv (Some (ent_log_id lst));
       let c = emit [StoreAppend io_id entries] (submit_log_io C io_id c);
       core_then (storage_result inp c) (\<lambda>_ c.
         core_ok ()
           (if unwrap_or False (cf_broadcast_submitted_on_append (rc_config c))
            then c\<lparr>io_submitted := send_if_greater (tc_lid C) io_id (io_submitted c)\<rparr> else c))
     }"

definition run_save_vote ::
  "('n, 'nd, 'l, 'c::linorder, 'm, 'q, 'pp, 'cp, 'gp) raft_type_config \<Rightarrow> command_input \<Rightarrow> 'l vote \<Rightarrow>
   ('n, 'nd, 'l, 'c, 'm, 'd, 's, 'e, 'pp, 'cp, 'gp) raft_core \<Rightarrow>
   ((fatal + unit) \<times> (_, _, _, _, _, _, _, _, _, _, _) raft_core) option" where
  "run_save_vote C inp v c =
     (let c = emit [StoreVote v] (submit_log_io C (io_id_new v) c)
      in core_then (storage_result inp c) (\<lambda>_ c.
           (let c = enqueue (NLocalIO (io_id_new v)) c
            in core_ok ()
                 (case into_vote_status v of
                    Pending non_committed \<Rightarrow> enqueue (NVoteResponse (rc_id c) (vote_response_new v None True) non_committed) c
                  | Committed _ \<Rightarrow> c))))"

definition discard_responders ::
  "('n, 'nd, 'l, 'c, 'm, 'q, 'pp, 'cp, 'gp) raft_type_config \<Rightarrow> (nat \<times> nat) list \<times> nat responder_queue \<Rightarrow>
   ('n, 'nd, 'l, 'c, 'm, 'd, 's, 'e, 'pp, 'cp, 'gp) raft_core \<Rightarrow> (_, _, _, _, _, _, _, _, _, _, _) raft_core" where
  "discard_responders C drained c =
     (let leader_id = current_leader C c;
          forward = \<lparr>fw_leader_id = leader_id, fw_leader_node = get_leader_node C c leader_id, fw_reason = NotLeader\<rparr>
      in emit (map (\<lambda>(_, tx). AnswerWrite tx (LogEntryDiscarded forward)) (fst drained)) (c\<lparr>client_responders := snd drained\<rparr>))"

definition discard_client_responders_upto ::
  "('n, 'nd, 'l, 'c, 'm, 'q, 'pp, 'cp, 'gp) raft_type_config \<Rightarrow> nat \<Rightarrow>
   ('n, 'nd, 'l, 'c, 'm, 'd, 's, 'e, 'pp, 'cp, 'gp) raft_core \<Rightarrow> (_, _, _, _, _, _, _, _, _, _, _) raft_core" where
  "discard_client_responders_upto C up_to c = discard_responders C (drain_upto up_to (client_responders c)) c"

definition run_purge_log ::
  "('n, 'nd, 'l, 'c, 'm, 'q, 'pp, 'cp, 'gp) raft_type_config \<Rightarrow> command_input \<Rightarrow> 'c log_id \<Rightarrow>
   ('n, 'nd, 'l, 'c, 'm, 'd, 's, 'e, 'pp, 'cp, 'gp) raft_core \<Rightarrow>
   ((fatal + unit) \<times> (_, _, _, _, _, _, _, _, _, _, _) raft_core) option" where
  "run_purge_log C inp up_to c =
     (let c = emit [StorePurge up_to] (update_io (\<lambda>io. io\<lparr>purged_progress := io_submit (purged_progress io) up_to\<rparr>) c)
      in core_then (storage_result inp c)
           (\<lambda>_ c. core_ok () (enqueue (NLogPurged up_to) (discard_client_responders_upto C (idx up_to) c))))"

definition run_truncate_log ::
  "('n, 'nd, 'l, 'c, 'm, 'q, 'pp, 'cp, 'gp) raft_type_config \<Rightarrow> command_input \<Rightarrow> 'c log_id option \<Rightarrow>
   ('n, 'nd, 'l, 'c, 'm, 'd, 's, 'e, 'pp, 'cp, 'gp) raft_core \<Rightarrow>
   ((fatal + unit) \<times> (_, _, _, _, _, _, _, _, _, _, _) raft_core) option" where
  "run_truncate_log C inp after c =
     core_then (storage_result inp (emit [StoreTruncate after] c))
       (\<lambda>_ c. core_ok () (discard_responders C (drain_from (next_index after) (client_responders c)) c))"

text \<open>A responder whose entry is no longer in the log is a panic.\<close>

fun commit_notices :: "('l, 'c, 'm) raft_state \<Rightarrow> (nat \<times> nat) list \<Rightarrow> (_, _, _, 'c, _, _, _, _) core_effect list option" where
  "commit_notices s [] = Some []"
| "commit_notices s ((index, tx) # rest) =
     do {
       log_id \<leftarrow> get_log_id s index;
       notices \<leftarrow> commit_notices s rest;
       Some (CommitNotice tx log_id # notices)
     }"

definition apply_to_state_machine ::
  "('n::linorder, 'nd, 'l, 'c::linorder, 'm, 'q, 'pp, 'cp, 'gp) raft_type_config \<Rightarrow> (nat \<Rightarrow> nat \<Rightarrow> nat) \<Rightarrow> nat \<Rightarrow>
   command_input \<Rightarrow> 'c log_id \<Rightarrow> 'c log_id \<Rightarrow> ('n, 'nd, 'l, 'c, 'm, 'd, 's, 'e, 'pp, 'cp, 'gp) raft_core \<Rightarrow>
   ((fatal + unit) \<times> (_, _, _, _, _, _, _, _, _, _, _) raft_core) option" where
  "apply_to_state_machine C rng now inp first lst c =
     do {
       let (responders, q) = drain_upto (idx lst) (client_responders c);
       let c = c\<lparr>client_responders := q\<rparr>;
       notices \<leftarrow> commit_notices (rc_state c) responders;
       send_sm_command C rng now inp (ApplyLogs first lst responders) (emit notices c)
     }"

definition run_save_committed_and_apply ::
  "('n::linorder, 'nd, 'l, 'c::linorder, 'm, 'q, 'pp, 'cp, 'gp) raft_type_config \<Rightarrow> (nat \<Rightarrow> nat \<Rightarrow> nat) \<Rightarrow> nat \<Rightarrow>
   command_input \<Rightarrow> 'c log_id option \<Rightarrow> 'c log_id \<Rightarrow> ('n, 'nd, 'l, 'c, 'm, 'd, 's, 'e, 'pp, 'cp, 'gp) raft_core \<Rightarrow>
   ((fatal + unit) \<times> (_, _, _, _, _, _, _, _, _, _, _) raft_core) option" where
  "run_save_committed_and_apply C rng now inp already_applied up_to c =
     (let c = emit [StoreCommitted (Some up_to)]
                (update_io (\<lambda>io. io\<lparr>apply_progress := io_submit (apply_progress io) up_to\<rparr>) c)
      in core_then (storage_result inp c) (\<lambda>_ c.
           do {
             first \<leftarrow> get_log_id (rc_state c) (next_index already_applied);
             apply_to_state_machine C rng now inp first up_to c
           }))"

definition run_state_machine ::
  "('n::linorder, 'nd, 'l, 'c::linorder, 'm, 'q, 'pp, 'cp, 'gp) raft_type_config \<Rightarrow> (nat \<Rightarrow> nat \<Rightarrow> nat) \<Rightarrow> nat \<Rightarrow>
   command_input \<Rightarrow> ('l, 'c, 'm, 's) sm_command \<Rightarrow> ('n, 'nd, 'l, 'c, 'm, 'd, 's, 'e, 'pp, 'cp, 'gp) raft_core \<Rightarrow>
   ((fatal + unit) \<times> (_, _, _, _, _, _, _, _, _, _, _) raft_core) option" where
  "run_state_machine C rng now inp command c =
     (let snapshot_log_id = get_snapshot_progress command;
          c = (case snapshot_log_id of None \<Rightarrow> c | Some log_id \<Rightarrow> discard_client_responders_upto C (idx log_id) c);
          c = (case get_log_progress command of
                 None \<Rightarrow> c
               | Some io_id \<Rightarrow> update_io (\<lambda>io. io\<lparr>log_progress := try_submit (io_lt (tc_lid C)) (log_progress io) io_id\<rparr>) c);
          c = (case get_apply_progress command of
                 None \<Rightarrow> c
               | Some log_id \<Rightarrow> update_io (\<lambda>io. io\<lparr>apply_progress := io_submit (apply_progress io) log_id\<rparr>) c);
          c = (case snapshot_log_id of
                 None \<Rightarrow> c
               | Some log_id \<Rightarrow> update_io (\<lambda>io. io\<lparr>snapshot_progress := io_submit (snapshot_progress io) log_id\<rparr>) c)
      in send_sm_command C rng now inp command c)"

section \<open>Requests to other nodes\<close>

text \<open>A target outside the membership is a panic.\<close>

definition broadcast_to ::
  "('n, 'nd, 'l, 'c, 'm, 'q, 'pp, 'cp, 'gp) raft_type_config \<Rightarrow> 'n list \<Rightarrow>
   ('n \<Rightarrow> ('n, 'nd, 'l, 'c, 'm, 'd, 's, 'e) core_effect) \<Rightarrow> ('n, 'nd, 'l, 'c, 'm, 'd, 's, 'e, 'pp, 'cp, 'gp) raft_core \<Rightarrow>
   (_, _, _, _, _, _, _, _, _, _, _) raft_core option" where
  "broadcast_to C targets make_rpc c =
     (let others = filter (\<lambda>target. target \<noteq> rc_id c) targets
      in if \<forall>target \<in> set others. stored_get_node (tc_mem C) (effective_membership (rc_engine c)) target \<noteq> None
         then Some (emit (map make_rpc others) c) else None)"

definition spawn_parallel_vote_requests ::
  "('n::linorder, 'nd, 'l, 'c, 'm, 'q, 'pp, 'cp, 'gp) raft_type_config \<Rightarrow> ('l, 'c) vote_request \<Rightarrow> bool \<Rightarrow>
   ('n, 'nd, 'l, 'c, 'm, 'd, 's, 'e, 'pp, 'cp, 'gp) raft_core \<Rightarrow> (_, _, _, _, _, _, _, _, _, _, _) raft_core option" where
  "spawn_parallel_vote_requests C req pre_vote c =
     broadcast_to C (mem_voter_ids (tc_mem C) (sm_membership (effective_membership (rc_engine c))))
       (\<lambda>target. if pre_vote then PreVoteRpc target req else VoteRpc target req) c"

definition broadcast_transfer_leader ::
  "('n::linorder, 'nd, 'l, 'c, 'm, 'q, 'pp, 'cp, 'gp) raft_type_config \<Rightarrow> ('n, 'l, 'c) transfer_leader_request \<Rightarrow>
   ('n, 'nd, 'l, 'c, 'm, 'd, 's, 'e, 'pp, 'cp, 'gp) raft_core \<Rightarrow> (_, _, _, _, _, _, _, _, _, _, _) raft_core option" where
  "broadcast_transfer_leader C req c =
     (let c = c\<lparr>published := None\<rparr>;
          membership = effective_membership (rc_engine c);
          targets = mem_voter_ids (tc_mem C) (sm_membership membership);
          targets = (if stored_get_node (tc_mem C) membership (to_node_id req) \<noteq> None
                     then btree_set (to_node_id req # targets) else targets)
      in broadcast_to C targets (\<lambda>target. TransferRpc target req) c)"

text \<open>A progress entry without a heartbeat worker is a panic, as is the overflow of the round.\<close>

definition broadcast_heartbeat ::
  "('n, 'nd, 'l, 'c, 'm, 'q, 'pp, 'cp, 'gp) raft_type_config \<Rightarrow> nat \<Rightarrow> ('l, 'c) replication_session_id \<Rightarrow> bool \<Rightarrow>
   ('n, 'nd, 'l, 'c, 'm, 'd, 's, 'e, 'pp, 'cp, 'gp) raft_core \<Rightarrow> (_, _, _, _, _, _, _, _, _, _, _) raft_core option" where
  "broadcast_heartbeat C now session_id bypass_min_interval c =
     (let e = rc_engine c
      in case try_leader_handler C e of
           Inl _ \<Rightarrow> Some c
         | Inr ld \<Rightarrow>
             if \<lparr>rs_leader_vote = ld_committed_vote ld, rs_membership_log_id = sm_log_id (effective_membership e)\<rparr> \<noteq> session_id
             then Some c
             else
               do {
                 (round, ld) \<leftarrow> next_heartbeat_round ld;
                 let c = set_engine (set_leader ld e) c;
                 let min_interval = from_millis (unwrap_or 0 (cf_heartbeat_min_interval (rc_config c)));
                 let entries = filter (\<lambda>pe. pe_id pe \<noteq> rc_id c \<and>
                       (bypass_min_interval \<or> need_heartbeat C ld (pe_id pe) now min_interval))
                     (pp_iter (tc_progress C) (ld_progress ld));
                 if \<forall>pe \<in> set entries. bm_contains_key (heartbeat_workers c) (pe_id pe)
                 then Some (emit (map (\<lambda>pe. HeartbeatTo (pe_id pe)
                        \<lparr>hb_time = SendStamp now round, hb_matching = matching pe,
                         hb_cluster_committed = cluster_committed (en_state e)\<rparr>) entries) c)
                 else None
               })"

section \<open>Replication streams\<close>

definition run_replicate ::
  "('n, 'nd, 'l, 'c, 'm, 'q, 'pp, 'cp, 'gp) raft_type_config \<Rightarrow> 'n \<Rightarrow> 'c replicate \<Rightarrow>
   ('n, 'nd, 'l, 'c, 'm, 'd, 's, 'e, 'pp, 'cp, 'gp) raft_core \<Rightarrow> (_, _, _, _, _, _, _, _, _, _, _) raft_core option" where
  "run_replicate C target req c =
     (if mem_receives_logs (tc_mem C) (sm_membership (effective_membership (rc_engine c))) target
      then map_option (\<lambda>_. emit [ReplicateTo target req] c) (bm_get (replications c) target)
      else Some c)"

definition run_replicate_snapshot ::
  "('n::linorder, 'nd, 'l, 'c, 'm, 'q, 'pp, 'cp, 'gp) raft_type_config \<Rightarrow> 'l committed_vote \<Rightarrow> 'n \<Rightarrow> nat \<Rightarrow>
   ('n, 'nd, 'l, 'c, 'm, 'd, 's, 'e, 'pp, 'cp, 'gp) raft_core \<Rightarrow> (_, _, _, _, _, _, _, _, _, _, _) raft_core option" where
  "run_replicate_snapshot C cv target inflight c =
     (if \<not> mem_receives_logs (tc_mem C) (sm_membership (effective_membership (rc_engine c))) target then Some c
      else
        do {
          node \<leftarrow> bm_get (replications c) target;
          _ \<leftarrow> stored_get_node (tc_mem C) (effective_membership (rc_engine c)) target;
          Some (emit [SnapshotTo target cv (rh_stream_id node) inflight]
                 (c\<lparr>replications := bm_insert target (node\<lparr>snapshot_transmit_handle := Some inflight\<rparr>) (replications c)\<rparr>))
        })"

definition run_close_replication_streams ::
  "('n, 'nd, 'l, 'c, 'm, 'd, 's, 'e, 'pp, 'cp, 'gp) raft_core \<Rightarrow> (_, _, _, _, _, _, _, _, _, _, _) raft_core" where
  "run_close_replication_streams c =
     emit (map StreamClosed (bm_keys (replications c))) (c\<lparr>heartbeat_workers := [], replications := []\<rparr>)"

fun spawn_workers ::
  "bool \<Rightarrow> ('n::linorder, 'nd, 'c) target_progress list \<Rightarrow> ('n, nat) btree_map \<Rightarrow> ('n, nat) btree_map \<Rightarrow> ('n, nat) btree_map" where
  "spawn_workers close_old [] workers new_workers = new_workers"
| "spawn_workers close_old (prog # rest) workers new_workers =
     (let removed = bm_get workers (tp_target prog);
          handle = (case removed of Some h \<Rightarrow> if close_old then None else Some h | None \<Rightarrow> None);
          handle = (case handle of Some h \<Rightarrow> h | None \<Rightarrow> stream_id (pe_data (tp_progress prog)))
      in spawn_workers close_old rest (bm_remove (tp_target prog) workers) (bm_insert (tp_target prog) handle new_workers))"

text \<open>The loop over the targets; what is left of the old streams is closed after it.\<close>

fun rebuild_streams_loop ::
  "('n::linorder, 'nd, 'l, 'c, 'm, 'q, 'pp, 'cp, 'gp) raft_type_config \<Rightarrow> 'l committed_vote \<Rightarrow> bool \<Rightarrow>
   ('n, 'nd, 'c) target_progress list \<Rightarrow> ('n, replication_handle) btree_map \<Rightarrow>
   ('n, 'nd, 'l, 'c, 'm, 'd, 's, 'e, 'pp, 'cp, 'gp) raft_core \<Rightarrow> (_, _, _, _, _, _, _, _, _, _, _) raft_core" where
  "rebuild_streams_loop C cv close_old [] new_replications c =
     emit (map StreamClosed (bm_keys (replications c))) (c\<lparr>replications := new_replications\<rparr>)"
| "rebuild_streams_loop C cv close_old (prog # rest) new_replications c =
     (let target = tp_target prog
      in if \<not> mem_receives_logs (tc_mem C) (sm_membership (effective_membership (rc_engine c))) target
         then rebuild_streams_loop C cv close_old rest new_replications c
         else
           (let removed = bm_get (replications c) target;
                c = c\<lparr>replications := bm_remove target (replications c)\<rparr>;
                c = (if removed \<noteq> None \<and> close_old then emit [StreamClosed target] c else c);
                sid = stream_id (pe_data (tp_progress prog));
                (handle, c) =
                  (case removed of
                     Some h \<Rightarrow> if close_old
                       then (\<lparr>rh_stream_id = sid, snapshot_transmit_handle = None\<rparr>, emit [StreamSpawned target cv sid] c)
                       else (h, c)
                   | None \<Rightarrow> (\<lparr>rh_stream_id = sid, snapshot_transmit_handle = None\<rparr>, emit [StreamSpawned target cv sid] c))
            in rebuild_streams_loop C cv close_old rest (bm_insert target handle new_replications) c))"

definition run_rebuild_replication_streams ::
  "('n::linorder, 'nd, 'l, 'c, 'm, 'q, 'pp, 'cp, 'gp) raft_type_config \<Rightarrow> 'l committed_vote \<Rightarrow>
   ('n, 'nd, 'c) target_progress list \<Rightarrow> bool \<Rightarrow> ('n, 'nd, 'l, 'c, 'm, 'd, 's, 'e, 'pp, 'cp, 'gp) raft_core \<Rightarrow>
   (_, _, _, _, _, _, _, _, _, _, _) raft_core" where
  "run_rebuild_replication_streams C cv targets close_old c =
     rebuild_streams_loop C cv close_old targets []
       (c\<lparr>heartbeat_workers := spawn_workers close_old targets (heartbeat_workers c) []\<rparr>)"

section \<open>Running the queue\<close>

definition core_sync :: "'k option \<Rightarrow> ((fatal + 'a option) \<times> 'k) option" where
  "core_sync r = (case r of None \<Rightarrow> None | Some c \<Rightarrow> core_ok None c)"

definition core_async :: "((fatal + unit) \<times> 'k) option \<Rightarrow> ((fatal + 'a option) \<times> 'k) option" where
  "core_async r = core_then r (\<lambda>_ c. core_ok None c)"

lemma core_sync_runs [core_runs]: "core_sync r = Some (Inr x, c') \<longleftrightarrow> r = Some c' \<and> x = None"
  by (auto simp: core_sync_def core_ok_def split: option.split)

text \<open>A command whose condition is not met comes back.\<close>

definition run_command ::
  "('n::linorder, 'nd, 'l, 'c::linorder, 'm, 'q, 'pp, 'cp, 'gp) raft_type_config \<Rightarrow> (nat \<Rightarrow> nat \<Rightarrow> nat) \<Rightarrow> nat \<Rightarrow>
   command_input \<Rightarrow> ('n, 'nd, 'l, 'c, 'm, 'd, 's, 'e) command \<Rightarrow> ('n, 'nd, 'l, 'c, 'm, 'd, 's, 'e, 'pp, 'cp, 'gp) raft_core \<Rightarrow>
   ((fatal + ('n, 'nd, 'l, 'c, 'm, 'd, 's, 'e) command option) \<times> (_, _, _, _, _, _, _, _, _, _, _) raft_core) option" where
  "run_command C rng now inp cmd c =
     (if (case command_condition cmd of
            None \<Rightarrow> False
          | Some condition \<Rightarrow> \<not> is_met (tc_lid C) condition (st_io_state (rc_state c)))
      then Some (Inr (Some cmd), c)
      else
        (case cmd of
           UpdateIOProgress _ io_id \<Rightarrow> core_sync (Some (run_update_io_progress C io_id c))
         | AppendEntries cv entries \<Rightarrow> core_async (run_append_entries C inp cv entries c)
         | SaveVote v \<Rightarrow> core_async (run_save_vote C inp v c)
         | PurgeLog up_to \<Rightarrow> core_async (run_purge_log C inp up_to c)
         | TruncateLog after \<Rightarrow> core_async (run_truncate_log C inp after c)
         | SendVote req \<Rightarrow> core_sync (spawn_parallel_vote_requests C req False c)
         | SendPreVote req \<Rightarrow> core_sync (spawn_parallel_vote_requests C req True c)
         | ReplicateCommitted committed \<Rightarrow> core_sync (Some (c\<lparr>io_committed := max committed (io_committed c)\<rparr>))
         | BroadcastHeartbeat session_id bypass \<Rightarrow> core_sync (broadcast_heartbeat C now session_id bypass c)
         | SaveCommittedAndApply already_applied up_to \<Rightarrow>
             core_async (run_save_committed_and_apply C rng now inp already_applied up_to c)
         | Replicate target req \<Rightarrow> core_sync (run_replicate C target req c)
         | ReplicateSnapshot cv target inflight \<Rightarrow> core_sync (run_replicate_snapshot C cv target inflight c)
         | BroadcastTransferLeader req \<Rightarrow> core_sync (broadcast_transfer_leader C req c)
         | CloseReplicationStreams \<Rightarrow> core_sync (Some (run_close_replication_streams c))
         | FailPendingReads \<Rightarrow> core_sync (Some (fail_pending_reads C c))
         | RebuildReplicationStreams cv targets close_old \<Rightarrow>
             core_sync (Some (run_rebuild_replication_streams C cv targets close_old c))
         | StateMachine command \<Rightarrow> core_async (run_state_machine C rng now inp command c)
         | Respond _ resp \<Rightarrow> core_sync (Some (emit [AnswerRespond resp] c))))"

definition set_output ::
  "('n, 'nd, 'l, 'c, 'm, 'd, 's, 'e) engine_output \<Rightarrow> ('n, 'nd, 'l, 'c, 'm, 'd, 's, 'e, 'pp, 'cp, 'gp) raft_core \<Rightarrow>
   (_, _, _, _, _, _, _, _, _, _, _) raft_core" where
  "set_output out c = set_engine ((rc_engine c)\<lparr>en_output := out\<rparr>) c"

definition send_satisfied_responds ::
  "('n, 'nd, 'l, 'c::linorder, 'm, 'q, 'pp, 'cp, 'gp) raft_type_config \<Rightarrow>
   ('n, 'nd, 'l, 'c, 'm, 'd, 's, 'e, 'pp, 'cp, 'gp) raft_core \<Rightarrow> (_, _, _, _, _, _, _, _, _, _, _) raft_core" where
  "send_satisfied_responds C c =
     (let out = en_output (rc_engine c);
          (sent, p) = drain_all (tc_lid C) (st_io_state (rc_state c)) (out_pending_responds out) DrainLogIO
      in emit (map (\<lambda>(_, respond). AnswerRespond respond) sent) (set_output (out\<lparr>out_pending_responds := p\<rparr>) c))"

text \<open>
  The loop over the queue takes one input for each command it runs, and stops early when they run
  out.  What is left of the inputs is returned.
\<close>

fun run_commands_loop ::
  "('n::linorder, 'nd, 'l, 'c::linorder, 'm, 'q, 'pp, 'cp, 'gp) raft_type_config \<Rightarrow> (nat \<Rightarrow> nat \<Rightarrow> nat) \<Rightarrow> nat \<Rightarrow>
   command_input list \<Rightarrow> ('n, 'nd, 'l, 'c, 'm, 'd, 's, 'e, 'pp, 'cp, 'gp) raft_core \<Rightarrow>
   ((fatal + command_input list) \<times> (_, _, _, _, _, _, _, _, _, _, _) raft_core) option" where
  "run_commands_loop C rng now [] c = core_ok [] c"
| "run_commands_loop C rng now (inp # inputs) c =
     (case out_pop (merge_front_append_entries (unwrap_or 4096 (cf_max_append_entries (rc_config c))) (en_output (rc_engine c))) of
        (None, out) \<Rightarrow> core_ok (inp # inputs) (set_output out c)
      | (Some cmd, out) \<Rightarrow>
          core_then (run_command C rng now inp cmd (set_output out c)) (\<lambda>res c.
            (case res of
               None \<Rightarrow>
                 core_then (flush_notifications C rng now (ci_flushed inp) c) (\<lambda>_ c. run_commands_loop C rng now inputs c)
             | Some cmd \<Rightarrow>
                 (case postpone_command cmd (en_output (rc_engine c)) of
                    None \<Rightarrow> None
                  | Some (Inr _, out) \<Rightarrow> run_commands_loop C rng now inputs (set_output out c)
                  | Some (Inl _, out) \<Rightarrow> core_ok inputs (set_output out c)))))"

fun run_progress_driven_command ::
  "('n::linorder, 'nd, 'l, 'c::linorder, 'm, 'q, 'pp, 'cp, 'gp) raft_type_config \<Rightarrow> (nat \<Rightarrow> nat \<Rightarrow> nat) \<Rightarrow> nat \<Rightarrow>
   command_input list \<Rightarrow> ('n, 'nd, 'l, 'c, 'm, 'd, 's, 'e, 'pp, 'cp, 'gp) raft_core \<Rightarrow>
   ((fatal + command_input list) \<times> (_, _, _, _, _, _, _, _, _, _, _) raft_core) option" where
  "run_progress_driven_command C rng now [] c = core_ok [] c"
| "run_progress_driven_command C rng now (inp # inputs) c =
     (case next_progress_driven_command (rc_engine c) of
        None \<Rightarrow> core_ok (inp # inputs) c
      | Some cmd \<Rightarrow>
          core_then (run_command C rng now inp cmd c) (\<lambda>_ c.
          core_then (flush_notifications C rng now (ci_flushed inp) c) (\<lambda>_ c.
            run_progress_driven_command C rng now inputs c)))"

definition run_engine_commands ::
  "('n::linorder, 'nd, 'l, 'c::linorder, 'm, 'q, 'pp, 'cp, 'gp) raft_type_config \<Rightarrow> (nat \<Rightarrow> nat \<Rightarrow> nat) \<Rightarrow> nat \<Rightarrow>
   command_input list \<Rightarrow> ('n, 'nd, 'l, 'c, 'm, 'd, 's, 'e, 'pp, 'cp, 'gp) raft_core \<Rightarrow>
   ((fatal + command_input list) \<times> (_, _, _, _, _, _, _, _, _, _, _) raft_core) option" where
  "run_engine_commands C rng now inputs c =
     core_then (run_commands_loop C rng now inputs (send_satisfied_responds C (publish_lease_read_state C c)))
       (\<lambda>inputs c. run_progress_driven_command C rng now inputs c)"

section \<open>Batches\<close>

text \<open>
  The receiver of API messages merges consecutive client writes for the same leader.  A message that
  cannot be merged stays at the front of the queue.
\<close>

fun merge_client_writes ::
  "nat \<Rightarrow> ('d, 'm) entry_payload list \<Rightarrow> nat option list \<Rightarrow> 'c option \<Rightarrow> ('n, 'l, 'c, 'm, 'd, 'ed) raft_msg list \<Rightarrow>
   ('n, 'l, 'c, 'm, 'd, 'ed) raft_msg \<times> ('n, 'l, 'c, 'm, 'd, 'ed) raft_msg list" where
  "merge_client_writes (Suc n) payloads responders leader (MClientWrite payloads' responders' leader' # rest) =
     (if leader' = leader then merge_client_writes n (payloads @ payloads') (responders @ responders') leader rest
      else (MClientWrite payloads responders leader, MClientWrite payloads' responders' leader' # rest))"
| "merge_client_writes _ payloads responders leader rest = (MClientWrite payloads responders leader, rest)"

definition msg_try_recv ::
  "nat \<Rightarrow> ('n, 'l, 'c, 'm, 'd, 'ed) raft_msg list \<Rightarrow>
   (('n, 'l, 'c, 'm, 'd, 'ed) raft_msg \<times> ('n, 'l, 'c, 'm, 'd, 'ed) raft_msg list) option" where
  "msg_try_recv capacity msgs =
     (case msgs of
        [] \<Rightarrow> None
      | MClientWrite payloads responders leader # rest \<Rightarrow>
          Some (merge_client_writes (capacity - 1) payloads responders leader rest)
      | msg # rest \<Rightarrow> Some (msg, rest))"

text \<open>One list of inputs for each time the queue of commands is run.\<close>

definition next_inputs :: "command_input list list \<Rightarrow> command_input list" where
  "next_inputs ins = (case ins of [] \<Rightarrow> [] | i # _ \<Rightarrow> i)"

fun process_raft_msg_loop ::
  "('n::linorder, 'nd, 'l, 'c::linorder, 'm, 'q, 'pp, 'cp, 'gp) raft_type_config \<Rightarrow>
   ('ed \<Rightarrow> 'm \<Rightarrow> bool \<Rightarrow> (('n, 'f) membership_error + 'm) option) \<Rightarrow> ('f \<Rightarrow> 'e) \<Rightarrow> (nat \<Rightarrow> nat \<Rightarrow> nat) \<Rightarrow> nat \<Rightarrow>
   nat \<Rightarrow> nat \<Rightarrow> ('n, 'l, 'c, 'm, 'd, 'ed) raft_msg list \<Rightarrow> command_input list list \<Rightarrow>
   ('n, 'nd, 'l, 'c, 'm, 'd, 's, 'e, 'pp, 'cp, 'gp) raft_core \<Rightarrow>
   ((fatal + nat \<times> ('n, 'l, 'c, 'm, 'd, 'ed) raft_msg list \<times> command_input list list) \<times>
    (_, _, _, _, _, _, _, _, _, _, _) raft_core) option" where
  "process_raft_msg_loop C change_apply wrap rng now 0 total_done msgs ins c = core_ok (total_done, msgs, ins) c"
| "process_raft_msg_loop C change_apply wrap rng now (Suc n) total_done msgs ins c =
     (if total_done > 0 \<and> unwrap_or False (cf_broadcast_submitted_on_append (rc_config c)) \<and> notify_channel c \<noteq> []
      then core_ok (total_done, msgs, ins) c
      else
        (case msg_try_recv (api_batch_capacity (rc_config c)) msgs of
           None \<Rightarrow> core_ok (total_done, msgs, ins) c
         | Some (msg, rest) \<Rightarrow>
             (case handle_api_msg C change_apply wrap rng now msg c of
                None \<Rightarrow> None
              | Some c' \<Rightarrow>
                  core_then (run_engine_commands C rng now (next_inputs ins) (note_handled (msg_event msg) c c')) (\<lambda>_ c.
                    process_raft_msg_loop C change_apply wrap rng now n (Suc total_done) rest (tl ins) c))))"

definition process_raft_msg ::
  "('n::linorder, 'nd, 'l, 'c::linorder, 'm, 'q, 'pp, 'cp, 'gp) raft_type_config \<Rightarrow>
   ('ed \<Rightarrow> 'm \<Rightarrow> bool \<Rightarrow> (('n, 'f) membership_error + 'm) option) \<Rightarrow> ('f \<Rightarrow> 'e) \<Rightarrow> (nat \<Rightarrow> nat \<Rightarrow> nat) \<Rightarrow> nat \<Rightarrow>
   nat \<Rightarrow> ('n, 'l, 'c, 'm, 'd, 'ed) raft_msg list \<Rightarrow> command_input list list \<Rightarrow>
   ('n, 'nd, 'l, 'c, 'm, 'd, 's, 'e, 'pp, 'cp, 'gp) raft_core \<Rightarrow>
   ((fatal + nat \<times> ('n, 'l, 'c, 'm, 'd, 'ed) raft_msg list) \<times> (_, _, _, _, _, _, _, _, _, _, _) raft_core) option" where
  "process_raft_msg C change_apply wrap rng now at_most msgs ins c =
     core_then (process_raft_msg_loop C change_apply wrap rng now at_most 0 msgs ins c) (\<lambda>(total_done, msgs, ins) c.
     core_then (run_engine_commands C rng now (next_inputs ins) c) (\<lambda>_ c. core_ok (total_done, msgs) c))"

definition process_notification ::
  "('n::linorder, 'nd, 'l, 'c::linorder, 'm, 'q, 'pp, 'cp, 'gp) raft_type_config \<Rightarrow> (nat \<Rightarrow> nat \<Rightarrow> nat) \<Rightarrow> nat \<Rightarrow>
   nat \<Rightarrow> command_input list \<Rightarrow> ('n, 'nd, 'l, 'c, 'm, 'd, 's, 'e, 'pp, 'cp, 'gp) raft_core \<Rightarrow>
   ((fatal + nat) \<times> (_, _, _, _, _, _, _, _, _, _, _) raft_core) option" where
  "process_notification C rng now at_most inputs c =
     core_then (receive_notifications C rng now at_most c) (\<lambda>processed c.
       if processed > 0 then core_then (run_engine_commands C rng now inputs c) (\<lambda>_ c. core_ok processed c)
       else core_ok processed c)"

section \<open>The main loop\<close>

datatype ('l, 'c, 'm, 's) selected =
    SelectShutdown
  | SelectNotification
  | SelectInstallSnapshot "'l vote" "('c, 'm, 's) snapshot" nat
  | SelectApi

record round_inputs =
  ri_first :: "command_input list"
  ri_msgs :: "command_input list list"
  ri_notifications :: "command_input list"
  ri_last :: "command_input list"

definition rebalance :: "nat \<Rightarrow> nat \<Rightarrow> balancer \<Rightarrow> balancer" where
  "rebalance raft_msg_processed notify_processed b =
     (if notify_processed = bal_notification b then increase_notification b
      else if raft_msg_processed = bal_raft_msg b then increase_raft_msg b
      else b)"

definition select_event ::
  "('n::linorder, 'nd, 'l, 'c::linorder, 'm, 'q, 'pp, 'cp, 'gp) raft_type_config \<Rightarrow> (nat \<Rightarrow> nat \<Rightarrow> nat) \<Rightarrow> nat \<Rightarrow>
   ('l, 'c, 'm, 's) selected \<Rightarrow> ('n, 'nd, 'l, 'c, 'm, 'd, 's, 'e, 'pp, 'cp, 'gp) raft_core \<Rightarrow>
   ((fatal + nat) \<times> (_, _, _, _, _, _, _, _, _, _, _) raft_core) option" where
  "select_event C rng now sel c =
     (case sel of
        SelectShutdown \<Rightarrow> Some (Inl FatalStopped, c)
      | SelectNotification \<Rightarrow> receive_notifications C rng now 1 c
      | SelectInstallSnapshot v sn tx \<Rightarrow>
          map_option (\<lambda>c'. (Inr 0, note_handled (OnInstallSnapshot v) c c')) (handle_install_full_snapshot_request C now v sn tx c)
      | SelectApi \<Rightarrow> core_ok 0 c)"

text \<open>One iteration of \<open>runtime_loop\<close>.\<close>

definition runtime_round ::
  "('n::linorder, 'nd, 'l, 'c::linorder, 'm, 'q, 'pp, 'cp, 'gp) raft_type_config \<Rightarrow>
   ('ed \<Rightarrow> 'm \<Rightarrow> bool \<Rightarrow> (('n, 'f) membership_error + 'm) option) \<Rightarrow> ('f \<Rightarrow> 'e) \<Rightarrow> (nat \<Rightarrow> nat \<Rightarrow> nat) \<Rightarrow> nat \<Rightarrow>
   ('l, 'c, 'm, 's) selected \<Rightarrow> round_inputs \<Rightarrow> balancer \<Rightarrow> ('n, 'l, 'c, 'm, 'd, 'ed) raft_msg list \<Rightarrow>
   ('n, 'nd, 'l, 'c, 'm, 'd, 's, 'e, 'pp, 'cp, 'gp) raft_core \<Rightarrow>
   ((fatal + balancer \<times> ('n, 'l, 'c, 'm, 'd, 'ed) raft_msg list) \<times> (_, _, _, _, _, _, _, _, _, _, _) raft_core) option" where
  "runtime_round C change_apply wrap rng now sel ri b msgs c =
     core_then (select_event C rng now sel c) (\<lambda>_ c.
     core_then (run_engine_commands C rng now (ri_first ri) c) (\<lambda>_ c.
     core_then (process_raft_msg C change_apply wrap rng now (bal_raft_msg b) msgs (ri_msgs ri) c) (\<lambda>(msgs_done, msgs) c.
     core_then (process_notification C rng now (bal_notification b) (ri_notifications ri) c) (\<lambda>notify_done c.
       (case trigger_routine_actions C now c of
          None \<Rightarrow> None
        | Some c \<Rightarrow>
            core_then (run_engine_commands C rng now (ri_last ri) c)
              (\<lambda>_ c. core_ok (rebalance msgs_done notify_done b, msgs) c))))))"

end
