(* ===== verification/CoreRuns.thy ===== *)
theory CoreRuns
  imports CoreCommands
begin

text \<open>
  Each handler of the core is a run of engine steps, given what the events it handles may say.
\<close>

section \<open>Frames\<close>

lemma core_frame [simp]:
  "rc_engine (emit fx c) = rc_engine c" "rc_engine (set_engine e c) = e"
  "rc_engine (reschedule_pending_read_check c) = rc_engine c" "rc_engine (answer_reads r c) = rc_engine c"
  "rc_engine (publish_lease_read_state C c) = rc_engine c" "rc_engine (trigger_reset_backoff to c) = rc_engine c"
  "rc_engine (enqueue x c) = rc_engine c" "rc_engine (discard_responders C d c) = rc_engine c"
  "rc_engine (discard_client_responders_upto C n c) = rc_engine c" "rc_engine (fail_pending_reads C c) = rc_engine c"
  "rc_engine (run_close_replication_streams c) = rc_engine c"
  by (simp_all add: emit_def set_engine_def reschedule_pending_read_check_def answer_reads_def publish_lease_read_state_def
      trigger_reset_backoff_def enqueue_def discard_responders_def discard_client_responders_upto_def fail_pending_reads_def
      run_close_replication_streams_def Let_def)

lemma update_io_step:
  assumes "accepted (apply_progress (f (st_io_state (rc_state c)))) = accepted (apply_progress (st_io_state (rc_state c)))"
  shows "engine_step C (rc_engine c) (rc_engine (update_io f c))"
  unfolding update_io_def core_frame
  by (rule step_io) (simp add: assms local_committed_def)

lemma cursor_accepted [simp]:
  "accepted (try_flush lt p v) = accepted p" "accepted (try_submit lt p v) = accepted p"
  "accepted (io_submit p v) = accepted p" "accepted (io_flush p v) = accepted p"
  by (simp_all add: try_flush_def try_submit_def io_submit_def io_flush_def)

lemma run1: "engine_step C e e' \<Longrightarrow> engine_run C e e'"
  by (rule r_into_rtranclp)

lemma run_push: "engine_run C e (push_command cmd e')" if "engine_run C e e'"
  using that step_output[of C e' "out_push cmd (en_output e')"] unfolding push_command_def by (meson rtranclp.rtrancl_into_rtrancl)

lemmas engine_runs =
  step_elect[THEN run1] step_pre_elect[THEN run1] step_transfer_elect[THEN run1] step_heartbeat[THEN run1]
  step_propose[THEN run1] step_trigger_purge[THEN run1] step_revert[THEN run1] step_refresh[THEN run1]
  step_clock[THEN run1] step_replicate[THEN run1] step_build[THEN run1] step_transfer[THEN run1]

section \<open>What a correct node can hear\<close>

text \<open>
  What is required of a notification and of an event that turns the engine \<open>e\<close> into \<open>e'\<close>: votes and
  entries are those a correct node can hear in this state, a node is initialized before it takes part,
  and a commit point that moves on points to an entry of the log.
\<close>

definition notification_heard ::
  "('n, 'nd, 'l, 'c::linorder, 'm, 'q, 'pp, 'cp, 'gp) raft_type_config \<Rightarrow> ('n, 'l, 'c, 'm) notification \<Rightarrow>
   ('n, 'nd, 'l, 'c, 'm, 'd, 's, 'e, 'pp, 'cp, 'gp) engine \<Rightarrow>
   ('n, 'nd, 'l, 'c, 'm, 'd, 's, 'e, 'pp, 'cp, 'gp) engine \<Rightarrow> bool" where
  "notification_heard C x e e' =
     (case x of
        NVoteResponse _ resp _ \<Rightarrow> vote_heard (tc_lid C) e (uncommitted_into_vote (to_non_committed (vp_vote resp)))
      | NPreVoteResponse _ resp _ \<Rightarrow> vote_heard (tc_lid C) e (uncommitted_into_vote (to_non_committed (vp_vote resp)))
      | NHigherVote _ v _ \<Rightarrow> vote_heard (tc_lid C) e v
      | NLocalIO _ \<Rightarrow> committed_known e'
      | NReplicationProgress _ _ _ \<Rightarrow> committed_known e'
      | NStateMachine (Inr (BuildSnapshotDone meta)) \<Rightarrow>
          batch_end_positive e \<and>
          (case meta of None \<Rightarrow> True
           | Some m \<Rightarrow> next_index (snap_last_log_id m) \<le> next_index (local_committed (en_state e)))
      | _ \<Rightarrow> True)"

definition event_heard ::
  "('n, 'nd, 'l, 'c::linorder, 'm, 'q, 'pp, 'cp, 'gp) raft_type_config \<Rightarrow> ('n, 'l, 'c, 'm, 'd) core_event \<Rightarrow>
   ('n, 'nd, 'l, 'c, 'm, 'd, 's, 'e, 'pp, 'cp, 'gp) engine \<Rightarrow>
   ('n, 'nd, 'l, 'c, 'm, 'd, 's, 'e, 'pp, 'cp, 'gp) engine \<Rightarrow> bool" where
  "event_heard C ev e e' =
     (case ev of
        OnAppendEntries rpc \<Rightarrow>
          segment_heard (tc_lid C) e (aq_vote rpc) \<lparr>seg_prev_log_id = aq_prev_log_id rpc, seg_entries = aq_entries rpc\<rparr> \<and>
          committed_known e'
      | OnRequestVote rpc \<Rightarrow> vote_heard (tc_lid C) e (vq_vote rpc)
      | OnInitialize \<Rightarrow> fresh_node (tc_lid C) e
      | OnOtherMsg \<Rightarrow> True
      | OnInstallSnapshot v \<Rightarrow> leader_node_id (tc_lid C) v \<noteq> own_id e
      | OnNotification x \<Rightarrow> notification_heard C x e e')"

section \<open>Messages\<close>

lemma write_entries_run:
  assumes "write_entries C now payloads responders c = Some (ids, c')"
  shows "engine_run C (rc_engine c) (rc_engine c')"
  using assms
  by (auto simp: write_entries_def bind_eq_Some_conv Let_def split: sum.split_asm option.split_asm dest!: engine_runs(5))

text \<open>A change of the membership is answered with an error, or written as one entry.\<close>

lemma change_membership_cases:
  assumes "change_membership C now ca wrap retain pre payloads tx c = Some c'"
  obtains err where "c' = emit [AnswerWrite tx err] c"
  | payload ids where "write_entries C now [payload] [Some tx] c = Some (ids, c')"
  | payload unused_tx p ids where "write_entries C now [payload] [Some tx] (emit [UnusedPayload unused_tx p] c) = Some (ids, c')"
  using assms unfolding change_membership_def by (auto split: sum.split_asm option.split_asm simp: Let_def)

lemma append_membership_cases:
  assumes "append_membership C now payload pre tx c = Some c'"
  obtains err where "c' = emit [AnswerWrite tx err] c" | ids where "write_entries C now [payload] [Some tx] c = Some (ids, c')"
  using assms unfolding append_membership_def by (auto split: sum.split_asm option.split_asm)

lemma change_membership_run:
  assumes "change_membership C now ca wrap retain pre payloads tx c = Some c'"
  shows "engine_run C (rc_engine c) (rc_engine c')"
  using assms by (rule change_membership_cases) (auto dest: write_entries_run)

lemma append_membership_run:
  assumes "append_membership C now payload pre tx c = Some c'"
  shows "engine_run C (rc_engine c) (rc_engine c')"
  using assms by (rule append_membership_cases) (auto dest: write_entries_run)

lemma handle_get_linearizer_run:
  assumes "handle_get_linearizer C now opt tx c = Some c'"
  shows "engine_run C (rc_engine c) (rc_engine c')"
  using assms
  by (auto simp: handle_get_linearizer_def Let_def bind_eq_Some_conv split: sum.split_asm option.split_asm if_split_asm
      dest!: engine_runs(4))

lemma handle_vote_request_run:
  assumes "vote_heard (tc_lid C) (rc_engine c) (vq_vote req)" "handle_vote_request C now req tx c = Some c'"
  shows "engine_run C (rc_engine c) (rc_engine c')"
proof -
  obtain resp e cmd where "handle_vote_req C now req (rc_engine c) = Some (resp, e)" "rc_engine c' = push_command cmd e"
    using assms(2) by (auto simp: handle_vote_request_def push_respond_def bind_eq_Some_conv)
  then show ?thesis using run_push[OF run1[OF step_vote_req[OF assms(1)]]] by simp
qed

lemma handle_append_entries_request_run:
  assumes "segment_heard (tc_lid C) (rc_engine c) (aq_vote req) \<lparr>seg_prev_log_id = aq_prev_log_id req, seg_entries = aq_entries req\<rparr>"
    "handle_append_entries_request C now req tx c = Some c'" "committed_known (rc_engine c')"
  shows "engine_run C (rc_engine c) (rc_engine c')"
proof -
  obtain e where e: "handle_append_entries C now (aq_vote req) \<lparr>seg_prev_log_id = aq_prev_log_id req, seg_entries = aq_entries req\<rparr>
      tx (rc_engine c) = Some e"
    and c': "rc_engine c' = set_state (update_committed (tc_lid C) (en_state e)
      (LogIOId (to_committed (aq_vote req)) (aq_leader_commit req))) e"
    using assms(2) by (auto simp: handle_append_entries_request_def Let_def bind_eq_Some_conv)
  show ?thesis using step_append[OF assms(1) e] step_commit[OF c' assms(3)]
    by (meson converse_rtranclp_into_rtranclp r_into_rtranclp)
qed

lemma handle_initialize_run:
  assumes fresh: "fresh_node (tc_lid C) (rc_engine c)" and ok: "handle_initialize C rng now m tx c = Some c'"
  shows "engine_run C (rc_engine c) (rc_engine c')"
proof -
  obtain res e where init: "initialize C now m (rc_engine c) = (res, e)" by (rule prod.exhaust)
  have run: "engine_run C (rc_engine c) (push_respond cond r e)" for cond r
    unfolding push_respond_def by (rule run_push[OF run1[OF step_initialize[OF fresh init]]])
  have "elect C rng now d = Some d' \<Longrightarrow> engine_run C (rc_engine c) d \<Longrightarrow> engine_run C (rc_engine c) d'" for d d'
    by (meson step_elect rtranclp.rtrancl_into_rtrancl)
  then show ?thesis using ok run unfolding handle_initialize_def Let_def init by (auto split: sum.split_asm)
qed

lemma core_send_heartbeat_run:
  assumes "core_send_heartbeat C now c = Some (b, c')"
  shows "engine_run C (rc_engine c) (rc_engine c')"
  using assms by (auto simp: core_send_heartbeat_def split: sum.split_asm if_split_asm dest!: engine_runs(4))

lemma core_trigger_snapshot_run: "engine_run C (rc_engine c) (rc_engine (snd (core_trigger_snapshot c)))"
  by (auto simp: core_trigger_snapshot_def split: prod.split intro!: run1 step_build)

lemma handle_external_command_run:
  assumes ok: "handle_external_command C rng now cmd c = Some c'"
  shows "engine_run C (rc_engine c) (rc_engine c')"
proof (cases cmd)
  case (XAllowNextRevert to allow tx)
  show ?thesis
  proof (cases "try_leader_handler C (rc_engine c)")
    case (Inl f)
    then show ?thesis using ok XAllowNextRevert by (auto simp: handle_external_command_def Let_def)
  next
    case (Inr ld)
    then obtain p where p: "allow_next_revert C to allow (rc_engine c) = Some p" "rc_engine c' = snd p"
      using ok XAllowNextRevert by (auto simp: handle_external_command_def Let_def case_prod_unfold)
    then show ?thesis using engine_runs(7)[of C to allow "rc_engine c" "fst p" "snd p"] by simp
  qed
qed (use ok core_trigger_snapshot_run engine_runs(12) in
    \<open>auto simp: handle_external_command_def Let_def dest!: core_send_heartbeat_run engine_runs(1,2,6,8) split: sum.split_asm if_split_asm\<close>)

lemma transfer_leader_msg_run:
  assumes "handle_api_msg C ca wrap rng now (MHandleTransferLeader v to last_log) c = Some c'"
  shows "engine_run C (rc_engine c) (rc_engine c')"
proof (cases "vote_ref (rc_state c) = v")
  case True
  let ?e = "set_state ((rc_state c)\<lparr>st_vote := disable_lease (st_vote (rc_state c))\<rparr>) (rc_engine c)"
  have "rc_engine c' = ?e \<or> elect_by_leadership_transfer C rng now v ?e = Some (rc_engine c')"
    using assms True by (auto simp: handle_api_msg_def Let_def split: if_split_asm)
  then show ?thesis
    using run1[OF step_disable_lease[of C "rc_engine c"]] engine_runs(3)[of C rng now v ?e "rc_engine c'"]
    by (elim disjE) (simp_all add: rtranclp_trans)
qed (use assms in \<open>simp add: handle_api_msg_def\<close>)

lemma client_write_msg_run:
  assumes "handle_api_msg C ca wrap rng now (MClientWrite payloads responders expected) c = Some c'"
  shows "engine_run C (rc_engine c) (rc_engine c')"
  using assms unfolding handle_api_msg_def raft_msg.case Let_def by (auto split: if_split_asm dest!: write_entries_run)

lemma handle_api_msg_run:
  assumes heard: "event_heard C (msg_event msg) (rc_engine c) (rc_engine c')"
    and ok: "handle_api_msg C ca wrap rng now msg c = Some c'"
  shows "engine_run C (rc_engine c) (rc_engine c')"
proof (cases msg)
  case (MAppendEntries rpc tx)
  then show ?thesis using handle_append_entries_request_run heard ok by (auto simp: handle_api_msg_def event_heard_def msg_event_def)
next
  case (MRequestVote rpc tx)
  then show ?thesis using handle_vote_request_run heard ok by (simp add: handle_api_msg_def event_heard_def msg_event_def)
next
  case (MRequestPreVote rpc tx)
  then show ?thesis using ok run_push[OF rtranclp.rtrancl_refl]
    by (auto simp: handle_api_msg_def handle_pre_vote_request_def push_respond_def Let_def)
next
  case (MInitialize m tx)
  then show ?thesis using handle_initialize_run heard ok by (simp add: handle_api_msg_def event_heard_def msg_event_def)
next
  case (MGetLinearizer opt tx)
  then show ?thesis using handle_get_linearizer_run ok by (simp add: handle_api_msg_def)
next
  case (MChangeMembership changes payloads retain pre tx)
  then show ?thesis using change_membership_run ok by (simp add: handle_api_msg_def)
next
  case (MAppendMembership payload pre tx)
  then show ?thesis using append_membership_run ok by (simp add: handle_api_msg_def)
next
  case (MExternalCommand cmd)
  then show ?thesis using handle_external_command_run ok by (simp add: handle_api_msg_def)
next
  case (MWithRaftState req)
  then show ?thesis using ok by (auto simp: handle_api_msg_def)
qed (use ok transfer_leader_msg_run client_write_msg_run in blast)+

section \<open>Timers and notifications\<close>

lemma handle_tick_election_run:
  assumes "handle_tick_election C rng now c = Some c'"
  shows "engine_run C (rc_engine c) (rc_engine c')"
proof -
  have "rc_engine c' = rc_engine c \<or> elect C rng now (reset_greater_log (rc_engine c)) = Some (rc_engine c') \<or>
      pre_elect C rng now (reset_greater_log (rc_engine c)) = Some (rc_engine c')"
    using assms by (auto simp: handle_tick_election_def Let_def split: if_split_asm)
  then show ?thesis
    using run1[OF step_reset_delay[of C "rc_engine c"]] engine_runs(1)[of C rng now _ "rc_engine c'"]
      engine_runs(2)[of C rng now _ "rc_engine c'"]
    by (elim disjE) (simp_all add: rtranclp_trans)
qed

lemma timer_run:
  "engine_run C e d \<Longrightarrow> en_leader d = Some ld \<Longrightarrow> engine_run C e (set_leader (ld\<lparr>next_heartbeat := t\<rparr>) d)"
  by (erule rtranclp.rtrancl_into_rtrancl) (rule step_heartbeat_timer)

lemma handle_tick_run:
  assumes "handle_tick C rng now c = Some c'"
  shows "engine_run C (rc_engine c) (rc_engine c')"
proof -
  obtain c1 where c1: "handle_tick_election C rng now c = Some c1" using assms by (auto simp: handle_tick_def bind_eq_Some_conv)
  have "engine_run C (rc_engine c1) (rc_engine c')"
    using assms unfolding handle_tick_def c1 bind.bind_lunit
    by (auto simp: bind_eq_Some_conv dest!: core_send_heartbeat_run split: option.split_asm if_split_asm)
      (rule timer_run; simp)+
  then show ?thesis using handle_tick_election_run[OF c1] by (rule rtranclp_trans[rotated])
qed

lemma handle_local_io_run:
  assumes ok: "handle_local_io C io_id c = Some c'" and known: "committed_known (rc_engine c')"
  shows "engine_run C (rc_engine c) (rc_engine c')"
proof -
  let ?c = "update_io (\<lambda>io. io\<lparr>log_progress := try_flush (io_lt (tc_lid C)) (log_progress io) io_id\<rparr>) c"
  have "engine_step C (rc_engine c) (rc_engine ?c)" by (rule update_io_step) simp
  moreover have "rc_engine c' = rc_engine ?c \<or> (\<exists>x. update_local_progress C x (rc_engine ?c) = Some (rc_engine c'))"
    using ok by (auto simp: handle_local_io_def Let_def split: io_id.split_asm if_split_asm)
  moreover have "engine_run C (rc_engine ?c) (rc_engine c')" if "update_local_progress C x (rc_engine ?c) = Some (rc_engine c')" for x
    by (rule run1[OF step_local_progress[OF that known]])
  ultimately show ?thesis by (auto intro: converse_rtranclp_into_rtranclp)
qed

lemma handle_state_machine_result_run:
  assumes heard: "notification_heard C (NStateMachine result) (rc_engine c) e'"
    and ok: "handle_state_machine_result C result c = Some (r, c')"
  shows "engine_run C (rc_engine c) (rc_engine c')"
proof (cases result)
  case (Inr resp)
  show ?thesis
  proof (cases resp)
    case (BuildSnapshotDone meta)
    then show ?thesis using Inr ok heard
      by (auto simp: handle_state_machine_result_def notification_heard_def intro!: run1[OF step_built])
  next
    case (InstallSnapshotDone log_io_id meta)
    let ?c = "update_io (\<lambda>io. io\<lparr>log_progress := try_flush (io_lt (tc_lid C)) (log_progress io) (IOLog log_io_id)\<rparr>) c"
    have "engine_step C (rc_engine c) (rc_engine ?c)" by (rule update_io_step) simp
    moreover have "c' = ?c \<or> (\<exists>lst. c' = update_io (\<lambda>io. io\<lparr>apply_progress := try_flush (<) (apply_progress io) lst,
        snapshot_progress := try_flush (<) (snapshot_progress io) lst\<rparr>) ?c)"
      using Inr InstallSnapshotDone ok by (auto simp: handle_state_machine_result_def Let_def split: option.split_asm)
    moreover have "engine_run C (rc_engine ?c) (rc_engine (update_io (\<lambda>io. io\<lparr>apply_progress := try_flush (<) (apply_progress io) lst,
        snapshot_progress := try_flush (<) (snapshot_progress io) lst\<rparr>) ?c))" for lst by (rule run1[OF update_io_step]) simp
    ultimately show ?thesis by (auto intro: converse_rtranclp_into_rtranclp)
  next
    case (ApplyDone since upto lst)
    then show ?thesis using Inr ok
      by (auto simp: handle_state_machine_result_def intro!: run1[OF update_io_step])
  qed
qed (use ok in \<open>simp add: handle_state_machine_result_def\<close>)

lemma process_pending_reads_engine: "process_pending_reads C now c = Some c' \<Longrightarrow> rc_engine c' = rc_engine c"
  by (auto simp: process_pending_reads_def bind_eq_Some_conv split: sum.split_asm option.split_asm)

lemma handle_notification_run:
  assumes heard: "notification_heard C x (rc_engine c) (rc_engine c')" and ok: "handle_notification C rng now x c = Some (r, c')"
  shows "engine_run C (rc_engine c) (rc_engine c')"
proof -
  obtain c1 where c1: "handle_notification_inner C rng now x c = Some (r, c1)" and eq: "rc_engine c1 = rc_engine c'"
    using ok by (cases r) (auto simp: handle_notification_def split: sum.split_asm)
  have "engine_run C (rc_engine c) (rc_engine c1)"
  proof (cases x)
    case (NVoteResponse t resp v)
    then show ?thesis using c1 heard
      by (auto simp: handle_notification_inner_def Let_def notification_heard_def split: if_split_asm intro!: run1[OF step_vote_resp])
  next
    case (NPreVoteResponse t resp v)
    then show ?thesis using c1 heard
      by (auto simp: handle_notification_inner_def Let_def notification_heard_def split: if_split_asm intro!: run1[OF step_pre_vote_resp])
  next
    case (NHigherVote t higher v)
    then show ?thesis using c1 heard
      by (auto simp: handle_notification_inner_def Let_def notification_heard_def split: if_split_asm intro!: run1[OF step_higher_vote])
  next
    case (NLocalIO io_id)
    then show ?thesis using c1 handle_local_io_run[of C io_id c c1] heard eq
      by (auto simp: handle_notification_inner_def Let_def notification_heard_def)
  next
    case (NLogPurged up_to)
    then show ?thesis using c1 by (auto simp: handle_notification_inner_def Let_def intro!: run1[OF update_io_step])
  next
    case (NReplicationProgress sid p i)
    then show ?thesis using c1 heard eq
      by (auto simp: handle_notification_inner_def Let_def notification_heard_def split: if_split_asm intro!: run1[OF step_progress])
  next
    case (NHeartbeatProgress sid at t)
    then show ?thesis using c1
      by (auto simp: handle_notification_inner_def Let_def split: if_split_asm dest!: engine_runs(9))
  next
    case (NStateMachine res)
    then show ?thesis using c1 handle_state_machine_result_run[OF heard[unfolded NStateMachine]] by (auto simp: handle_notification_inner_def Let_def)
  next
    case (NTick i)
    then show ?thesis using c1 handle_tick_run by (auto simp: handle_notification_inner_def Let_def)
  qed (use c1 in \<open>auto simp: handle_notification_inner_def Let_def dest: process_pending_reads_engine\<close>)
  then show ?thesis by (simp add: eq)
qed

end
