(* ===== verification/CoreLoop.thy ===== *)
theory CoreLoop
  imports CoreRuns
begin

text \<open>
  The loop of the core as a run of the abstract node.  It handles messages, snapshots and
  notifications, which its history keeps, and does work of its own in between, such as the execution of
  a command, which leaves the view of the engine as it is.
\<close>

section \<open>Commands leave the view and the history\<close>

abbreviation core_view where "core_view c \<equiv> view (rc_engine c)"

text \<open>Work of the core's own between two events.\<close>

definition own_work ::
  "('n, 'nd, 'l, 'c, 'm, 'd, 's, 'e, 'pp, 'cp, 'gp) raft_core \<Rightarrow> ('n, 'nd, 'l, 'c, 'm, 'd, 's, 'e, 'pp, 'cp, 'gp) raft_core \<Rightarrow> bool" where
  "own_work c c' \<longleftrightarrow> core_view c' = core_view c \<and> rc_handled c' = rc_handled c"

lemma own_work_refl [simp]: "own_work c c"
  by (simp add: own_work_def)

lemma handled_emit [simp]:
  "rc_handled (emit fx c) = rc_handled c" "rc_handled (set_engine e c) = rc_handled c"
  "rc_handled (reschedule_pending_read_check c) = rc_handled c" "rc_handled (answer_reads r c) = rc_handled c"
  by (simp_all add: emit_def set_engine_def reschedule_pending_read_check_def answer_reads_def)

lemma handled_frame [simp]:
  "rc_handled (publish_lease_read_state C c) = rc_handled c" "rc_handled (trigger_reset_backoff to c) = rc_handled c"
  "rc_handled (enqueue x c) = rc_handled c" "rc_handled (discard_responders C d c) = rc_handled c"
  "rc_handled (discard_client_responders_upto C n c) = rc_handled c" "rc_handled (fail_pending_reads C c) = rc_handled c"
  "rc_handled (run_close_replication_streams c) = rc_handled c" "rc_handled (update_io f c) = rc_handled c"
  "rc_handled (submit_log_io C io_id c) = rc_handled c" "rc_handled (set_output out c) = rc_handled c"
  "rc_handled (send_satisfied_responds C c) = rc_handled c"
  by (simp_all add: publish_lease_read_state_def
      trigger_reset_backoff_def enqueue_def discard_responders_def discard_client_responders_upto_def fail_pending_reads_def
      run_close_replication_streams_def update_io_def submit_log_io_def set_output_def send_satisfied_responds_def
      case_prod_beta Let_def)

lemma update_io_view:
  assumes "accepted (apply_progress (f (st_io_state (rc_state c)))) = accepted (apply_progress (st_io_state (rc_state c)))"
  shows "core_view (update_io f c) = core_view c"
  unfolding update_io_def core_frame by (rule io_state_view) (simp add: assms local_committed_def)

lemma core_views [simp]:
  "core_view (submit_log_io C io_id c) = core_view c" "core_view (set_output out c) = core_view c"
  "core_view (send_satisfied_responds C c) = core_view c"
  by (simp_all add: submit_log_io_def update_io_view set_output_def send_satisfied_responds_def case_prod_beta Let_def)

lemma broadcast_frame: "broadcast_to C ts f c = Some c' \<Longrightarrow> rc_engine c' = rc_engine c \<and> rc_handled c' = rc_handled c"
  by (auto simp: broadcast_to_def Let_def split: if_split_asm)

lemma broadcast_heartbeat_own: "broadcast_heartbeat C now sid bypass c = Some c' \<Longrightarrow> own_work c c'"
  by (auto simp: own_work_def broadcast_heartbeat_def try_leader_handler_def Let_def bind_eq_Some_conv core_bookkeeping_view
      split: option.split_asm if_split_asm)

lemma rebuild_streams_frame [simp]:
  "rc_engine (rebuild_streams_loop C cv close ts new c) = rc_engine c \<and>
   rc_handled (rebuild_streams_loop C cv close ts new c) = rc_handled c"
proof (induction ts arbitrary: new c)
  case (Cons prog rest)
  then show ?case by (cases "bm_get (replications c) (tp_target prog)"; cases close) (simp_all add: Let_def)
qed simp

lemma log_command_own:
  "run_append_entries C inp cv entries c = Some (Inr u, c') \<Longrightarrow> own_work c c'"
  "run_save_vote C inp v c = Some (Inr u, c') \<Longrightarrow> own_work c c'"
  "run_purge_log C inp up_to c = Some (Inr u, c') \<Longrightarrow> own_work c c'"
  "run_truncate_log C inp after c = Some (Inr u, c') \<Longrightarrow> own_work c c'"
  subgoal by (auto simp: own_work_def run_append_entries_def bind_eq_Some_conv core_runs Let_def)
  subgoal by (auto simp: own_work_def run_save_vote_def core_runs Let_def split: vote_status.split)
  subgoal by (auto simp: own_work_def run_purge_log_def core_runs Let_def update_io_view)
  subgoal by (auto simp: own_work_def run_truncate_log_def core_runs)
  done

lemma stream_command_own:
  "spawn_parallel_vote_requests C req pre c = Some c' \<Longrightarrow> own_work c c'"
  "broadcast_transfer_leader C treq c = Some c' \<Longrightarrow> own_work c c'"
  "run_replicate C target rreq c = Some c' \<Longrightarrow> own_work c c'"
  "run_replicate_snapshot C cv target inflight c = Some c' \<Longrightarrow> own_work c c'"
  subgoal unfolding spawn_parallel_vote_requests_def own_work_def by (drule broadcast_frame) simp
  subgoal unfolding broadcast_transfer_leader_def Let_def own_work_def by (drule broadcast_frame) simp
  subgoal by (auto simp: own_work_def run_replicate_def split: if_split_asm)
  subgoal by (auto simp: own_work_def run_replicate_snapshot_def bind_eq_Some_conv split: if_split_asm)
  done

lemma run_rebuild_frame [simp]:
  "rc_engine (run_rebuild_replication_streams C cv targets close c) = rc_engine c"
  "rc_handled (run_rebuild_replication_streams C cv targets close c) = rc_handled c"
  by (simp_all add: run_rebuild_replication_streams_def)

lemma core_async_runs [core_runs]: "core_async r = Some (Inr x, c') \<longleftrightarrow> r = Some (Inr (), c') \<and> x = None"
  by (auto simp: core_async_def core_runs)

lemma process_pending_reads_frame:
  "process_pending_reads C now c = Some c' \<Longrightarrow> rc_engine c' = rc_engine c \<and> rc_handled c' = rc_handled c"
  by (auto simp: process_pending_reads_def bind_eq_Some_conv split: sum.split_asm option.split_asm)

lemma trigger_routine_actions_own:
  assumes "trigger_routine_actions C now c = Some c'"
  shows "own_work c c'"
  using assms unfolding own_work_def
  by (auto simp: trigger_routine_actions_def core_trigger_snapshot_def Let_def bind_eq_Some_conv case_prod_beta
      trigger_snapshot_view[OF surjective_pairing] dest!: process_pending_reads_frame initiate_replication_view
      split: option.split_asm sum.split_asm if_split_asm)

section \<open>Relations kept along the loop\<close>

text \<open>
  A relation between the core before and after that is reflexive, transitive and holds for every
  notification holds for a batch of them.
\<close>

locale notification_closed =
  fixes C :: "('n::linorder, 'nd, 'l, 'c::linorder, 'm, 'q, 'pp, 'cp, 'gp) raft_type_config"
    and rng :: "nat \<Rightarrow> nat \<Rightarrow> nat"
    and R :: "('n, 'nd, 'l, 'c, 'm, 'd, 's, 'e, 'pp, 'cp, 'gp) raft_core \<Rightarrow> (_, _, _, _, _, _, _, _, _, _, _) raft_core \<Rightarrow> bool"
  assumes R_refl: "R c c" and R_trans: "R c d \<Longrightarrow> R d f \<Longrightarrow> R c f"
    and R_notify: "notify_channel c = x # rest \<Longrightarrow>
      handle_notification C rng now x (c\<lparr>notify_channel := rest\<rparr>) = Some (Inr u, d) \<Longrightarrow>
      R c (note_handled (OnNotification x) c d)"
    and R_channel: "R c (c\<lparr>notify_channel := notify_channel c @ pending_notifications c, pending_notifications := []\<rparr>)"
begin

lemma receive_notifications_R: "receive_notifications C rng now n c = Some (Inr k, d) \<Longrightarrow> R c d"
proof (induction n arbitrary: c k)
  case (Suc n)
  then show ?case
    by (auto simp: core_runs R_refl split: list.split_asm dest!: R_notify intro: R_trans)
qed (simp add: core_runs R_refl)

lemma flush_notifications_R: "flush_notifications C rng now n c = Some (Inr k, d) \<Longrightarrow> R c d"
  unfolding flush_notifications_def
  by (auto simp: core_runs R_refl split: if_split_asm dest!: receive_notifications_R intro: R_trans R_channel)

end

text \<open>
  The same for the rest of the loop.  The relation on the queue of API messages and the core follows
  the messages that are taken from the queue.
\<close>

locale core_closed = notification_closed C rng R
  for C :: "('n::linorder, 'nd, 'l, 'c::linorder, 'm, 'q, 'pp, 'cp, 'gp) raft_type_config"
    and rng :: "nat \<Rightarrow> nat \<Rightarrow> nat"
    and R :: "('n, 'nd, 'l, 'c, 'm, 'd, 's, 'e, 'pp, 'cp, 'gp) raft_core \<Rightarrow> (_, _, _, _, _, _, _, _, _, _, _) raft_core \<Rightarrow> bool" +
  fixes change_apply :: "'ed \<Rightarrow> 'm \<Rightarrow> bool \<Rightarrow> (('n, 'f) membership_error + 'm) option" and wrap :: "'f \<Rightarrow> 'e"
    and T :: "('n, 'l, 'c, 'm, 'd, 'ed) raft_msg list \<times> ('n, 'nd, 'l, 'c, 'm, 'd, 's, 'e, 'pp, 'cp, 'gp) raft_core \<Rightarrow>
      ('n, 'l, 'c, 'm, 'd, 'ed) raft_msg list \<times> (_, _, _, _, _, _, _, _, _, _, _) raft_core \<Rightarrow> bool"
  assumes R_command: "run_command C rng now inp cmd c = Some (Inr r, d) \<Longrightarrow> R c d"
    and R_output: "R c (set_output out c)"
    and R_responds: "R c (send_satisfied_responds C (publish_lease_read_state C c))"
    and R_routine: "trigger_routine_actions C now c = Some d \<Longrightarrow> R c d"
    and R_install: "handle_install_full_snapshot_request C now v sn tx c = Some d \<Longrightarrow>
      R c (note_handled (OnInstallSnapshot v) c d)"
    and T_core: "R c d \<Longrightarrow> T (msgs, c) (msgs, d)" and T_trans: "T x y \<Longrightarrow> T y z \<Longrightarrow> T x z"
    and T_api: "msg_try_recv (api_batch_capacity (rc_config c)) msgs = Some (msg, rest) \<Longrightarrow>
      handle_api_msg C change_apply wrap rng now msg c = Some d \<Longrightarrow> T (msgs, c) (rest, note_handled (msg_event msg) c d)"
begin

lemma run_commands_loop_R: "run_commands_loop C rng now inputs c = Some (Inr left, d) \<Longrightarrow> R c d"
proof (induction inputs arbitrary: c left)
  case (Cons inp inputs)
  obtain next_cmd out where pop:
      "out_pop (merge_front_append_entries (unwrap_or 4096 (cf_max_append_entries (rc_config c))) (en_output (rc_engine c))) =
       (next_cmd, out)"
    by (rule prod.exhaust)
  show ?case
  proof (cases next_cmd)
    case None
    then show ?thesis using Cons.prems pop by (simp add: core_runs R_output)
  next
    case (Some cmd)
    then obtain res d1 where d1: "run_command C rng now inp cmd (set_output out c) = Some (Inr res, d1)" and
        rest: "(case res of
               None \<Rightarrow>
                 core_then (flush_notifications C rng now (ci_flushed inp) d1) (\<lambda>_ c. run_commands_loop C rng now inputs c)
             | Some cmd \<Rightarrow>
                 (case postpone_command cmd (en_output (rc_engine d1)) of
                    None \<Rightarrow> None
                  | Some (Inr _, out) \<Rightarrow> run_commands_loop C rng now inputs (set_output out d1)
                  | Some (Inl _, out) \<Rightarrow> core_ok inputs (set_output out d1))) = Some (Inr left, d)"
      using Cons.prems pop by (auto simp only: run_commands_loop.simps core_runs prod.case option.case)
    have "R c d1" by (rule R_trans[OF R_output R_command[OF d1]])
    moreover have "R d1 d"
      using rest
      by (auto simp: core_runs R_output split: prod.split_asm option.split_asm sum.split_asm
          dest!: flush_notifications_R Cons.IH intro: R_trans R_output)
    ultimately show ?thesis by (rule R_trans)
  qed
qed (simp add: core_runs R_refl)

lemma run_progress_driven_R: "run_progress_driven_command C rng now inputs c = Some (Inr left, d) \<Longrightarrow> R c d"
proof (induction inputs arbitrary: c left)
  case (Cons inp inputs)
  then show ?case
    by (auto simp: core_runs R_refl split: option.split_asm dest!: R_command flush_notifications_R intro: R_trans)
qed (simp add: core_runs R_refl)

lemma run_engine_commands_R: "run_engine_commands C rng now inputs c = Some (Inr left, d) \<Longrightarrow> R c d"
  unfolding run_engine_commands_def
  by (auto simp: core_runs dest!: run_commands_loop_R run_progress_driven_R intro: R_trans R_responds)

lemma process_raft_msg_loop_T:
  "process_raft_msg_loop C change_apply wrap rng now n k msgs ins c = Some (Inr (k', msgs', ins'), d) \<Longrightarrow> T (msgs, c) (msgs', d)"
proof (induction n arbitrary: k msgs ins c)
  case (Suc n)
  show ?case
  proof (cases "(msgs', d) = (msgs, c)")
    case True
    then show ?thesis by (simp add: R_refl T_core)
  next
    case False
    then obtain msg rest c1 c2 u where recv: "msg_try_recv (api_batch_capacity (rc_config c)) msgs = Some (msg, rest)"
      and c1: "handle_api_msg C change_apply wrap rng now msg c = Some c1"
      and c2: "run_engine_commands C rng now (next_inputs ins) (note_handled (msg_event msg) c c1) = Some (Inr u, c2)"
      and loop: "process_raft_msg_loop C change_apply wrap rng now n (Suc k) rest (tl ins) c2 = Some (Inr (k', msgs', ins'), d)"
      using Suc.prems by (auto simp: core_runs split: if_split_asm option.split_asm prod.split_asm)
    show ?thesis
      by (rule T_trans[OF T_api[OF recv c1] T_trans[OF T_core[OF run_engine_commands_R[OF c2]] Suc.IH[OF loop]]])
  qed
qed (auto simp: core_runs R_refl T_core)

lemma process_raft_msg_T:
  "process_raft_msg C change_apply wrap rng now n msgs ins c = Some (Inr (k, msgs'), d) \<Longrightarrow> T (msgs, c) (msgs', d)"
  unfolding process_raft_msg_def
  by (auto simp: core_runs dest!: process_raft_msg_loop_T run_engine_commands_R intro: T_trans T_core)

lemma process_notification_R: "process_notification C rng now n inputs c = Some (Inr k, d) \<Longrightarrow> R c d"
  unfolding process_notification_def
  by (auto simp: core_runs split: if_split_asm dest!: receive_notifications_R run_engine_commands_R intro: R_trans)

lemma select_event_R: "select_event C rng now sel c = Some (Inr k, d) \<Longrightarrow> R c d"
  unfolding select_event_def
  by (cases sel) (auto simp: core_runs R_refl simp del: receive_notifications.simps dest: receive_notifications_R R_install)

lemma runtime_round_T:
  assumes "runtime_round C change_apply wrap rng now sel ri b msgs c = Some (Inr (b', msgs'), d)"
  shows "T (msgs, c) (msgs', d)"
proof -
  obtain c1 c2 c3 c4 c5 c6 msgs2 where "R c c1" "R c1 c2" and T: "T (msgs, c2) (msgs', c3)" and "R c3 c4" "R c4 c5" "R c5 d"
    using assms unfolding runtime_round_def
    by (fastforce simp: core_runs split: option.split_asm
        dest: select_event_R run_engine_commands_R process_raft_msg_T process_notification_R R_routine)
  then have "R c c2" "R c3 d" by (blast intro: R_trans)+
  then show ?thesis using T by (blast intro: T_trans T_core)
qed

end

section \<open>The loop as a run of the node\<close>

text \<open>
  The core has handled some events, and when all of them are ones a correct node can hear, its view has
  gone through a run of the abstract node.
\<close>

definition heard_all ::
  "('n, 'nd, 'l, 'c::linorder, 'm, 'q, 'pp, 'cp, 'gp) raft_type_config \<Rightarrow>
   (('n, 'l, 'c, 'm, 'd) core_event \<times> ('n, 'nd, 'l, 'c, 'm, 'd, 's, 'e, 'pp, 'cp, 'gp) engine \<times>
    ('n, 'nd, 'l, 'c, 'm, 'd, 's, 'e, 'pp, 'cp, 'gp) engine) list \<Rightarrow> bool" where
  "heard_all C evs \<longleftrightarrow> list_all (\<lambda>(ev, e, e'). event_heard C ev e e') evs"

definition refines_heard ::
  "('n, 'nd, 'l, 'c::linorder, 'm, 'q, 'pp, 'cp, 'gp) raft_type_config \<Rightarrow>
   ('n, 'nd, 'l, 'c, 'm, 'd, 's, 'e, 'pp, 'cp, 'gp) raft_core \<Rightarrow> ('n, 'nd, 'l, 'c, 'm, 'd, 's, 'e, 'pp, 'cp, 'gp) raft_core \<Rightarrow> bool" where
  "refines_heard C c c' \<longleftrightarrow>
     (\<exists>evs. rc_handled c' = rc_handled c @ evs \<and>
        (raft_leader_id (tc_lid C) \<longrightarrow> node_inv (tc_lid C) (core_view c) \<longrightarrow> heard_all C evs \<longrightarrow>
         node_run (tc_lid C) (core_view c) (core_view c')))"

lemma refines_own: "own_work c c' \<Longrightarrow> refines_heard C c c'"
  by (simp add: refines_heard_def own_work_def heard_all_def)

lemma refines_trans:
  assumes "refines_heard C c d" "refines_heard C d f"
  shows "refines_heard C c f"
proof -
  let ?L = "tc_lid C"
  obtain evs evs' where h: "rc_handled d = rc_handled c @ evs" "rc_handled f = rc_handled d @ evs'"
    and run: "raft_leader_id ?L \<Longrightarrow> node_inv ?L (core_view c) \<Longrightarrow> heard_all C evs \<Longrightarrow> node_run ?L (core_view c) (core_view d)"
      "raft_leader_id ?L \<Longrightarrow> node_inv ?L (core_view d) \<Longrightarrow> heard_all C evs' \<Longrightarrow> node_run ?L (core_view d) (core_view f)"
    using assms unfolding refines_heard_def by blast
  have "node_run ?L (core_view c) (core_view f)"
    if "raft_leader_id ?L" "node_inv ?L (core_view c)" "heard_all C evs" "heard_all C evs'"
    using run(1)[OF that(1-3)] run(2)[OF that(1) _ that(4)] raft_leader_id.run_inv[OF that(1) _ that(2)] by (meson rtranclp_trans)
  then show ?thesis using h unfolding refines_heard_def by (intro exI[of _ "evs @ evs'"]) (simp add: heard_all_def)
qed

lemma refines_event:
  assumes "event_heard C ev (rc_engine c) (rc_engine d) \<Longrightarrow> engine_run C (rc_engine c) (rc_engine d)"
  shows "refines_heard C c (note_handled ev c d)"
  using assms engine_run_refines[of C "rc_engine c" "rc_engine d"]
  by (auto simp: refines_heard_def note_handled_def heard_all_def)

lemma refines_notify:
  "handle_notification C rng now x (c\<lparr>notify_channel := rest\<rparr>) = Some (Inr u, d) \<Longrightarrow>
   refines_heard C c (note_handled (OnNotification x) c d)"
  using handle_notification_run[of C x "c\<lparr>notify_channel := rest\<rparr>" d rng now "Inr u"]
  by (intro refines_event) (simp add: event_heard_def)

lemma refines_install:
  fixes C :: "('n::linorder, 'nd, 'l, 'c::linorder, 'm, 'q, 'pp, 'cp, 'gp) raft_type_config"
  assumes "handle_install_full_snapshot_request C now v sn tx c = Some d"
  shows "refines_heard C c (note_handled (OnInstallSnapshot v) c d)"
  using assms
  by (intro refines_event run1[OF step_install[of C v _ now sn tx]])
    (auto simp: event_heard_def handle_install_full_snapshot_request_def)

interpretation batch: notification_closed C rng "refines_heard C" for C rng
  by unfold_locales (auto intro: refines_own refines_trans refines_notify simp: own_work_def)

lemma send_sm_command_refines:
  assumes "send_sm_command C rng now inp cmd c1 = Some (Inr u, c')" "own_work c c1"
  shows "refines_heard C c c'"
proof -
  obtain k c2 where rcv: "receive_notifications C rng now (ci_received inp) c1 = Some (Inr k, c2)" and c': "c' = emit [SmSend cmd] c2"
    using assms(1) by (cases "ci_send inp") (auto simp: send_sm_command_def core_runs)
  show ?thesis
    by (rule refines_trans[OF refines_own[OF assms(2)] refines_trans[OF batch.receive_notifications_R[OF rcv] refines_own]])
      (simp add: c' own_work_def)
qed

lemma apply_command_refines:
  assumes "run_save_committed_and_apply C rng now inp a up_to c = Some (Inr u, c')"
  shows "refines_heard C c c'"
  using assms
  by (auto simp: run_save_committed_and_apply_def apply_to_state_machine_def Let_def core_runs bind_eq_Some_conv case_prod_beta
      update_io_view own_work_def intro: send_sm_command_refines)

lemma run_state_machine_refines:
  assumes "run_state_machine C rng now inp cmd c = Some (Inr u, c')"
  shows "refines_heard C c c'"
  by (rule send_sm_command_refines[OF assms[unfolded run_state_machine_def Let_def]])
    (simp add: update_io_view own_work_def split: option.split)

lemma own_commands:
  "refines_heard C c (enqueue x (submit_log_io C io_id c))" "refines_heard C c (c\<lparr>io_committed := committed\<rparr>)"
  "refines_heard C c (run_close_replication_streams c)" "refines_heard C c (fail_pending_reads C c)"
  "refines_heard C c (run_rebuild_replication_streams C cv targets close c)" "refines_heard C c (emit fx c)"
  by (rule refines_own, simp add: own_work_def)+

lemma run_command_refines:
  assumes ok: "run_command C rng now inp cmd c = Some (Inr r, c')"
  shows "refines_heard C c c'"
proof (cases "case command_condition cmd of None \<Rightarrow> False | Some cond \<Rightarrow> \<not> is_met (tc_lid C) cond (st_io_state (rc_state c))")
  case True
  then show ?thesis using ok by (simp add: run_command_def refines_own)
next
  case False
  note run = ok[unfolded run_command_def if_not_P[OF False]]
  show ?thesis
    by (cases cmd) (use run in \<open>auto simp: core_runs run_update_io_progress_def own_commands
        dest: log_command_own broadcast_heartbeat_own stream_command_own
        intro: apply_command_refines run_state_machine_refines refines_own\<close>)
qed

interpretation rounds: core_closed C rng "refines_heard C" ca wrap "\<lambda>x y. refines_heard C (snd x) (snd y)" for C rng ca wrap
  by unfold_locales
    (auto intro: refines_own refines_trans refines_install refines_event handle_api_msg_run trigger_routine_actions_own
      run_command_refines simp: own_work_def)

end
