(* ===== verification/CoreClients.thy ===== *)
theory CoreClients
  imports CoreLoop
begin

text \<open>
  The clients of the core: who waits for an answer, and who has got one.  No round of the loop loses
  a client or answers one twice.
\<close>

section \<open>Clients\<close>

datatype client = Writer nat | Reader nat | Reverter nat | Viewer nat

fun effect_clients :: "('n, 'nd, 'l, 'c, 'm, 'd, 's, 'e) core_effect \<Rightarrow> client list" where
  "effect_clients (AnswerWrite tx _) = [Writer tx]"
| "effect_clients (CommitNotice tx _) = [Writer tx]"
| "effect_clients (AnswerRead tx _) = [Reader tx]"
| "effect_clients (AnswerRevert tx _) = [Reverter tx]"
| "effect_clients (ShowState tx _) = [Viewer tx]"
| "effect_clients _ = []"

definition answered :: "('n, 'nd, 'l, 'c, 'm, 'd, 's, 'e) core_effect list \<Rightarrow> client multiset" where
  "answered fx = mset (concat (map effect_clients fx))"

definition waiting :: "('n, 'nd, 'l, 'c, 'm, 'd, 's, 'e, 'pp, 'cp, 'gp) raft_core \<Rightarrow> client multiset" where
  "waiting c =
     mset (map (\<lambda>x. Writer (snd x)) (client_responders c)) +
     mset (map (\<lambda>x. Reader (pr_tx (snd x))) (pq_reads (pending_reads c)))"

definition clients :: "('n, 'nd, 'l, 'c, 'm, 'd, 's, 'e, 'pp, 'cp, 'gp) raft_core \<Rightarrow> client multiset" where
  "clients c = waiting c + answered (rc_effects c)"

definition msg_clients :: "('n, 'l, 'c, 'm, 'd, 'ed) raft_msg \<Rightarrow> client multiset" where
  "msg_clients msg =
     (case msg of
        MClientWrite _ responders _ \<Rightarrow> mset (map Writer (List.map_filter id responders))
      | MChangeMembership _ _ _ _ tx \<Rightarrow> {#Writer tx#}
      | MAppendMembership _ _ tx \<Rightarrow> {#Writer tx#}
      | MGetLinearizer _ tx \<Rightarrow> {#Reader tx#}
      | MWithRaftState tx \<Rightarrow> {#Viewer tx#}
      | MExternalCommand (XAllowNextRevert _ _ tx) \<Rightarrow> {#Reverter tx#}
      | _ \<Rightarrow> {#})"

text \<open>The writers told that their entry is committed, and those handed to the state machine.\<close>

fun effect_noticed :: "('n, 'nd, 'l, 'c, 'm, 'd, 's, 'e) core_effect \<Rightarrow> nat list" where
  "effect_noticed (CommitNotice tx _) = [tx]"
| "effect_noticed _ = []"

fun command_handed :: "('l, 'c, 'm, 's) sm_command \<Rightarrow> nat list" where
  "command_handed (ApplyLogs _ _ responders) = map snd responders"
| "command_handed _ = []"

fun effect_handed :: "('n, 'nd, 'l, 'c, 'm, 'd, 's, 'e) core_effect \<Rightarrow> nat list" where
  "effect_handed (SmSend cmd) = command_handed cmd"
| "effect_handed _ = []"

definition noticed where "noticed c = mset (concat (map effect_noticed (rc_effects c)))"
definition handed where "handed c = mset (concat (map effect_handed (rc_effects c)))"

text \<open>
  A request to write comes with one responder, or none, for each payload.
\<close>

definition msg_wf :: "('n, 'l, 'c, 'm, 'd, 'ed) raft_msg \<Rightarrow> bool" where
  "msg_wf msg = (case msg of MClientWrite payloads responders _ \<Rightarrow> length payloads = length responders | _ \<Rightarrow> True)"

definition conserves ::
  "('n, 'nd, 'l, 'c, 'm, 'd, 's, 'e, 'pp, 'cp, 'gp) raft_core \<Rightarrow> (_, _, _, _, _, _, _, _, _, _, _) raft_core \<Rightarrow> client multiset \<Rightarrow> bool" where
  "conserves c d new =
     ((pending_reads_wf (pending_reads c) \<longrightarrow> pending_reads_wf (pending_reads d) \<and> clients d = clients c + new) \<and>
      noticed d + handed c \<subseteq># handed d + noticed c)"

lemma conserves_refl [simp]: "conserves c c {#}"
  by (simp add: conserves_def add.commute)

lemma conserves_trans: "conserves c d x \<Longrightarrow> conserves d f y \<Longrightarrow> conserves c f (x + y)"
proof -
  assume a: "conserves c d x" "conserves d f y"
  have "(noticed d + handed c) + (noticed f + handed d) \<subseteq># (handed d + noticed c) + (handed f + noticed d)"
    using a unfolding conserves_def by (intro subset_mset.add_mono[of "noticed d + handed c"]) blast+
  then have "(noticed d + handed d) + (noticed f + handed c) \<subseteq># (noticed d + handed d) + (handed f + noticed c)"
    by (simp only: ac_simps)
  then have "noticed f + handed c \<subseteq># handed f + noticed c" by (simp only: mset_subset_eq_mono_add_left_cancel)
  with a show ?thesis by (simp add: conserves_def add.assoc)
qed

lemma conserves_trans0: "conserves c d {#} \<Longrightarrow> conserves d f {#} \<Longrightarrow> conserves c f {#}"
  using conserves_trans[of c d "{#}" f "{#}"] by simp

text \<open>Work that leaves the queues of clients alone.\<close>

lemma conserves_emit:
  assumes "client_responders d = client_responders c" "pending_reads d = pending_reads c" "rc_effects d = rc_effects c @ fx"
    "list_all (\<lambda>x. effect_noticed x = []) fx" "new = answered fx"
  shows "conserves c d new"
proof -
  have "concat (map effect_noticed fx) = []" using assms(4) by (simp add: list_all_iff)
  with assms show ?thesis
    by (simp add: conserves_def clients_def waiting_def answered_def noticed_def handed_def del: concat_eq_Nil_conv)
qed

lemma conserves_silent:
  assumes "client_responders d = client_responders c" "pending_reads d = pending_reads c" "rc_effects d = rc_effects c @ fx"
    "list_all (\<lambda>x. effect_noticed x = [] \<and> effect_clients x = []) fx"
  shows "conserves c d {#}"
proof -
  have "concat (map effect_clients fx) = []" using assms(4) by (simp add: list_all_iff)
  then show ?thesis using assms by (intro conserves_emit) (auto simp: answered_def list_all_iff)
qed

lemma conserves_quiet:
  "client_responders d = client_responders c \<Longrightarrow> pending_reads d = pending_reads c \<Longrightarrow> rc_effects d = rc_effects c \<Longrightarrow>
   conserves c d {#}"
  by (rule conserves_silent[where fx = "[]"]) simp_all

lemma books [simp]:
  "rc_effects (emit fx c) = rc_effects c @ fx" "client_responders (emit fx c) = client_responders c"
  "pending_reads (emit fx c) = pending_reads c"
  "rc_effects (set_engine e c) = rc_effects c" "client_responders (set_engine e c) = client_responders c"
  "pending_reads (set_engine e c) = pending_reads c"
  "rc_effects (update_io f c) = rc_effects c" "client_responders (update_io f c) = client_responders c"
  "pending_reads (update_io f c) = pending_reads c"
  "rc_effects (reschedule_pending_read_check c) = rc_effects c"
  "client_responders (reschedule_pending_read_check c) = client_responders c"
  "pending_reads (reschedule_pending_read_check c) = pending_reads c"
  "rc_effects (enqueue x c) = rc_effects c" "client_responders (enqueue x c) = client_responders c"
  "pending_reads (enqueue x c) = pending_reads c"
  "rc_effects (set_output out c) = rc_effects c" "client_responders (set_output out c) = client_responders c"
  "pending_reads (set_output out c) = pending_reads c"
  by (simp_all add: emit_def set_engine_def update_io_def reschedule_pending_read_check_def enqueue_def set_output_def Let_def)

lemma ordered_books [simp]:
  "rc_effects (publish_lease_read_state C c) = rc_effects c"
  "client_responders (publish_lease_read_state C c) = client_responders c"
  "pending_reads (publish_lease_read_state C c) = pending_reads c"
  "rc_effects (submit_log_io C io_id c) = rc_effects c" "client_responders (submit_log_io C io_id c) = client_responders c"
  "pending_reads (submit_log_io C io_id c) = pending_reads c"
  by (simp_all add: publish_lease_read_state_def submit_log_io_def)

lemma conserves_after [simp]:
  "conserves c (set_engine e d) new = conserves c d new" "conserves c (update_io f d) new = conserves c d new"
  "conserves c (reschedule_pending_read_check d) new = conserves c d new" "conserves c (enqueue x d) new = conserves c d new"
  "conserves c (set_output out d) new = conserves c d new" "conserves c (d\<lparr>published := p\<rparr>) new = conserves c d new"
  "conserves c (note_handled ev b d) new = conserves c d new"
  by (simp_all add: conserves_def clients_def waiting_def noticed_def handed_def note_handled_def)

lemma conserves_emit_after:
  "conserves c d {#} \<Longrightarrow> list_all (\<lambda>x. effect_noticed x = [] \<and> effect_clients x = []) fx \<Longrightarrow> conserves c (emit fx d) {#}"
  by (rule conserves_trans0[OF _ conserves_silent[where fx = fx]]) simp_all

lemma ordered_conserves_after [simp]:
  "conserves c (publish_lease_read_state C d) new = conserves c d new" "conserves c (submit_log_io C i d) new = conserves c d new"
  by (simp_all add: conserves_def clients_def waiting_def noticed_def handed_def)

section \<open>Messages\<close>

lemma push_responders_clients:
  "length ids = length txs \<Longrightarrow>
   mset (map (\<lambda>x. Writer (snd x)) (push_responders ids txs q)) =
   mset (map (\<lambda>x. Writer (snd x)) q) + mset (map Writer (List.map_filter id txs))"
  by (induction ids txs q rule: push_responders.induct)
    (auto simp: responder_push_def List.map_filter_def split: option.split)

lemma leader_append_ids_length:
  assumes "leader_append_entries C payloads e = Some (ids, e')"
  shows "case ids of None \<Rightarrow> payloads = [] | Some r \<Rightarrow> length (iter_list (leader_log_ids_into_iter r)) = length payloads"
proof -
  obtain ld where ld: "en_leader e = Some ld" using assms by (auto simp: leader_append_entries_def bind_eq_Some_conv)
  obtain r ld' where r: "assign_log_ids (tc_lid C) ld (length payloads) = (r, ld')" by (rule prod.exhaust)
  show ?thesis
  proof (cases r)
    case None
    then show ?thesis using assms ld r by (auto simp: leader_append_entries_def assign_log_ids_def Let_def split: if_split_asm)
  next
    case (Some log_ids)
    then have "ids = Some log_ids"
      using assms ld r by (auto simp: leader_append_entries_def Let_def bind_eq_Some_conv case_prod_beta)
    then show ?thesis using leader_append_ids(2)[OF r[unfolded Some]] by (simp add: leader_ids_def)
  qed
qed

lemma forwarded_clients: "answered (map (\<lambda>tx. AnswerWrite tx err) txs) = mset (map Writer txs)"
  by (induction txs) (simp_all add: answered_def)

lemma write_entries_conserves:
  assumes ok: "write_entries C now payloads responders c = Some (ids, d)" and len: "length payloads = length responders"
  shows "conserves c d (mset (map Writer (List.map_filter id responders)))"
proof (cases "ensure_writable_leader_handler C now (rc_engine c)")
  case (Inl forward)
  then show ?thesis using ok
    by (intro conserves_emit[where fx = "map (\<lambda>tx. AnswerWrite tx (ForwardToLeader forward)) (List.map_filter id responders)"])
      (auto simp: write_entries_def forwarded_clients list_all_iff)
next
  case (Inr ld)
  then obtain r e where r: "leader_append_entries C payloads (rc_engine c) = Some (r, e)"
    using ok by (auto simp: write_entries_def bind_eq_Some_conv)
  show ?thesis
  proof (cases r)
    case None
    then have "responders = []" using leader_append_ids_length[OF r] len by simp
    then show ?thesis using ok Inr r None
      by (auto simp: write_entries_def List.map_filter_def intro!: conserves_quiet)
  next
    case (Some log_ids)
    then show ?thesis
      using ok Inr r leader_append_ids_length[OF r] len
      by (auto simp: write_entries_def conserves_def clients_def waiting_def noticed_def handed_def push_responders_clients[simplified] ac_simps)
  qed
qed

lemma change_membership_conserves:
  assumes "change_membership C now ca wrap retain pre payloads tx c = Some d"
  shows "conserves c d {#Writer tx#}"
  using assms
proof (cases rule: change_membership_cases)
  case (1 err)
  then show ?thesis by (intro conserves_emit[where fx = "[AnswerWrite tx err]"]) (simp_all add: answered_def)
next
  case (2 payload ids)
  then show ?thesis using write_entries_conserves[OF 2] by (simp add: List.map_filter_def)
next
  case (3 payload unused_tx p ids)
  have "conserves c (emit [UnusedPayload unused_tx p] c) {#}" by (rule conserves_silent[where fx = "[UnusedPayload unused_tx p]"]) simp_all
  from conserves_trans[OF this write_entries_conserves[OF 3]] show ?thesis by (simp add: List.map_filter_def)
qed

lemma append_membership_conserves:
  assumes "append_membership C now payload pre tx c = Some d"
  shows "conserves c d {#Writer tx#}"
  using assms
proof (cases rule: append_membership_cases)
  case (1 err)
  then show ?thesis by (intro conserves_emit[where fx = "[AnswerWrite tx err]"]) (simp_all add: answered_def)
next
  case (2 ids)
  then show ?thesis using write_entries_conserves[OF 2] by (simp add: List.map_filter_def)
qed

lemma bm_insert_mset: "bm_get m k = None \<Longrightarrow> mset (bm_insert k v m) = add_mset (k, v) (mset m)"
  by (induction k v m rule: bm_insert.induct) (auto simp: bm_get_def split: if_split_asm)

lemma pending_read_push_conserves:
  assumes push: "pending_read_push stamp pr q = Some q'" and wf: "pending_reads_wf q"
  shows "pending_reads_wf q'"
    "mset (map (\<lambda>x. Reader (pr_tx (snd x))) (pq_reads q')) = add_mset (Reader (pr_tx pr)) (mset (map (\<lambda>x. Reader (pr_tx (snd x))) (pq_reads q)))"
proof -
  have "next_sequence q < u64_max"
    using push by (auto simp: pending_read_push_def Let_def checked_add_def u64_max_def split: option.split_asm if_split_asm)
  from pending_read_push_wf[OF wf this, of stamp pr] show "pending_reads_wf q'" using push by simp
  have "bm_get (pq_reads q) (stamp, next_sequence q) = None" using wf by (force simp: pending_reads_wf_def)
  then show "mset (map (\<lambda>x. Reader (pr_tx (snd x))) (pq_reads q')) =
      add_mset (Reader (pr_tx pr)) (mset (map (\<lambda>x. Reader (pr_tx (snd x))) (pq_reads q)))"
    using push by (auto simp: pending_read_push_def Let_def bm_insert_mset split: option.split_asm)
qed

lemma handle_get_linearizer_conserves:
  assumes "handle_get_linearizer C now opt tx c = Some d"
  shows "conserves c d {#Reader tx#}"
proof -
  consider r where "d = emit [AnswerRead tx r] c"
    | e q stamp pr where "pending_read_push stamp pr (pending_reads c) = Some q" "pr_tx pr = tx"
        "d = reschedule_pending_read_check ((set_engine e c)\<lparr>pending_reads := q\<rparr>)"
    | q stamp pr where "pending_read_push stamp pr (pending_reads c) = Some q" "pr_tx pr = tx"
        "d = reschedule_pending_read_check (c\<lparr>pending_reads := q\<rparr>)"
    using assms unfolding handle_get_linearizer_def Let_def
    by (fastforce simp: bind_eq_Some_conv split: sum.split_asm if_split_asm option.split_asm)
  then show ?thesis
  proof cases
    case (1 r)
    then show ?thesis by (intro conserves_emit[where fx = "[AnswerRead tx r]"]) (simp_all add: answered_def)
  next
    case (2 e q stamp pr)
    then show ?thesis using pending_read_push_conserves[OF 2(1)]
      by (simp add: conserves_def clients_def waiting_def noticed_def handed_def ac_simps)
  next
    case (3 q stamp pr)
    then show ?thesis using pending_read_push_conserves[OF 3(1)]
      by (simp add: conserves_def clients_def waiting_def noticed_def handed_def ac_simps)
  qed
qed

lemma same_books:
  "core_send_heartbeat C now c = Some (b, d) \<Longrightarrow> conserves c d {#}"
  "conserves c (snd (core_trigger_snapshot c)) {#}"
  "conserves c (trigger_reset_backoff to c) {#}"
  "handle_install_full_snapshot_request C now v sn tx c = Some d \<Longrightarrow> conserves c d {#}"
  subgoal by (rule conserves_quiet) (auto simp: core_send_heartbeat_def split: sum.split_asm if_split_asm)
  subgoal by (rule conserves_quiet) (auto simp: core_trigger_snapshot_def split: prod.split)
  subgoal
    by (cases "to = []"; rule conserves_silent[where fx = "map BackoffReset (if to = [] then bm_keys (replications c)
        else filter (bm_contains_key (replications c)) to)"]) (simp_all add: trigger_reset_backoff_def list_all_iff)
  subgoal by (rule conserves_quiet) (auto simp: handle_install_full_snapshot_request_def)
  done

lemma handle_external_command_conserves:
  assumes "handle_external_command C rng now cmd c = Some d"
  shows "conserves c d (case cmd of XAllowNextRevert _ _ tx \<Rightarrow> {#Reverter tx#} | _ \<Rightarrow> {#})"
proof (cases cmd)
  case (XAllowNextRevert to allow tx)
  then obtain r e where "d = emit [AnswerRevert tx r] (set_engine e c) \<or> d = emit [AnswerRevert tx r] c"
    using assms by (cases "try_leader_handler C (rc_engine c)") (auto simp: handle_external_command_def Let_def)
  then show ?thesis
    by (elim disjE; intro conserves_emit[where fx = "[AnswerRevert tx r]"]) (simp_all add: answered_def XAllowNextRevert)
next
  case (XTriggerTransferLeader to)
  have "conserves c (trigger_reset_backoff [to] (c\<lparr>published := None\<rparr>)) {#}"
    by (rule conserves_trans0[OF _ same_books(3)]) simp
  then show ?thesis using assms XTriggerTransferLeader by (auto simp: handle_external_command_def Let_def)
next
  case XHeartbeat
  then show ?thesis using assms same_books(1) by (auto simp: handle_external_command_def Let_def)
next
  case XSnapshot
  then show ?thesis using assms same_books(2) by (auto simp: handle_external_command_def Let_def)
next
  case (XResetBackoff to)
  then show ?thesis using assms same_books(3) by (auto simp: handle_external_command_def Let_def)
qed (use assms in \<open>auto simp: handle_external_command_def Let_def split: if_split_asm intro!: conserves_quiet\<close>)

lemma handle_api_msg_conserves:
  assumes ok: "handle_api_msg C ca wrap rng now msg c = Some d" and wf: "msg_wf msg"
  shows "conserves c d (msg_clients msg)"
proof (cases msg)
  case (MClientWrite payloads responders leader)
  show ?thesis
  proof (cases "leader \<noteq> None \<and> try_to_committed_leader_id (tc_lid C) (vote_ref (rc_state c)) \<noteq> leader")
    case True
    then obtain err where "d = emit (map (\<lambda>tx. AnswerWrite tx err) (List.map_filter id responders)) c"
      using ok MClientWrite by (auto simp: handle_api_msg_def Let_def)
    then show ?thesis
      by (intro conserves_emit[where fx = "map (\<lambda>tx. AnswerWrite tx err) (List.map_filter id responders)"])
        (simp_all add: forwarded_clients msg_clients_def MClientWrite list_all_iff)
  next
    case False
    then show ?thesis using ok wf MClientWrite write_entries_conserves
      by (auto simp: handle_api_msg_def Let_def msg_clients_def msg_wf_def)
  qed
next
  case (MWithRaftState tx)
  then show ?thesis using ok
    by (intro conserves_emit[where fx = "[ShowState tx (rc_state c)]"]) (auto simp: handle_api_msg_def answered_def msg_clients_def)
qed (use ok change_membership_conserves append_membership_conserves handle_get_linearizer_conserves
    handle_external_command_conserves in
    \<open>auto simp: handle_api_msg_def msg_clients_def Let_def handle_append_entries_request_def handle_vote_request_def
      handle_pre_vote_request_def handle_initialize_def case_prod_beta bind_eq_Some_conv
      split: if_split_asm external_command.split_asm intro!: conserves_quiet\<close>)

section \<open>Notifications\<close>

lemma answered_append: "answered (fx @ fy) = answered fx + answered fy" "answered (f # fx) = mset (effect_clients f) + answered fx"
  by (simp_all add: answered_def)

lemma answered_reads:
  "answered (map (\<lambda>(tx, res). AnswerRead tx res) rs) = mset (map (\<lambda>x. Reader (fst x)) rs)"
  "concat (map effect_noticed (map (\<lambda>(tx, res). AnswerRead tx res) rs)) = []"
  "concat (map effect_handed (map (\<lambda>(tx, res). AnswerRead tx res) rs)) = []"
  by (induction rs) (auto simp: answered_def)

lemma answer_reads_conserves:
  assumes "pending_reads_wf (pending_reads c) \<Longrightarrow> pending_reads_wf (snd r) \<and>
    mset (map (\<lambda>x. Reader (pr_tx (snd x))) (pq_reads (pending_reads c))) =
    mset (map (\<lambda>x. Reader (pr_tx (snd x))) (pq_reads (snd r))) + mset (map (\<lambda>x. Reader (fst x)) (fst r))"
  shows "conserves c (answer_reads r c) {#}"
proof -
  have "answered (rc_effects c @ map (\<lambda>(tx, res). AnswerRead tx res) (fst r)) =
      answered (rc_effects c) + mset (map (\<lambda>x. Reader (fst x)) (fst r))"
    by (simp only: answered_append answered_reads(1))
  then show ?thesis using assms
    by (simp add: conserves_def clients_def waiting_def noticed_def handed_def answer_reads_def answered_reads(2,3) ac_simps
        del: map_map)
qed

lemma mset_map_split:
  "(\<And>x. Q x \<longleftrightarrow> \<not> P x) \<Longrightarrow> mset (map f xs) = mset (map f (filter P xs)) + mset (map f (filter Q xs))"
  by (induction xs) auto

lemma drain_satisfied_conserves:
  fixes c :: "('n, 'nd, 'l, 'c, 'm, 'd, 's, 'e, 'pp, 'cp, 'gp) raft_core"
    and r :: "('n, 'nd, 'c) read_result list \<times> ('n, 'c) pending_read_queue"
  assumes "drain_satisfied acked app (pending_reads c) = Some r"
  shows "conserves c (answer_reads r c) {#}"
proof (rule answer_reads_conserves)
  assume "pending_reads_wf (pending_reads c)"
  then have "\<exists>q'. drain_satisfied acked app (pending_reads c) =
      Some (map (\<lambda>x. (pr_tx (snd x), Inr ((pr_linearizer (snd x))\<lparr>lin_applied := app\<rparr>)))
        (filter (\<lambda>x. fst (fst x) < acked) (pq_reads (pending_reads c))) :: ('n, 'nd, 'c) read_result list, q') \<and>
    pending_reads_wf q' \<and> pq_reads q' = filter (\<lambda>x. acked \<le> fst (fst x)) (pq_reads (pending_reads c))"
    by (rule drain_satisfied_spec)
  with assms obtain q' where r: "r = (map (\<lambda>x. (pr_tx (snd x), Inr ((pr_linearizer (snd x))\<lparr>lin_applied := app\<rparr>)))
      (filter (\<lambda>x. fst (fst x) < acked) (pq_reads (pending_reads c))), q')" "pending_reads_wf q'"
    "pq_reads q' = filter (\<lambda>x. acked \<le> fst (fst x)) (pq_reads (pending_reads c))"
    by auto
  show "pending_reads_wf (snd r) \<and>
    mset (map (\<lambda>x. Reader (pr_tx (snd x))) (pq_reads (pending_reads c))) =
    mset (map (\<lambda>x. Reader (pr_tx (snd x))) (pq_reads (snd r))) + mset (map (\<lambda>x. Reader (fst x)) (fst r))"
    using r by (auto simp del: mset_map simp: o_def not_less intro!: mset_map_split)
qed

lemma drain_expired_conserves:
  assumes "drain_expired now mk (pending_reads c) = Some r"
  shows "conserves c (answer_reads r c) {#}"
proof (rule answer_reads_conserves)
  assume "pending_reads_wf (pending_reads c)"
  from drain_expired_spec[OF this, of now mk] assms
  obtain rs q' where r: "r = (rs, q')" "pending_reads_wf q'" "pq_reads q' = filter (\<lambda>x. now < pr_deadline (snd x)) (pq_reads (pending_reads c))"
    "mset rs = mset (map (\<lambda>x. (pr_tx (snd x), Inl (mk (fst (fst x))))) (filter (\<lambda>x. pr_deadline (snd x) \<le> now) (pq_reads (pending_reads c))))"
    by auto
  have "mset (map (\<lambda>x. Reader (fst x)) rs) =
      mset (map (\<lambda>x. Reader (pr_tx (snd x))) (filter (\<lambda>x. pr_deadline (snd x) \<le> now) (pq_reads (pending_reads c))))"
    unfolding mset_map r(4) by (simp add: o_def multiset.map_comp)
  then show "pending_reads_wf (snd r) \<and>
    mset (map (\<lambda>x. Reader (pr_tx (snd x))) (pq_reads (pending_reads c))) =
    mset (map (\<lambda>x. Reader (pr_tx (snd x))) (pq_reads (snd r))) + mset (map (\<lambda>x. Reader (fst x)) (fst r))"
    using r(2,3) by (simp only: r(1) fst_conv snd_conv) (auto simp del: mset_map intro!: mset_map_split)
qed

lemma drain_all_conserves: "conserves c (answer_reads (drain_all_with_error err (pending_reads c)) c) {#}"
  by (rule answer_reads_conserves)
    (auto simp: drain_all_with_error_wf, auto simp: drain_all_with_error_def case_prod_beta multiset.map_comp o_def)

lemma process_pending_reads_conserves:
  assumes "process_pending_reads C now c = Some d"
  shows "conserves c d {#}"
proof (cases "try_leader_handler C (rc_engine c)")
  case (Inl forward)
  then show ?thesis using assms by (auto simp: process_pending_reads_def drain_all_conserves)
next
  case (Inr ld)
  then obtain c1 where c1: "(case last_quorum_acked_stamp C ld of
        None \<Rightarrow> Some c
      | Some acked_at \<Rightarrow>
          map_option (\<lambda>r. answer_reads r c)
            (drain_satisfied acked_at (io_applied (st_io_state (rc_state c))) (pending_reads c))) = Some c1"
    and d: "map_option (\<lambda>r. reschedule_pending_read_check (answer_reads r c1)) (drain_expired now
        (\<lambda>min_acked. QuorumNotEnough (clock_quorum_not_enough C ld min_acked)) (pending_reads c1)) = Some d"
    using assms unfolding process_pending_reads_def by (force simp: bind_eq_Some_conv simp del: option.case_eq_if)
  have "conserves c c1 {#}" using c1 by (cases "last_quorum_acked_stamp C ld") (auto dest: drain_satisfied_conserves)
  moreover have "conserves c1 d {#}" using d by (auto dest: drain_expired_conserves)
  ultimately show ?thesis by (rule conserves_trans0)
qed

lemma handle_tick_conserves: "handle_tick C rng now c = Some d \<Longrightarrow> conserves c d {#}"
proof -
  have el: "conserves x y {#}" if "handle_tick_election C rng now x = Some y" for x y
    using that by (auto simp: handle_tick_election_def Let_def split: if_split_asm)
  assume "handle_tick C rng now c = Some d"
  then obtain c1 where "handle_tick_election C rng now c = Some c1" and
      "c1 = d \<or> (\<exists>c2 e. (c2 = c1 \<or> (\<exists>b. core_send_heartbeat C now c1 = Some (b, c2))) \<and> (d = c2 \<or> d = set_engine e c2))"
    by (fastforce simp: handle_tick_def bind_eq_Some_conv split: option.split_asm if_split_asm)
  then show ?thesis using same_books(1)[of C now c1] by (auto dest!: el intro: conserves_trans0)
qed

lemma handle_io_conserves:
  "handle_local_io C io_id c = Some d \<Longrightarrow> conserves c d {#}"
  "handle_state_machine_result C res c = Some (r, d) \<Longrightarrow> conserves c d {#}"
  subgoal by (auto simp: handle_local_io_def Let_def split: io_id.split_asm if_split_asm)
  subgoal by (auto simp: handle_state_machine_result_def Let_def split: sum.split_asm sm_response.split_asm option.split)
  done

lemma handle_notification_conserves:
  assumes "handle_notification C rng now x c = Some (r, d)"
  shows "conserves c d {#}"
proof -
  obtain d' where d': "handle_notification_inner C rng now x c = Some (r, d')" and eq: "conserves c d {#} = conserves c d' {#}"
    using assms by (cases r) (auto simp: handle_notification_def split: sum.split_asm)
  show ?thesis
    unfolding eq
    by (cases x) (use d' in \<open>auto simp: handle_notification_inner_def Let_def split: if_split_asm
        dest: process_pending_reads_conserves handle_tick_conserves handle_io_conserves\<close>)
qed

section \<open>Commands\<close>

lemma discard_responders_conserves:
  assumes "mset (client_responders c) = mset (fst drained) + mset (snd drained)"
  shows "conserves c (discard_responders C drained c) {#}"
proof -
  obtain err where d: "discard_responders C drained c =
      emit (map (\<lambda>(_, tx). AnswerWrite tx err) (fst drained)) (c\<lparr>client_responders := snd drained\<rparr>)"
    by (simp add: discard_responders_def Let_def)
  have fx: "answered (map (\<lambda>(_, tx). AnswerWrite tx err) xs) = image_mset (\<lambda>x. Writer (snd x)) (mset xs)"
    "concat (map effect_noticed (map (\<lambda>(_, tx). AnswerWrite tx err) xs)) = []" for xs
    by (induction xs) (auto simp: answered_def)
  show ?thesis
    using arg_cong[OF assms, of "image_mset (\<lambda>x. Writer (snd x))"]
    by (simp add: conserves_def clients_def waiting_def noticed_def handed_def d answered_append fx ac_simps del: map_map)
qed

lemma mset_drop_take: "mset (drop n xs) + mset (take n xs) = mset xs"
  by (metis add.commute append_take_drop_id mset_append)

lemma drain_mset:
  "mset q = mset (fst (drain_upto i q)) + mset (snd (drain_upto i q))"
  "mset q = mset (fst (drain_from i q)) + mset (snd (drain_from i q))"
  by (simp_all add: drain_upto_def drain_from_def Let_def mset_drop_take add.commute[of "mset (take _ _)"])

lemma conserves_channel [simp]:
  "conserves (c\<lparr>notify_channel := x\<rparr>) d new = conserves c d new"
  "conserves c (d\<lparr>notify_channel := x\<rparr>) new = conserves c d new"
  "conserves c (d\<lparr>pending_notifications := x\<rparr>) new = conserves c d new"
  by (simp_all add: conserves_def clients_def waiting_def noticed_def handed_def)

interpretation batch_ledger: notification_closed C rng "\<lambda>c d. conserves c d {#}" for C rng
  by unfold_locales (auto intro: conserves_trans0 dest: handle_notification_conserves)

lemma send_sm_command_conserves:
  assumes send: "send_sm_command C rng now inp cmd c1 = Some (Inr u, d)"
    and start: "pending_reads_wf (pending_reads c) \<Longrightarrow> pending_reads_wf (pending_reads c1) \<and> clients c1 = clients c"
      "noticed c1 + handed c \<subseteq># handed c1 + noticed c + mset (command_handed cmd)"
  shows "conserves c d {#}"
proof -
  obtain k c2 where rcv: "receive_notifications C rng now (ci_received inp) c1 = Some (Inr k, c2)" and d: "d = emit [SmSend cmd] c2"
    using send by (cases "ci_send inp") (auto simp: send_sm_command_def core_runs)
  have c2: "conserves c1 c2 {#}" by (rule batch_ledger.receive_notifications_R[OF rcv])
  have frame: "noticed d = noticed c2" "handed d = handed c2 + mset (command_handed cmd)" "clients d = clients c2"
      "pending_reads d = pending_reads c2"
    by (simp_all add: d noticed_def handed_def clients_def waiting_def answered_def)
  have "(noticed c2 + handed c1) + (noticed c1 + handed c) \<subseteq>#
      (handed c2 + noticed c1) + (handed c1 + noticed c + mset (command_handed cmd))"
    using c2 start(2) unfolding conserves_def by (intro subset_mset.add_mono[of "noticed c2 + handed c1"]) blast+
  then have "(noticed c1 + handed c1) + (noticed d + handed c) \<subseteq># (noticed c1 + handed c1) + (handed d + noticed c)"
    by (simp only: frame ac_simps)
  then have "noticed d + handed c \<subseteq># handed d + noticed c" by (simp only: mset_subset_eq_mono_add_left_cancel)
  then show ?thesis using c2 start(1) by (auto simp: conserves_def frame)
qed

lemma commit_notices_clients:
  assumes "commit_notices s rs = Some fx"
  shows "answered fx = mset (map (\<lambda>x. Writer (snd x)) rs)" "concat (map effect_noticed fx) = map snd rs"
    "concat (map effect_handed fx) = []"
  using assms by (induction s rs arbitrary: fx rule: commit_notices.induct) (auto simp: answered_def bind_eq_Some_conv)

lemma apply_command_conserves:
  assumes "run_save_committed_and_apply C rng now inp a up_to c = Some (Inr u, d)"
  shows "conserves c d {#}"
proof -
  let ?c0 = "emit [StoreCommitted (Some up_to)] (update_io (\<lambda>io. io\<lparr>apply_progress := io_submit (apply_progress io) up_to\<rparr>) c)"
  obtain first rs q fx where drained: "drain_upto (idx up_to) (client_responders c) = (rs, q)"
    and fx: "commit_notices (rc_state (?c0\<lparr>client_responders := q\<rparr>)) rs = Some fx"
    and send: "send_sm_command C rng now inp (ApplyLogs first up_to rs) (emit fx (?c0\<lparr>client_responders := q\<rparr>)) = Some (Inr u, d)"
    using assms
    by (cases "drain_upto (idx up_to) (client_responders c)")
      (auto simp: run_save_committed_and_apply_def apply_to_state_machine_def Let_def core_runs bind_eq_Some_conv)
  have "image_mset (\<lambda>x. Writer (snd x)) (mset (client_responders c)) =
      image_mset (\<lambda>x. Writer (snd x)) (mset rs) + image_mset (\<lambda>x. Writer (snd x)) (mset q)"
    using arg_cong[OF drain_mset(1)[of "client_responders c" "idx up_to"], of "image_mset (\<lambda>x. Writer (snd x))"] by (simp add: drained)
  then show ?thesis
    by (intro send_sm_command_conserves[OF send])
      (simp_all add: clients_def waiting_def noticed_def handed_def answered_append commit_notices_clients[OF fx] ac_simps)
qed

lemma run_state_machine_conserves:
  assumes "run_state_machine C rng now inp cmd c = Some (Inr u, d)"
  shows "conserves c d {#}"
proof -
  have send: "conserves c d {#}" if "send_sm_command C rng now inp cmd c1 = Some (Inr u, d)" "conserves c c1 {#}" for c1
    by (rule send_sm_command_conserves[OF that(1)])
      (use that(2) in \<open>auto simp: conserves_def intro: subset_mset.order_trans\<close>)
  show ?thesis
    by (rule send[OF assms[unfolded run_state_machine_def Let_def]])
      (simp add: discard_client_responders_upto_def discard_responders_conserves[OF drain_mset(1)] split: option.split)
qed

lemma discard_conserves_after:
  "conserves c d {#} \<Longrightarrow> conserves c (discard_responders C (drain_upto i (client_responders d)) d) {#}"
  "conserves c d {#} \<Longrightarrow> conserves c (discard_responders C (drain_from i (client_responders d)) d) {#}"
  by (rule conserves_trans0, assumption, rule discard_responders_conserves, rule drain_mset)+

lemma broadcast_conserves:
  assumes "broadcast_to C ts f c = Some d" "\<And>t. effect_clients (f t) = []" "\<And>t. effect_noticed (f t) = []"
  shows "conserves c d {#}"
  using assms by (auto simp: broadcast_to_def Let_def list_all_iff split: if_split_asm intro!: conserves_emit_after)

lemma broadcast_heartbeat_conserves: "broadcast_heartbeat C now sid bypass c = Some d \<Longrightarrow> conserves c d {#}"
  by (auto simp: broadcast_heartbeat_def try_leader_handler_def Let_def bind_eq_Some_conv list_all_iff
      split: option.split_asm if_split_asm intro!: conserves_emit_after)

lemma conserves_streams [simp]:
  "conserves c (d\<lparr>replications := x\<rparr>) new = conserves c d new" "conserves c (d\<lparr>heartbeat_workers := y\<rparr>) new = conserves c d new"
  "conserves c (d\<lparr>io_committed := w\<rparr>) new = conserves c d new" "conserves c (d\<lparr>io_submitted := v\<rparr>) new = conserves c d new"
  "conserves c (d\<lparr>quorum_loss_probe_tx := u\<rparr>) new = conserves c d new"
  "conserves c (d\<lparr>snapshot_tried_at := t\<rparr>) new = conserves c d new"
  by (simp_all add: conserves_def clients_def waiting_def noticed_def handed_def)

lemma rebuild_streams_conserves: "conserves c d {#} \<Longrightarrow> conserves c (rebuild_streams_loop C cv close ts new d) {#}"
proof (induction ts arbitrary: new d)
  case (Cons prog rest)
  then show ?case
    by (cases "bm_get (replications d) (tp_target prog)"; cases close) (simp_all add: Let_def conserves_emit_after)
qed (simp add: conserves_emit_after list_all_iff)

lemma log_command_conserves:
  "run_append_entries C inp cv entries c = Some (Inr u, d) \<Longrightarrow> conserves c d {#}"
  "run_save_vote C inp v c = Some (Inr u, d) \<Longrightarrow> conserves c d {#}"
  "run_purge_log C inp up_to c = Some (Inr u, d) \<Longrightarrow> conserves c d {#}"
  "run_truncate_log C inp after c = Some (Inr u, d) \<Longrightarrow> conserves c d {#}"
  subgoal by (auto simp: run_append_entries_def bind_eq_Some_conv core_runs Let_def intro!: conserves_emit_after)
  subgoal by (auto simp: run_save_vote_def core_runs Let_def split: vote_status.split intro!: conserves_emit_after)
  subgoal
    by (auto simp: run_purge_log_def discard_client_responders_upto_def core_runs Let_def simp del: books
        intro!: discard_conserves_after conserves_emit_after)
  subgoal by (auto simp: run_truncate_log_def core_runs simp del: books intro!: discard_conserves_after conserves_emit_after)
  done

lemma stream_command_conserves:
  "spawn_parallel_vote_requests C req pre c = Some d \<Longrightarrow> conserves c d {#}"
  "broadcast_transfer_leader C treq c = Some d \<Longrightarrow> conserves c d {#}"
  "run_replicate C target rreq c = Some d \<Longrightarrow> conserves c d {#}"
  "run_replicate_snapshot C cv target inflight c = Some d \<Longrightarrow> conserves c d {#}"
  subgoal unfolding spawn_parallel_vote_requests_def by (erule broadcast_conserves) auto
  subgoal unfolding broadcast_transfer_leader_def Let_def by (drule broadcast_conserves) (auto simp: conserves_def clients_def waiting_def noticed_def handed_def)
  subgoal by (auto simp: run_replicate_def split: if_split_asm intro!: conserves_emit_after)
  subgoal by (auto simp: run_replicate_snapshot_def bind_eq_Some_conv split: if_split_asm intro!: conserves_emit_after)
  done

lemma other_command_conserves:
  "conserves c (run_update_io_progress C io_id c) {#}" "conserves c (run_close_replication_streams c) {#}"
  "conserves c (fail_pending_reads C c) {#}" "conserves c (run_rebuild_replication_streams C cv targets close c) {#}"
  by (simp_all add: run_update_io_progress_def run_close_replication_streams_def conserves_emit_after list_all_iff
      fail_pending_reads_def Let_def drain_all_conserves run_rebuild_replication_streams_def rebuild_streams_conserves)

lemma responds_silent:
  "list_all (\<lambda>x. effect_noticed x = [] \<and> effect_clients x = []) (map (\<lambda>(_, respond). AnswerRespond respond) sent)"
  by (induction sent) auto

lemma send_satisfied_responds_conserves: "conserves c (send_satisfied_responds C c) {#}"
  by (simp add: send_satisfied_responds_def Let_def case_prod_beta[of _ "drain_all _ _ _ _"] conserves_emit_after responds_silent
      del: list.pred_map)

lemma run_command_conserves:
  assumes ok: "run_command C rng now inp cmd c = Some (Inr r, d)"
  shows "conserves c d {#}"
proof (cases "case command_condition cmd of None \<Rightarrow> False | Some cond \<Rightarrow> \<not> is_met (tc_lid C) cond (st_io_state (rc_state c))")
  case True
  then show ?thesis using ok by (simp add: run_command_def)
next
  case False
  note run = ok[unfolded run_command_def if_not_P[OF False]]
  show ?thesis
    by (cases cmd) (use run in \<open>auto simp: core_runs other_command_conserves conserves_emit_after
        dest: log_command_conserves broadcast_heartbeat_conserves stream_command_conserves apply_command_conserves
          run_state_machine_conserves\<close>)
qed

lemma trigger_routine_actions_conserves:
  assumes "trigger_routine_actions C now c = Some d"
  shows "conserves c d {#}"
proof -
  let ?c1 = "case should_snapshot (snapshot_policy_of (rc_config c)) (rc_state c) (snapshot_tried_at c) of
      None \<Rightarrow> c
    | Some at \<Rightarrow> (let (queued, c) = core_trigger_snapshot c in if queued then c\<lparr>snapshot_tried_at := Some at\<rparr> else c)"
  have c1: "conserves c ?c1 {#}" using same_books(2)[of c] by (auto simp: case_prod_beta Let_def split: option.split)
  obtain c2 where c2: "(case try_leader_handler C (rc_engine ?c1) of
        Inl _ \<Rightarrow> Some ?c1
      | Inr _ \<Rightarrow> map_option (\<lambda>e. set_engine e ?c1) (initiate_replication C (rc_engine ?c1))) = Some c2"
    and d: "process_pending_reads C now
      (let c = c2\<lparr>quorum_loss_probe_tx :=
          (case try_leader_handler C (rc_engine c2) of Inl _ \<Rightarrow> None | Inr ld \<Rightarrow> lh_quorum_loss_probe C ld (rc_engine c2))\<rparr>
       in case submitted (log_progress (st_io_state (rc_state c))) of
            None \<Rightarrow> c
          | Some sub \<Rightarrow> c\<lparr>io_submitted := send_if_greater (tc_lid C) sub (io_submitted c)\<rparr>) = Some d"
    using assms unfolding trigger_routine_actions_def Let_def[of "case _ of _ \<Rightarrow> _"] by (auto simp: bind_eq_Some_conv)
  have "conserves c c2 {#}" using c2 c1 by (auto split: sum.split_asm)
  then show ?thesis
    by (intro conserves_trans0[OF _ process_pending_reads_conserves[OF d]]) (simp add: Let_def split: option.split)
qed

section \<open>The queue of messages\<close>

lemma merge_client_writes_keeps:
  assumes "merge_client_writes n payloads responders leader msgs = (msg, rest)"
  shows "msg_clients msg + sum_list (map msg_clients rest) =
      mset (map Writer (List.map_filter id responders)) + sum_list (map msg_clients msgs)"
    "length payloads = length responders \<Longrightarrow> list_all msg_wf msgs \<Longrightarrow> msg_wf msg \<and> list_all msg_wf rest"
  using assms
  by (induction n payloads responders leader msgs arbitrary: rule: merge_client_writes.induct)
    (auto simp: msg_clients_def msg_wf_def List.map_filter_def split: if_split_asm)

lemma msg_try_recv_keeps:
  assumes "msg_try_recv n msgs = Some (msg, rest)"
  shows "sum_list (map msg_clients msgs) = msg_clients msg + sum_list (map msg_clients rest)"
    "list_all msg_wf msgs \<Longrightarrow> msg_wf msg \<and> list_all msg_wf rest"
proof -
  obtain m ms where msgs: "msgs = m # ms" using assms by (cases msgs) (simp_all add: msg_try_recv_def)
  have "sum_list (map msg_clients msgs) = msg_clients msg + sum_list (map msg_clients rest) \<and>
      (list_all msg_wf msgs \<longrightarrow> msg_wf msg \<and> list_all msg_wf rest)"
  proof (cases "\<exists>payloads responders leader. m = MClientWrite payloads responders leader")
    case True
    then obtain payloads responders leader where m: "m = MClientWrite payloads responders leader" by blast
    then have "merge_client_writes (n - 1) payloads responders leader ms = (msg, rest)"
      using assms msgs by (simp add: msg_try_recv_def)
    from merge_client_writes_keeps[OF this] show ?thesis by (simp add: msgs m msg_clients_def msg_wf_def)
  next
    case False
    then show ?thesis using assms msgs by (cases m) (simp_all add: msg_try_recv_def)
  qed
  then show "sum_list (map msg_clients msgs) = msg_clients msg + sum_list (map msg_clients rest)"
    "list_all msg_wf msgs \<Longrightarrow> msg_wf msg \<and> list_all msg_wf rest" by blast+
qed

definition loop_conserves ::
  "('n, 'l, 'c, 'm, 'd, 'ed) raft_msg list \<times> ('n, 'nd, 'l, 'c, 'm, 'd, 's, 'e, 'pp, 'cp, 'gp) raft_core \<Rightarrow>
   ('n, 'l, 'c, 'm, 'd, 'ed) raft_msg list \<times> (_, _, _, _, _, _, _, _, _, _, _) raft_core \<Rightarrow> bool" where
  "loop_conserves x y \<longleftrightarrow>
     (list_all msg_wf (fst x) \<longrightarrow>
      list_all msg_wf (fst y) \<and>
      (\<exists>new. sum_list (map msg_clients (fst x)) = new + sum_list (map msg_clients (fst y)) \<and> conserves (snd x) (snd y) new))"

lemma loop_conserves_trans:
  assumes "loop_conserves x y" "loop_conserves y z"
  shows "loop_conserves x z"
  unfolding loop_conserves_def
proof
  assume "list_all msg_wf (fst x)"
  with assms obtain a b where "list_all msg_wf (fst z)" and a: "conserves (snd x) (snd y) a" and b: "conserves (snd y) (snd z) b"
    and eq: "sum_list (map msg_clients (fst x)) = a + (b + sum_list (map msg_clients (fst z)))"
    unfolding loop_conserves_def by metis
  then show "list_all msg_wf (fst z) \<and>
      (\<exists>new. sum_list (map msg_clients (fst x)) = new + sum_list (map msg_clients (fst z)) \<and> conserves (snd x) (snd z) new)"
    using conserves_trans[OF a b] eq by (auto simp: add.assoc)
qed

lemma loop_conserves_core: "conserves c d {#} \<Longrightarrow> loop_conserves (msgs, c) (msgs, d)"
  by (auto simp: loop_conserves_def)

lemma loop_conserves_api:
  assumes "msg_try_recv n msgs = Some (msg, rest)" "handle_api_msg C ca wrap rng now msg c = Some d"
  shows "loop_conserves (msgs, c) (rest, note_handled ev b d)"
  using msg_try_recv_keeps[OF assms(1)] handle_api_msg_conserves[OF assms(2)] by (auto simp: loop_conserves_def)

interpretation ledger: core_closed C rng "\<lambda>c d. conserves c d {#}" ca wrap loop_conserves for C rng ca wrap
  by unfold_locales
    (auto simp: other_command_conserves dest: run_command_conserves trigger_routine_actions_conserves same_books(4)
      intro: conserves_trans0[OF _ send_satisfied_responds_conserves] loop_conserves_trans loop_conserves_core loop_conserves_api)

end
