(* ===== verification/CoreSpecs.thy ===== *)
theory CoreSpecs
  imports CoreClients
begin

text \<open>
  What the single operations of the core do: who may write, which entries are applied, and which reads
  are answered.
\<close>

section \<open>Writing\<close>

lemma writable_leader:
  "ensure_writable_leader_handler C now e = Inr ld \<longleftrightarrow>
   en_leader e = Some ld \<and> get_transfer_to ld = None \<and> ld_is_lease_valid C now ld (leader_lease (timer_config (en_config e)))"
  by (auto simp: ensure_writable_leader_handler_def ensure_leader_handler_def try_leader_handler_def split: option.split)

lemma write_one:
  assumes "write_entries C now [payload] [Some tx] c = Some (ids, c')" and ld: "ensure_writable_leader_handler C now (rc_engine c) = Inr ld"
  shows "client_responders c' = client_responders c @ [(next_index (ld_last_log_id ld), tx)] \<and> rc_effects c' = rc_effects c \<and>
    leader_append_entries C [payload] (rc_engine c) = Some (ids, rc_engine c')"
proof -
  obtain r e where r: "leader_append_entries C [payload] (rc_engine c) = Some (r, e)"
    using assms by (auto simp: write_entries_def bind_eq_Some_conv)
  have ldr: "en_leader (rc_engine c) = Some ld" using ld by (simp add: writable_leader)
  obtain log_ids where log_ids: "r = Some log_ids" using leader_append_ids_length[OF r] by (cases r) auto
  obtain ld' where assign: "assign_log_ids (tc_lid C) ld (length [payload]) = (Some log_ids, ld')"
    using r log_ids ldr
    by (cases "assign_log_ids (tc_lid C) ld (length [payload])")
      (auto simp: leader_append_entries_def Let_def bind_eq_Some_conv case_prod_beta split: option.split_asm)
  show ?thesis
    using assms r log_ids leader_append_ids(2)[OF assign]
    by (auto simp: write_entries_def leader_ids_def responder_push_def)
qed

lemma preconditions_satisfied:
  "ensure_preconditions_satisfied L s ps = Inr u \<longleftrightarrow> list_all (\<lambda>p. ensure_satisfied L s p = Inr ()) ps"
  by (induction L s ps rule: ensure_preconditions_satisfied.induct) (auto split: sum.split)

lemma membership_changeable:
  "ensure_membership_changeable C now preconditions c = Inr ld \<longleftrightarrow>
   ensure_writable_leader_handler C now (rc_engine c) = Inr ld \<and>
   list_all (\<lambda>p. ensure_satisfied (tc_lid C) (rc_state c) p = Inr ()) preconditions \<and>
   Some (noop_log_id ld) \<le> cluster_committed (rc_state c)"
  unfolding preconditions_satisfied[where u = "()", symmetric]
  by (auto simp: ensure_membership_changeable_def ensure_leader_log_committed_def Let_def split: sum.split if_split)

lemma selected_membership: "get_membership (fst (payloads_select payloads m finished)) = Some m"
  by (cases payloads) (simp_all add: payloads_select_def with_membership_def get_membership_def)

section \<open>Applying\<close>

lemma commit_notices_total:
  assumes "\<forall>x \<in> set rs. get_log_id s (fst x) \<noteq> None"
  shows "commit_notices s rs = Some (map (\<lambda>(index, tx). CommitNotice tx (the (get_log_id s index))) rs)"
  using assms by (induction s rs rule: commit_notices.induct) auto

lemma commit_notices_log: "st_log_ids s = st_log_ids s' \<Longrightarrow> commit_notices s rs = commit_notices s' rs"
  by (induction rs) (auto simp: get_log_id_def ref_log_id_def)

lemma update_io_log [simp]:
  "get_log_id (rc_state (update_io f c)) i = get_log_id (rc_state c) i"
  "commit_notices (rc_state (update_io f c)) rs = commit_notices (rc_state c) rs"
proof -
  have "st_log_ids (rc_state (update_io f c)) = st_log_ids (rc_state c)" by (simp add: update_io_def set_state_def)
  then show "get_log_id (rc_state (update_io f c)) i = get_log_id (rc_state c) i"
    "commit_notices (rc_state (update_io f c)) rs = commit_notices (rc_state c) rs"
    by (auto simp: get_log_id_def ref_log_id_def intro: commit_notices_log)
qed

lemma progress_driven_apply:
  assumes "next_progress_driven_command e = Some cmd"
  obtains up_to where "cmd = SaveCommittedAndApply (submitted (apply_progress (st_io_state (en_state e)))) up_to"
    "Some up_to \<le> local_committed (en_state e)"
    "Some up_to \<in> {local_committed (en_state e), Option.bind (submitted (log_progress (st_io_state (en_state e)))) io_last_log_id}"
    "next_index (submitted (apply_progress (st_io_state (en_state e)))) < next_index (Some up_to)"
  using assms
  by (auto simp: next_progress_driven_command_def Let_def local_committed_def min_def split: if_split_asm)

text \<open>
  The last entry whose write has been started is in the log, unless it has been purged: the entries
  under the vote of the last write are not truncated.
\<close>

definition submitted_in_log :: "('l, 'c::linorder, 'm) raft_state \<Rightarrow> bool" where
  "submitted_in_log s \<longleftrightarrow>
     (case Option.bind (submitted (log_progress (st_io_state s))) io_last_log_id of
        None \<Rightarrow> True
      | Some x \<Rightarrow> idx x < first_index (st_log_ids s) \<or> get_log_id s (idx x) = Some x)"

lemma applied_in_log:
  assumes cmd: "next_progress_driven_command e = Some (SaveCommittedAndApply a up_to)"
    and inv: "log_inv L (view e)" and sub: "submitted_in_log (en_state e)"
    and kept: "first_index (st_log_ids (en_state e)) \<le> next_index a" and i: "next_index a \<le> i" "i \<le> idx up_to"
  shows "\<exists>x. get_log_id (en_state e) i = Some x \<and> idx x = i"
proof -
  let ?l = "st_log_ids (en_state e)"
  have get: "get_log_id (en_state e) j = log_get ?l j" for j by (simp add: get_log_id_def ref_log_id_def log_get_def)
  have wf: "log_wf ?l" and comm: "local_committed (en_state e) = Some x \<Longrightarrow> log_get ?l (idx x) = Some x" for x
    using inv by (auto simp: log_inv_def)
  let ?sub = "Option.bind (submitted (log_progress (st_io_state (en_state e)))) io_last_log_id"
  have "Some up_to = local_committed (en_state e) \<or> Some up_to = ?sub" by (rule progress_driven_apply[OF cmd]) auto
  then have "log_get ?l (idx up_to) = Some up_to"
    using comm[of up_to] sub[unfolded submitted_in_log_def get] kept i by (cases ?sub) auto
  then have "log_view ?l (idx up_to) \<noteq> None" using wf kept i by (simp add: log_get_view split: option.split_asm) auto
  then have "log_view ?l i \<noteq> None" using kept i log_view_dom[OF wf, of i] log_view_dom[OF wf, of "idx up_to"] by simp
  then show ?thesis using wf kept i by (auto simp: get log_get_view)
qed

section \<open>Reading\<close>

lemma get_linearizer_cases:
  assumes ok: "handle_get_linearizer C now opt tx c = Some c'"
  obtains (refused) err where "c' = emit [AnswerRead tx (Inl err)] c"
  | (ready) ld read_log_id where "en_leader (rc_engine c) = Some ld" "get_read_log_id (rc_engine c) = Some read_log_id"
      "self_quorum ld \<or> (\<exists>acked. last_quorum_acked_time C ld = Some acked \<and>
         now < acked + effective_max_quorum_ack_age opt (leader_lease (timer_config (en_config (rc_engine c)))))"
      "c' = emit [AnswerRead tx (Inr \<lparr>lin_node_id = rc_id c, lin_read_log_id = read_log_id,
         lin_applied = io_applied (st_io_state (rc_state c))\<rparr>)] c"
  | (queued) ld read_log_id age wait where "en_leader (rc_engine c) = Some ld" "get_read_log_id (rc_engine c) = Some read_log_id"
      "age = effective_max_quorum_ack_age opt (leader_lease (timer_config (en_config (rc_engine c))))" "age \<le> now"
      "wait = effective_wait_timeout opt (leader_lease (timer_config (en_config (rc_engine c))))"
      "pending_read_push (SendStamp (now - age) (ld_heartbeat_round ld))
         \<lparr>pr_deadline = now + wait, pr_linearizer = \<lparr>lin_node_id = rc_id c, lin_read_log_id = read_log_id,
            lin_applied = io_applied (st_io_state (rc_state c))\<rparr>, pr_tx = tx\<rparr> (pending_reads c) = Some (pending_reads c')"
      "rc_effects c' = rc_effects c"
proof (cases "ensure_leader_handler C (rc_engine c)")
  case (Inl forward)
  then show ?thesis using ok refused by (auto simp: handle_get_linearizer_def Let_def)
next
  case (Inr ld)
  then have ld: "en_leader (rc_engine c) = Some ld"
    by (auto simp: ensure_leader_handler_def try_leader_handler_def split: option.split_asm)
  then obtain r where r: "get_read_log_id (rc_engine c) = Some r" by (simp add: get_read_log_id_def)
  let ?fresh = "case last_quorum_acked_time C ld of None \<Rightarrow> False | Some acked \<Rightarrow>
    now < acked + effective_max_quorum_ack_age opt (leader_lease (timer_config (en_config (rc_engine c))))"
  show ?thesis
  proof (cases "self_quorum ld \<or> ?fresh")
    case True
    then show ?thesis using ok ld r Inr
      by (intro ready) (auto simp: handle_get_linearizer_def Let_def split: option.split_asm if_split_asm)
  next
    case stale: False
    let ?age = "effective_max_quorum_ack_age opt (leader_lease (timer_config (en_config (rc_engine c))))"
      and ?wait = "effective_wait_timeout opt (leader_lease (timer_config (en_config (rc_engine c))))"
    show ?thesis
    proof (cases "?wait = 0")
      case True
      then show ?thesis using ok ld r Inr stale
        by (intro refused[OF sym]) (auto simp: handle_get_linearizer_def Let_def bind_eq_Some_conv split: if_split_asm)
    next
      case False
      then show ?thesis using ok ld r Inr stale
        by (intro queued[OF ld r refl]) (auto simp: handle_get_linearizer_def Let_def bind_eq_Some_conv split: if_split_asm)
    qed
  qed
qed

lemma expired_reads_fail:
  assumes "pending_reads_wf q" "drain_expired now mk q = Some (rs, q')"
  shows "(t, Inr lin) \<notin> set rs"
proof -
  have "mset rs = mset (map (\<lambda>x. (pr_tx (snd x), Inl (mk (fst (fst x))))) (filter (\<lambda>x. pr_deadline (snd x) \<le> now) (pq_reads q)))"
    using drain_expired_spec[OF assms(1), of now mk] assms(2) by auto
  from mset_eq_setD[OF this] show ?thesis by auto
qed

lemma satisfied_reads:
  fixes rs :: "('n, 'nd, 'c) read_result list"
  assumes "pending_reads_wf q" "drain_satisfied acked app q = Some (rs, q')"
  shows "pending_reads_wf q'" "set (pq_reads q') \<subseteq> set (pq_reads q)" "(t, Inr lin) \<in> set rs \<Longrightarrow> \<exists>key pr. (key, pr) \<in> set (pq_reads q) \<and> pr_tx pr = t \<and> fst key < acked \<and>
    lin_read_log_id lin = lin_read_log_id (pr_linearizer pr)"
proof -
  have "\<exists>q'. drain_satisfied acked app q =
      Some (map (\<lambda>x. (pr_tx (snd x), Inr ((pr_linearizer (snd x))\<lparr>lin_applied := app\<rparr>)))
        (filter (\<lambda>x. fst (fst x) < acked) (pq_reads q)) :: ('n, 'nd, 'c) read_result list, q') \<and>
    pending_reads_wf q' \<and> pq_reads q' = filter (\<lambda>x. acked \<le> fst (fst x)) (pq_reads q)"
    by (rule drain_satisfied_spec[OF assms(1)])
  with assms(2) show "pending_reads_wf q'" "set (pq_reads q') \<subseteq> set (pq_reads q)" "(t, Inr lin) \<in> set rs \<Longrightarrow> \<exists>key pr. (key, pr) \<in> set (pq_reads q) \<and> pr_tx pr = t \<and> fst key < acked \<and>
      lin_read_log_id lin = lin_read_log_id (pr_linearizer pr)"
    by (auto, blast)
qed

lemma process_pending_reads_answers:
  assumes wf: "pending_reads_wf (pending_reads c)" and ok: "process_pending_reads C now c = Some c'"
    and lin: "AnswerRead t (Inr lin) \<in> set (drop (length (rc_effects c)) (rc_effects c'))"
  obtains ld acked key pr where "en_leader (rc_engine c) = Some ld" "last_quorum_acked_stamp C ld = Some acked"
    "(key, pr) \<in> set (pq_reads (pending_reads c))" "pr_tx pr = t" "fst key < acked"
    "lin_read_log_id lin = lin_read_log_id (pr_linearizer pr)"
proof -
  have "en_leader (rc_engine c) \<noteq> None"
  proof
    assume "en_leader (rc_engine c) = None"
    then obtain err where "c' = reschedule_pending_read_check (answer_reads (drain_all_with_error err (pending_reads c)) c)"
      using ok by (auto simp: process_pending_reads_def try_leader_handler_def)
    then show False using lin by (auto simp: answer_reads_def drain_all_with_error_def)
  qed
  then obtain ld where ld: "en_leader (rc_engine c) = Some ld" by blast
  show ?thesis
  proof (cases "last_quorum_acked_stamp C ld")
    case None
    then obtain rs q where r: "drain_expired now (\<lambda>min_acked. QuorumNotEnough (clock_quorum_not_enough C ld min_acked)) (pending_reads c) =
          Some (rs, q)" "c' = reschedule_pending_read_check (answer_reads (rs, q) c)"
      using ok ld by (auto simp: process_pending_reads_def try_leader_handler_def bind_eq_Some_conv)
    then show ?thesis using lin expired_reads_fail[OF wf r(1), of t lin] by (auto simp: answer_reads_def)
  next
    case (Some acked)
    then obtain rs1 q1 rs2 q2 where
        r1: "drain_satisfied acked (io_applied (st_io_state (rc_state c))) (pending_reads c) = Some (rs1, q1)"
      and r2: "drain_expired now (\<lambda>min_acked. QuorumNotEnough (clock_quorum_not_enough C ld min_acked)) q1 = Some (rs2, q2)"
      and c': "c' = reschedule_pending_read_check (answer_reads (rs2, q2) (answer_reads (rs1, q1) c))"
      using ok ld by (auto simp: process_pending_reads_def try_leader_handler_def bind_eq_Some_conv answer_reads_def)
    have "(t, Inr lin) \<in> set rs1"
      using lin expired_reads_fail[OF satisfied_reads(1)[OF wf r1] r2, of t lin] by (auto simp: c' answer_reads_def)
    from satisfied_reads(3)[OF wf r1 this] show ?thesis using that ld Some by blast
  qed
qed

lemma process_pending_reads_keeps:
  fixes c :: "('n::linorder, 'nd, 'l, 'c::linorder, 'm, 'd, 's, 'e, 'pp, 'cp, 'gp) raft_core"
  assumes wf: "pending_reads_wf (pending_reads c)" and ok: "process_pending_reads C now c = Some c'"
  shows "set (pq_reads (pending_reads c')) \<subseteq> set (pq_reads (pending_reads c))"
proof (cases "try_leader_handler C (rc_engine c)")
  case (Inl forward)
  then show ?thesis using ok by (auto simp: process_pending_reads_def answer_reads_def drain_all_with_error_def)
next
  case (Inr ld)
  have expired: "set (pq_reads q') \<subseteq> set (pq_reads q)" if "pending_reads_wf q" "drain_expired now mk q = Some (rs, q')" for q mk rs q'
    using drain_expired_spec[OF that(1), of now mk] that(2) by auto
  show ?thesis
  proof (cases "last_quorum_acked_stamp C ld")
    case None
    then show ?thesis using ok Inr expired[OF wf] by (fastforce simp: process_pending_reads_def answer_reads_def bind_eq_Some_conv)
  next
    case (Some acked)
    then obtain rs1 :: "('n, 'nd, 'c) read_result list" and q1 and rs2 :: "('n, 'nd, 'c) read_result list" and q2 where
        r1: "drain_satisfied acked (io_applied (st_io_state (rc_state c))) (pending_reads c) = Some (rs1, q1)"
      and r2: "drain_expired now (\<lambda>min_acked. QuorumNotEnough (clock_quorum_not_enough C ld min_acked)) q1 = Some (rs2, q2)"
      and c': "pending_reads c' = q2"
      using ok Inr by (auto simp: process_pending_reads_def answer_reads_def bind_eq_Some_conv)
    show ?thesis using satisfied_reads(2)[OF wf r1] expired[OF satisfied_reads(1)[OF wf r1] r2] c' by auto
  qed
qed

lemma push_read_keeps:
  assumes "pending_reads_wf q" "pending_read_push stamp pr q = Some q'" "(key, x) \<in> set (pq_reads q')"
  shows "(key, x) \<in> set (pq_reads q) \<or> fst key = stamp \<and> x = pr"
proof -
  have wf: "bm_wf (pq_reads q)" using assms(1) by (simp add: pending_reads_wf_def indexes_agree_def)
  have "pq_reads q' = bm_insert (stamp, next_sequence q) pr (pq_reads q)"
    using assms(2) by (auto simp: pending_read_push_def Let_def split: option.split_asm)
  then have "bm_get (bm_insert (stamp, next_sequence q) pr (pq_reads q)) key = Some x"
    using assms(3) bm_insert_wf[OF wf] by (simp add: bm_get_def bm_wf_distinct del: bm_insert_get)
  then show ?thesis using wf by (auto simp: bm_get_def[of "pq_reads q"] split: if_split_asm dest: map_of_SomeD)
qed

section \<open>Electing\<close>

text \<open>A campaign in the next term: this node's vote for itself, and the request that asks the others for theirs.\<close>

definition campaigns ::
  "('n, 'nd, 'l, 'c::linorder, 'm, 'q, 'pp, 'cp, 'gp) raft_type_config \<Rightarrow>
   ('n, 'nd, 'l, 'c, 'm, 'd, 's, 'e, 'pp, 'cp, 'gp) engine \<Rightarrow>
   ('n, 'nd, 'l, 'c, 'm, 'd, 's, 'e, 'pp, 'cp, 'gp) engine \<Rightarrow> bool" where
  "campaigns C e e' \<longleftrightarrow>
     vote_ref (en_state e') = campaign_vote C e \<and>
     SendVote (vote_request_new (campaign_vote C e) (last_log_id (en_state e))) \<in> set (out_commands (en_output e'))"

text \<open>The vote stays; the others are only asked whether they would grant the vote of a campaign.\<close>

definition asks_pre_vote ::
  "('n, 'nd, 'l, 'c::linorder, 'm, 'q, 'pp, 'cp, 'gp) raft_type_config \<Rightarrow> nat \<Rightarrow>
   ('n, 'nd, 'l, 'c, 'm, 'd, 's, 'e, 'pp, 'cp, 'gp) engine \<Rightarrow>
   ('n, 'nd, 'l, 'c, 'm, 'd, 's, 'e, 'pp, 'cp, 'gp) engine \<Rightarrow> bool" where
  "asks_pre_vote C now e e' \<longleftrightarrow>
     en_state e' = en_state e \<and>
     (\<exists>pc. en_pre_candidate e' = Some pc \<and> starting_time pc = now \<and> cd_vote pc = campaign_vote C e) \<and>
     SendPreVote (vote_request_new (campaign_vote C e) (last_log_id (en_state e))) \<in> set (out_commands (en_output e'))"

definition sole_campaigner ::
  "('n::linorder, 'nd, 'l, 'c, 'm, 'q, 'pp, 'cp, 'gp) raft_type_config \<Rightarrow>
   ('n, 'nd, 'l, 'c, 'm, 'd, 's, 'e, 'pp, 'cp, 'gp) raft_core \<Rightarrow> bool" where
  "sole_campaigner C c \<longleftrightarrow>
     stored_is_campaigner (tc_mem C) (effective_membership (rc_engine c)) (rc_id c) \<and>
     mem_voter_ids (tc_mem C) (sm_membership (effective_membership (rc_engine c))) = [rc_id c] \<and>
     leader_node_id (tc_lid C) (vote_ref (rc_state c)) = rc_id c"

definition election_wait ::
  "('n, 'nd, 'l, 'c::linorder, 'm, 'd, 's, 'e, 'pp, 'cp, 'gp) engine \<Rightarrow> nat" where
  "election_wait e =
     (let timers = timer_config (en_config e)
      in election_timeout timers + (if is_there_greater_log e then smaller_log_timeout timers else 0))"

text \<open>A node may elect: it does not lead, or has handed over in vain, and no leader or candidate has been heard of for long enough.\<close>

definition election_due ::
  "('n::linorder, 'nd, 'l, 'c::linorder, 'm, 'q, 'pp, 'cp, 'gp) raft_type_config \<Rightarrow> nat \<Rightarrow>
   ('n, 'nd, 'l, 'c, 'm, 'd, 's, 'e, 'pp, 'cp, 'gp) raft_core \<Rightarrow> bool" where
  "election_due C now c \<longleftrightarrow>
     (st_server_state (rc_state c) = Leader \<longrightarrow> (\<exists>ld. en_leader (rc_engine c) = Some ld \<and> is_transfer_expired now ld)) \<and>
     is_campaigner_in_effective_or_committed (tc_mem C) (st_membership_state (rc_state c)) (rc_id c) \<and> enable_elect c \<and>
     (if sole_campaigner C c then en_candidate (rc_engine c) = None
      else is_expired (st_vote (rc_state c)) now (election_wait (rc_engine c)))"

definition pre_vote_pending ::
  "nat \<Rightarrow> ('n, 'nd, 'l, 'c::linorder, 'm, 'd, 's, 'e, 'pp, 'cp, 'gp) engine \<Rightarrow> bool" where
  "pre_vote_pending now e \<longleftrightarrow> (\<exists>pc. en_pre_candidate e = Some pc \<and> now < starting_time pc + election_wait e)"

lemma elect_campaigns:
  assumes "raft_leader_id (tc_lid C)" "vote_term (tc_lid C) (vote_ref (en_state e)) < 2 ^ 64 - 1"
    "case en_leader e of None \<Rightarrow> True | Some ld \<Rightarrow> is_transfer_expired now ld"
  shows "\<exists>e'. elect C rng now e = Some e' \<and> campaigns C e e'"
proof -
  let ?d = "case en_leader e of None \<Rightarrow> e\<lparr>en_pre_candidate := None\<rparr>
    | Some _ \<Rightarrow> push_command CloseReplicationStreams (prepend_command FailPendingReads (e\<lparr>en_pre_candidate := None, en_leader := None\<rparr>))"
  have "elect C rng now e = start_campaign C rng now None ?d"
    using assms(3) by (simp add: elect_def do_elect_def split: option.splits)
  moreover have d: "en_state ?d = en_state e" "own_id ?d = own_id e" by (simp_all split: option.split)
  then have "campaign_vote C ?d = campaign_vote C e" unfolding campaign_vote_def by presburger
  ultimately show ?thesis
    using start_campaign_total[OF assms(1), of ?d rng now None] assms(2) d(1)
    by (simp only: campaigns_def vote_request_new_def simp_thms)
qed

lemma pre_elect_asks:
  assumes "raft_leader_id (tc_lid C)" "vote_term (tc_lid C) (vote_ref (en_state e)) < 2 ^ 64 - 1"
    "case en_leader e of None \<Rightarrow> True | Some ld \<Rightarrow> is_transfer_expired now ld" "is_expired (st_vote (en_state e)) now t"
  shows "\<exists>e'. pre_elect C rng now e = Some e' \<and> (campaigns C e e' \<or> asks_pre_vote C now e e')"
proof -
  have expired: "is_expired (st_vote (en_state e)) now 0" using assms(4) by (auto simp: is_expired_def split: option.splits)
  define d where "d = e\<lparr>en_config := resample_election_timeout rng (en_config e)\<rparr>"
  have v: "campaign_vote C d = campaign_vote C e" by (simp add: d_def campaign_vote_def)
  obtain granted pc where g: "grant_by C (fst (new_pre_candidate C now (campaign_vote C e) d)) (own_id d) = (granted, pc)"
    by fastforce
  have pc: "starting_time pc = now" "cd_vote pc = campaign_vote C e"
    using g by (auto simp: grant_by_def new_pre_candidate_def candidate_new_def Let_def split: option.split_asm)
  let ?d = "d\<lparr>en_pre_candidate := Some pc\<rparr>"
  have "campaigns C e = campaigns C ?d" by (simp add: campaigns_def fun_eq_iff d_def campaign_vote_def)
  moreover have "\<exists>e'. elect C rng now ?d = Some e' \<and> campaigns C ?d e'"
    by (rule elect_campaigns[OF assms(1)]) (use assms(2,3) in \<open>simp_all add: d_def\<close>)
  moreover have "pre_elect C rng now e =
      (if granted then elect C rng now ?d
       else Some (push_command (SendPreVote (vote_request_new (campaign_vote C e) (last_log_id (en_state e)))) ?d))"
    using expired g v
    by (simp add: pre_elect_def Let_def d_def[symmetric] new_pre_candidate_def candidate_new_def) (simp add: d_def)
  ultimately show ?thesis using pc by (auto simp: asks_pre_vote_def push_command_def out_push_def d_def)
qed

lemma tick_election_eq:
  "handle_tick_election C rng now c =
    (let pre_vote = (enable_pre_vote c \<and> \<not> sole_campaigner C c); e = reset_greater_log (rc_engine c)
     in if \<not> election_due C now c \<or> (pre_vote \<and> pre_vote_pending now (rc_engine c)) then Some c
        else map_option (\<lambda>e. set_engine e c) (if pre_vote then pre_elect C rng now e else elect C rng now e))"
proof -
  let ?e = "rc_engine c" and ?w = "election_wait (rc_engine c)" and ?sole = "sole_campaigner C c"
  have transfer: "(case en_leader ?e of None \<Rightarrow> False | Some ld \<Rightarrow> is_transfer_expired now ld) \<longleftrightarrow>
      (\<exists>ld. en_leader ?e = Some ld \<and> is_transfer_expired now ld)"
    and pending: "(case en_pre_candidate ?e of None \<Rightarrow> False | Some pc \<Rightarrow> now < starting_time pc + ?w) \<longleftrightarrow> pre_vote_pending now ?e"
    by (auto simp: pre_vote_pending_def split: option.split)
  have "handle_tick_election C rng now c =
    (if st_server_state (rc_state c) = Leader \<and> \<not> (\<exists>ld. en_leader ?e = Some ld \<and> is_transfer_expired now ld) then Some c
     else if \<not> is_campaigner_in_effective_or_committed (tc_mem C) (st_membership_state (rc_state c)) (rc_id c) then Some c
     else if \<not> enable_elect c then Some c
     else if ?sole \<and> en_candidate ?e \<noteq> None then Some c
     else if \<not> ?sole \<and> \<not> is_expired (st_vote (rc_state c)) now ?w then Some c
     else if (enable_pre_vote c \<and> \<not> ?sole) \<and> pre_vote_pending now ?e then Some c
     else map_option (\<lambda>e. set_engine e c)
       (if enable_pre_vote c \<and> \<not> ?sole then pre_elect C rng now (reset_greater_log ?e) else elect C rng now (reset_greater_log ?e)))"
    unfolding transfer[symmetric] pending[symmetric]
    unfolding handle_tick_election_def Let_def sole_campaigner_def election_wait_def ..
  then show ?thesis
    by (cases ?sole; cases "st_server_state (rc_state c) = Leader") (auto simp: election_due_def Let_def)
qed

lemma tick_elects:
  assumes "raft_leader_id (tc_lid C)" "vote_term (tc_lid C) (vote_ref (rc_state c)) < 2 ^ 64 - 1"
    and role: "en_leader (rc_engine c) \<noteq> None \<longrightarrow> st_server_state (rc_state c) = Leader"
  shows "\<exists>c'. handle_tick_election C rng now c = Some c' \<and>
    (if \<not> election_due C now c then c' = c
     else if sole_campaigner C c \<or> \<not> enable_pre_vote c then campaigns C (rc_engine c) (rc_engine c')
     else if pre_vote_pending now (rc_engine c) then c' = c
     else campaigns C (rc_engine c) (rc_engine c') \<or> asks_pre_vote C now (rc_engine c) (rc_engine c'))"
proof (cases "election_due C now c")
  case True
  let ?e = "rc_engine c"
  have leader: "case en_leader (reset_greater_log ?e) of None \<Rightarrow> True | Some ld \<Rightarrow> is_transfer_expired now ld"
    using True role by (auto simp: election_due_def reset_greater_log_def split: option.split)
  have same: "campaigns C (reset_greater_log ?e) = campaigns C ?e"
      "asks_pre_vote C now (reset_greater_log ?e) = asks_pre_vote C now ?e" "en_state (reset_greater_log ?e) = rc_state c"
    by (simp_all add: campaigns_def asks_pre_vote_def fun_eq_iff reset_greater_log_def campaign_vote_def)
  show ?thesis
  proof (cases "enable_pre_vote c \<and> \<not> sole_campaigner C c")
    case pre: True
    then have "is_expired (st_vote (rc_state c)) now (election_wait ?e)" using True by (simp add: election_due_def)
    with pre_elect_asks[OF assms(1) _ leader, of "election_wait ?e" rng] assms(2) pre True show ?thesis
      by (cases "pre_vote_pending now ?e") (auto simp: same tick_election_eq)
  next
    case False
    then show ?thesis using elect_campaigns[OF assms(1) _ leader, of rng] assms(2) True by (auto simp: same tick_election_eq)
  qed
qed (simp add: tick_election_eq)

end
