(* ===== verification/CoreSamples.thy ===== *)
theory CoreSamples
  imports CoreClients Samples
begin

text \<open>The core around the sample leader, with a client write in its queue, for the witnesses.\<close>

lemma merge_client_writes_code [code]:
  "merge_client_writes n payloads responders leader msgs =
     (case msgs of
        MClientWrite payloads' responders' leader' # rest \<Rightarrow>
          if 0 < n \<and> leader' = leader
          then merge_client_writes (n - 1) (payloads @ payloads') (responders @ responders') leader rest
          else (MClientWrite payloads responders leader, msgs)
      | _ \<Rightarrow> (MClientWrite payloads responders leader, msgs))"
  by (cases n; cases msgs) (auto split: raft_msg.split)

definition sample_core where
  "sample_core =
     \<lparr>rc_id = 1, rc_config = config_default, enable_heartbeat = True, enable_elect = True, enable_pre_vote = True,
      snapshot_tried_at = None, rc_engine = sample_leader, published = None, client_responders = [],
      pending_reads = pending_read_queue_new, read_deadline = None, replications = [], heartbeat_workers = [],
      pending_notifications = [], notify_channel = [NHeartbeatProgress 2 (SendStamp 1002 0) 2], io_accepted = io_id_new (vote_new std_ops 2 1),
      io_submitted = io_id_new (vote_new std_ops 2 1), io_committed = None, quorum_loss_probe_tx = None, rc_effects = [], rc_handled = []\<rparr>"

definition quiet_input :: command_input where
  "quiet_input = \<lparr>ci_storage = None, ci_send = SmSent, ci_received = 0, ci_flushed = 2\<rparr>"

definition sample_inputs :: round_inputs where
  "sample_inputs = \<lparr>ri_first = replicate 6 quiet_input, ri_msgs = [replicate 6 quiet_input, replicate 6 quiet_input], ri_notifications = [], ri_last = []\<rparr>"

definition sample_msgs :: "(nat, (nat, nat) leader_id_std, nat committed_leader_id, (nat, unit) weighted_membership, string, (nat, unit) weighted_change) raft_msg list" where
  "sample_msgs = [MClientWrite [Normal ''z''] [Some 5] None]"

definition sample_round where
  "sample_round = runtime_round sample_tc weighted_change_apply (\<lambda>_. ()) (\<lambda>_ _. 200) 1003 SelectNotification sample_inputs
      (balancer_new 10000) sample_msgs sample_core"

lemma sample_round_evaluated:
  "(case sample_round of
      Some (Inr (_, msgs), c) \<Rightarrow> msgs = [] \<and> client_responders c = [(5, 5)] \<and> clients c = {#Writer 5#} \<and>
        heard_all sample_tc (rc_handled c) \<and> length (rc_handled c) \<noteq> 0
    | _ \<Rightarrow> False)"
  by code_simp

lemma sample_round_result:
  obtains b c' where
    "runtime_round sample_tc weighted_change_apply (\<lambda>_. ()) (\<lambda>_ _. 200) 1003 SelectNotification sample_inputs
       (balancer_new 10000) sample_msgs sample_core = Some (Inr (b, []), c')"
    "client_responders c' = [(5, 5)]" "clients c' = {#Writer 5#}" "heard_all sample_tc (rc_handled c')" "rc_handled c' \<noteq> []"
proof -
  obtain r c' where r: "sample_round = Some (r, c')" using sample_round_evaluated by (cases sample_round) auto
  note result = sample_round_evaluated[unfolded r option.case prod.case]
  then obtain b msgs where b: "r = Inr (b, msgs)" by (cases r) auto
  show ?thesis using that[of b c'] result r unfolding b sample_round_def by simp
qed

text \<open>The leader, once node 2 has acknowledged a heartbeat and its first entry is committed.\<close>

definition sample_acked where
  "sample_acked =
     (let e = the (try_update_leader_clock sample_tc 2 2 (SendStamp 1002 0) sample_leader);
          io = st_io_state (en_state e);
          cc = LogIOId (CommittedVote (LeaderIdStd 2 1)) (Some (LogId (CommittedLeaderId 2) 4))
      in set_state ((en_state e)\<lparr>st_io_state := io\<lparr>io_cluster_committed := \<lparr>mono_value = Some cc\<rparr>\<rparr>\<rparr>) e)"

definition sample_reader :: linearizer_option where
  "sample_reader = \<lparr>max_quorum_ack_age = None, heartbeat_if_quorum_ack_stale = True, wait_timeout = None\<rparr>"

text \<open>The follower, when entries 1 and 2 are committed and in the log but not yet applied.\<close>

definition sample_applier where
  "sample_applier =
     (let cv = CommittedVote (LeaderIdStd 1 2); io = st_io_state (en_state sample_node)
      in sample_core
           \<lparr>rc_engine := set_state ((en_state sample_node)
              \<lparr>st_io_state := io
                 \<lparr>log_progress := io_progress_new (Some (io_id_new_log_io cv (Some (lid1 3)))),
                  apply_progress := (apply_progress io)\<lparr>submitted := Some (lid1 0), flushed := Some (lid1 0)\<rparr>\<rparr>\<rparr>) sample_node,
            client_responders := [(2, 11), (3, 12)]\<rparr>)"

end
