(* ===== verification/Spec2Isabelle.thy ===== *)
theory Spec2Isabelle
  imports Prelude Vote LogIdList IOState Timing Memberships MembershipChanges Samples CoreSpecs CoreSamples
begin

text \<open>
  Verification of openraft, an implementation of the Raft protocol in Rust.

  \<^bold>\<open>The program.\<close>  A node is one task, the core, that owns an engine.  The engine holds the
  state of the protocol and makes every decision as a pure step: it takes an event and leaves commands
  in an output queue.  The core feeds it the messages of clients and other nodes and the notifications
  of its own tasks, and runs the commands: it writes the log and the vote, sends entries to the state
  machine, starts replication streams, and answers clients once the I/O they wait for is done.
  Quorums and memberships are a crate of their own, used by the engine through an interface.  Paths
  below are relative to \<open>src/openraft/src\<close>, or to \<open>src/membership/src\<close> for memberships.

  \<^bold>\<open>Data.\<close>  \<open>Vote\<close> has leader ids in both modes (\<open>vote/leader_id\<close>), votes and their partial order;
  the trait of leader ids is the locale \<open>raft_leader_id\<close>.  \<open>LogIds\<close> and \<open>LogIdList\<close> have log ids and
  the compressed list of them that the engine keeps (\<open>engine/log_id_list.rs\<close>), with the bisection that
  loads it from storage and the comparison of a conflict hint.  \<open>IOState\<close> has the cursors of accepted,
  submitted and flushed I/O (\<open>raft_state/io_state\<close>), \<open>Timing\<close> the leases and the quiet periods of a leader
  that lost its quorum (\<open>utime.rs\<close>, \<open>engine/quorum_loss_probe.rs\<close>), \<open>BTree\<close> the ordered collections of
  the standard library, \<open>Prelude\<close> arithmetic on machine integers and what all theories share.

  \<^bold>\<open>Memberships.\<close>  \<open>RaftMembership\<close> is the interface (\<open>membership/raft_membership.rs\<close>) and its contract.
  \<open>QuorumRules\<close> and \<open>StructuredRules\<close> have the joint, threshold, weighted, grid, explicit and hierarchical
  rules with their intersection tests, \<open>ConfigMembership\<close>, \<open>Memberships\<close> and \<open>ThresholdMembership\<close> the
  memberships over them and their changes.  \<open>MembershipState\<close> has the committed and effective membership
  and the choice between a direct and a joint change (\<open>raft_state/membership_state\<close>), \<open>MembershipChanges\<close>
  histories of changes.  Every rule is an instance of the locale \<open>quorum_rule\<close>, every membership of
  \<open>raft_membership\<close> and \<open>membership_editing\<close>, so that what is proved in these locales holds for each.

  \<^bold>\<open>Engine.\<close>  \<open>RaftState\<close> is the state of a node, \<open>Progress\<close> the leader's view of one follower, \<open>Proposer\<close>
  the leader and the candidate, \<open>Commands\<close> the output queue, \<open>Handlers\<close> the handlers of
  \<open>engine/handler\<close>, and \<open>Engine\<close> the operations of \<open>engine/engine_impl.rs\<close>.  \<open>NodeSpec\<close> is an abstract node: a
  vote that grows, a log that is truncated only above the commit point and extended in order, and the
  invariant that follows.  \<open>EngineViews\<close> and \<open>EngineRuns\<close> show that each operation of the engine, as a case of the step
  relation \<open>engine_step\<close>, is a run of the abstract node.

  \<^bold>\<open>Core.\<close>  \<open>Config\<close> is the configuration with its validation (\<open>config/config.rs\<close>).  \<open>CoreQueues\<close> has the queues
  of waiting writers and readers and the budgets of a round, \<open>CoreState\<close> the messages, the state of the
  core and linearizable reads, \<open>Core\<close> the handlers of messages and notifications, \<open>CoreCommands\<close> the
  execution of commands and a round of the main loop (\<open>runtime_round\<close> for \<open>runtime_loop\<close>), all of
  \<open>core/raft_core.rs\<close>.  What leaves the core is a list of effects, in order, and what the core has handled
  is a history, each event with the engine before and after it; both are fields of the model only.
  \<open>CoreRuns\<close> shows that each handler is a run of engine steps.  \<open>CoreLoop\<close> has the locale \<open>core_closed\<close>: a relation between the core
  before and after that holds for the handlers and for single commands holds for a round.  It is
  interpreted twice: on \<open>refines_heard\<close>, the refinement of the abstract node when every event in the history is one a
  correct node can hear, and in \<open>CoreClients\<close> on the ledger of clients, which gives that none is lost or answered twice.
  \<open>CoreSpecs\<close> has the facts on single operations.  \<open>Samples\<close> and \<open>CoreSamples\<close> are concrete nodes for the witnesses.

  \<^bold>\<open>How the code is read.\<close>  A record is a struct, a datatype an enum.  A panic is \<open>None\<close>; an error is
  the left of a sum.  Debug assertions are not part of the model.  Indexes and counters are natural
  numbers, with the wrap-around, saturation or overflow of \<open>u64\<close> written out where the code can reach it.
  Instants and durations are nanoseconds; a handler reads the clock once.  A response channel is the
  number of its client.  Loops are structural recursion, except the bisection over the storage, which is
  a partial function that is proved to return.  The loops of the core over its commands take one input for each
  command they run: the result of the storage call, whether the state machine's channel takes the
  command, and how many notifications arrive meanwhile.  The results hold for every list of inputs, so
  the length of the list is no bound on the code.

  \<^bold>\<open>What is a parameter.\<close>  The quorum-tracking structures, the random source, the clock and the
  parser of back-off policies are not in the sources that are modelled: they are arguments
  (\<open>raft_type_config\<close>, \<open>rng\<close>, \<open>now\<close>).  Properties assume of other nodes only what the protocol
  gives: \<open>vote_heard\<close> (nobody else holds a vote for this node that it did not cast), \<open>segment_heard\<close> (a
  leader sends entries of its log in order), \<open>committed_known\<close> (an announced commit point is in the
  log of a node that has matched it), and \<open>event_heard\<close>, which applies them to the events of the core.
  Of the node itself some assume what it keeps on its own: \<open>submitted_in_log\<close> (the last entry handed to
  the storage is not truncated), \<open>in_order\<close> (responses are queued in the order of the I/O they wait for)
  and \<open>batch_end_positive\<close> (the end of a full batch to purge is not 0, which a purge batch size of 0 or a
  wrap-around can break).

  \<^bold>\<open>What is shown.\<close>  For the engine: it refines the abstract node and keeps its invariant; committed
  entries stay; a node that keeps its vote only appends; one grant per term; the rules of granting
  votes and of accepting entries; only own entries are committed and announced; what a tick does about
  elections; the requests of a replication round; start-up establishes the invariant.  For the core: a round refines the abstract node; clients
  are accounted for; membership changes are guarded; reads are fresh; entries are applied in order;
  timers of a valid configuration are in order; budgets are bounded.  For the data: the compressed log
  refines a map from indexes; the intersection tests are exact; memberships over a history of changes
  keep quorums that meet; the search for the matching log id of a follower ends and stale answers are
  ignored; responses and batches keep their order.

  \<^bold>\<open>Not modelled.\<close>  The asynchronous tasks beside the core (replication streams, heartbeat workers, the
  state machine worker, timers), the API that sends messages to the core, metrics, the traits that an
  application implements for storage and network, the runtimes, stores, macros, examples and tests.
  The tasks reach the modelled state only through notifications and effects, and their code is
  scheduling and I/O.  Of the core, publishing metrics and the messages behind the optional feature \<open>runtime-stats\<close> are left out; of the configuration, command-line
  parsing and the fields that only the tasks read; of messages, their serialised and displayed forms.
  That the system as a whole elects one leader needs the messages of several nodes and is not
  stated: the results are those of one node.
\<close>

section \<open>The compressed list of log ids\<close>

text \<open>The log of the witnesses: entries up to index 2 are purged, 3 to 4 are leader 1's, 5 to 8 leader 2's.\<close>

definition sample_log :: "nat log_id_list" where
  "sample_log = \<lparr> purged = Some (LogId 1 2), key_log_ids = [LogId 1 4, LogId 2 8] \<rparr>"

lemma sample_log_wf: "log_wf sample_log"
  by (simp add: sample_log_def log_wf_def key_before_def first_index_def next_index_def)

text \<open>
  C16: truncating the compressed list keeps it well-formed and has, on the log it
  stands for, exactly the effect of dropping every entry at or after the index.
\<close>

theorem log_truncate_refines:
  assumes "log_wf l"
  shows "log_wf (log_truncate l at) \<and>
    (\<forall>i. log_view (log_truncate l at) i = (if i < at then log_view l i else None))"
  using log_truncate_wf[OF assms] log_truncate_view[OF assms] by blast

theorem log_truncate_refines_witness:
  "log_wf (log_truncate sample_log 6) \<and> log_view (log_truncate sample_log 6) 7 = None \<and>
   log_view (log_truncate sample_log 6) 5 = log_view sample_log 5"
  using log_truncate_refines[OF sample_log_wf, of 6] by simp

text \<open>
  C17: extending the compressed list with consecutive log ids of non-decreasing
  leaders keeps it well-formed and has, on the log it stands for, exactly the effect of appending them.
\<close>

theorem log_extend_refines:
  assumes "log_wf l" "can_extend l ids"
  shows "log_wf (log_extend l ids) \<and>
    (\<forall>i. log_view (log_extend l ids) i =
      (let n = next_index (log_last l) in
       if n \<le> i \<and> i < n + length ids then Some (clid (ids ! (i - n))) else log_view l i))"
  using log_extend_wf[OF assms] log_extend_view[OF assms] by blast

theorem log_extend_refines_witness:
  "log_wf (log_extend sample_log [LogId 2 9, LogId 4 10]) \<and>
   log_view (log_extend sample_log [LogId 2 9, LogId 4 10]) 10 = Some 4"
proof -
  have "can_extend sample_log [LogId 2 9, LogId 4 10]"
    by (simp add: can_extend_def sample_log_def log_last_def next_index_def)
  from log_extend_refines[OF sample_log_wf this] show ?thesis
    by (simp add: sample_log_def log_last_def next_index_def)
qed

text \<open>
  C18: purging up to a log id of the log, or past its end, keeps the compressed list
  well-formed and removes exactly the entries at or before that index; an index that is already purged
  changes nothing.
\<close>

theorem log_purge_refines:
  assumes "log_wf l" "can_purge l x"
  shows "log_wf (log_purge l x) \<and>
    (\<forall>i. log_view (log_purge l x) i =
      (if first_index l \<le> idx x \<and> i \<le> idx x then None else log_view l i))"
  using log_purge_wf[OF assms] log_purge_view[OF assms(1)] by blast

theorem log_purge_refines_witness:
  "log_wf (log_purge sample_log (LogId 3 12)) \<and> log_view (log_purge sample_log (LogId 3 12)) 8 = None"
proof -
  have "can_purge sample_log (LogId 3 12)"
    by (simp add: can_purge_def sample_log_def log_last_def next_index_def)
  from log_purge_refines[OF sample_log_wf this] show ?thesis
    by (simp add: sample_log_def first_index_def next_index_def)
qed

text \<open>
  C19: the binary search of \<open>ref_at\<close> finds the log id of every retained index,
  the last purged log id at its own index, and nothing elsewhere.
\<close>

theorem log_lookup_refines:
  assumes "log_wf l"
  shows "ref_at l i =
    (if i < first_index l
     then (case purged l of Some p \<Rightarrow> if i = idx p then Some p else None | None \<Rightarrow> None)
     else map_option (\<lambda>c. LogId c i) (log_view l i))"
  by (rule ref_at_view[OF assms])

theorem log_lookup_refines_witness: "ref_at sample_log 2 = Some (LogId 1 2) \<and> ref_at sample_log 1 = None"
  using log_lookup_refines[OF sample_log_wf, of 2] log_lookup_refines[OF sample_log_wf, of 1]
  by (simp add: sample_log_def first_index_def next_index_def)

text \<open>
  C20: on a storage whose entries have non-decreasing leaders, the bisection of
  \<open>get_key_log_ids\<close> ends, succeeds, and loads the very list that extending an empty one with every
  stored log id would build.
\<close>

theorem get_key_log_ids_complete:
  fixes f :: "nat \<Rightarrow> 'c::linorder"
  assumes "\<forall>i j. a \<le> i \<and> i \<le> j \<and> j \<le> b \<longrightarrow> f i \<le> f j"
    and "\<forall>i. a \<le> i \<and> i \<le> b \<longrightarrow> sto i = Inr (LogId (f i) i)" and "a \<le> b"
  shows "get_key_log_ids sto (LogId (f a) a) (LogId (f b) b) =
    Some (Inr (key_log_ids (log_extend (log_id_list_new p []) (ids_between f a b))))"
  by (rule get_key_log_ids_eq_extend[OF assms])

theorem get_key_log_ids_complete_witness:
  "get_key_log_ids (\<lambda>i. Inr (LogId (i div 3) i)) (LogId (0::nat) 2) (LogId 2 7) =
   Some (Inr (key_log_ids (log_extend (log_id_list_new None []) (ids_between (\<lambda>i. i div 3) 2 7))))"
  using get_key_log_ids_complete[of 2 7 "\<lambda>i. i div 3" "\<lambda>i. Inr (LogId (i div 3) i)" None]
  by (simp add: div_le_mono)

text \<open>
  C21: for log ids of one leader, the shortcut
  \<open>extend_from_same_leader\<close>, which looks at the first and the last one only, builds the same list as
  appending them one by one.
\<close>

theorem same_leader_extend_equivalent:
  assumes "\<forall>x \<in> set ids. clid x = c"
  shows "extend_from_same_leader l ids = log_extend l ids"
  by (rule extend_from_same_leader_eq[OF assms])

theorem same_leader_extend_equivalent_witness:
  "extend_from_same_leader sample_log [LogId 5 9, LogId 5 10, LogId 5 11] =
   log_extend sample_log [LogId 5 9, LogId 5 10, LogId 5 11]"
  using same_leader_extend_equivalent[of "[LogId 5 9, LogId 5 10, LogId 5 11]" 5 sample_log] by simp

text \<open>
  C22: comparing a follower's hint with the leader's log never misleads the leader.
  For logs in which a leader id fixes the prefix before it, the log id that the comparison reports as
  common is in both logs, and no log id at or after the reported divergence is.
\<close>

theorem conflict_hint_sound:
  assumes "logs_match G F l"
    and "\<forall>s \<in> set samples. F (idx s) = Some (clid s)"
    and "\<forall>i \<ge> next_index (last_opt samples). F i = None"
  shows "hint_sound F l (hint_compare samples l)"
  by (rule hint_compare_sound[OF assms])

definition sample_follower :: "nat \<Rightarrow> nat option" where
  "sample_follower i = (if i < 5 then Some 1 else None)"

theorem conflict_hint_sound_witness:
  "hint_sound sample_follower \<lparr> purged = None, key_log_ids = [LogId 1 9] \<rparr>
     (hint_compare [LogId 1 0, LogId 1 4] \<lparr> purged = None, key_log_ids = [LogId 1 9] \<rparr>)"
proof -
  let ?l = "\<lparr> purged = None, key_log_ids = [LogId (1::nat) 9] \<rparr>"
  have wf: "log_wf ?l" by (simp add: log_wf_def key_before_def)
  have one: "c = 1" if "log_get_clid ?l i = Some c" for i c
    using that ref_at_view[OF wf] by (auto simp: log_get_clid_def log_get_def log_view_def split: if_splits)
  have "logs_match (\<lambda>_ _. 1) sample_follower ?l"
    using wf one by (auto simp: logs_match_def matches_leaders_def sample_follower_def split: if_splits)
  from conflict_hint_sound[OF this, of "[LogId 1 0, LogId 1 4]"] show ?thesis
    by (simp add: sample_follower_def last_opt_def next_index_def)
qed

section \<open>Quorum rules and membership changes\<close>

text \<open>
  C23: for threshold rules, the counting argument of
  \<open>intersects_with\<close> answers whether every quorum of one rule meets every quorum of the other, with
  no false answer in either direction and no overflow on rules that fit the machine integers.
\<close>

theorem threshold_intersection_exact:
  assumes "threshold_wf a" "threshold_wf b"
  shows "threshold_intersects_with a b = Some (quorums_meet (threshold_is_quorum a) (threshold_is_quorum b))"
  by (rule threshold_intersects_exact[OF assms])

theorem threshold_intersection_exact_witness:
  "quorums_meet (threshold_is_quorum (threshold_new 2 [1, 2, 3::nat])) (threshold_is_quorum (threshold_new 2 [1, 2, 3])) \<and>
   \<not> quorums_meet (threshold_is_quorum (threshold_new 2 [1, 2, 3::nat])) (threshold_is_quorum (threshold_new 1 [1, 2, 3]))"
proof -
  have wf: "threshold_wf (threshold_new 2 [1, 2, 3::nat])" "threshold_wf (threshold_new 1 [1, 2, 3::nat])"
    by (simp_all add: threshold_wf_def threshold_new_def btree_set_wf_def u64_max_def)
  show ?thesis
    using threshold_intersection_exact[OF wf(1) wf(1)] threshold_intersection_exact[OF wf]
    by (simp add: threshold_intersects_with_def threshold_new_def Let_def saturating_add_def u64_max_def)
qed

text \<open>
  C24: the read and write rules that \<open>rules_from_weights\<close> derives from node
  weights and a write weight always have meeting quorums, the write rule has the given weight, and the
  two weights add up to exactly one more than the total weight.
\<close>

theorem weighted_rules_meet:
  assumes "bm_wf weights" "rules_from_weights weights w = Inr (rd, wr)"
  shows "quorums_meet (weighted_is_quorum rd) (weighted_is_quorum wr) \<and>
    w_threshold wr = w \<and> w_threshold rd + w_threshold wr = weight_of weights UNIV + 1"
  using rules_from_weights_ok[OF assms] weighted_rule.isect_sound by simp

theorem weighted_rules_meet_witness:
  "\<exists>rd wr. rules_from_weights [(1::nat, 3), (2, 1), (4, 1)] 2 = Inr (rd, wr) \<and> w_threshold rd = 4 \<and>
     quorums_meet (weighted_is_quorum rd) (weighted_is_quorum wr)"
proof -
  obtain rd wr where ok: "rules_from_weights [(1::nat, 3), (2, 1), (4, 1)] 2 = Inr (rd, wr)"
    by (simp add: rules_from_weights_def sum_weights.simps checked_add_def u64_max_def weighted_new_def Let_def)
  have "bm_wf [(1::nat, 3::nat), (2, 1), (4, 1)]" by (simp add: bm_wf_def)
  from weighted_rules_meet[OF this ok] ok show ?thesis by auto
qed

text \<open>
  C25: whenever the structural test of two grid rules gives an answer, the
  answer is exactly whether their quorums meet.
\<close>

theorem grid_intersection_exact:
  assumes "grid_wf a" "grid_wf b" "grid_intersects_with a b = Some ans"
  shows "ans \<longleftrightarrow> quorums_meet (grid_is_quorum a) (grid_is_quorum b)"
  by (rule grid_intersects_exact[OF assms])

theorem grid_intersection_exact_witness:
  "quorums_meet (grid_is_quorum \<lparr>g_grid = [[1, 2], [3, 4::nat]], g_rule = FullRow\<rparr>)
     (grid_is_quorum \<lparr>g_grid = [[1, 2], [3, 4]], g_rule = OnePerRow\<rparr>)"
proof -
  have wf: "grid_wf \<lparr>g_grid = [[1, 2], [3, 4::nat]], g_rule = r\<rparr>" for r
    by (auto simp: grid_wf_def check_grid_ok intro!: exI[of _ "2::nat"])
  show ?thesis
    using grid_intersection_exact[OF wf[of FullRow] wf[of OnePerRow], of True]
    by (simp add: grid_intersects_with_def)
qed

text \<open>
  C26: the dual of a tree of groups is the coarsest rule that meets it: a set
  of nodes reaches the dual exactly when it shares a node with every set that reaches the tree.
\<close>

theorem hierarchical_dual_exact:
  fixes g :: "'n::linorder group"
  assumes "sizes_fit g"
  shows "is_reached_by (group_dual g) xs \<longleftrightarrow> (\<forall>ys. is_reached_by g ys \<longrightarrow> set xs \<inter> set ys \<noteq> {})"
  by (rule group_dual_exact[OF assms])

definition sample_group :: "nat group" where
  "sample_group = Group 2 [] [(''a'', Group 1 [1, 2] []), (''b'', Group 2 [3, 4] [])]"

theorem hierarchical_dual_exact_witness:
  "is_reached_by (group_dual sample_group) [3] \<and> \<not> is_reached_by (group_dual sample_group) [1]"
proof -
  have "is_reached_by sample_group [2, 3, 4]" "sizes_fit sample_group" by (simp_all add: sample_group_def)
  then have "\<not> is_reached_by (group_dual sample_group) [1]"
    using hierarchical_dual_exact[of sample_group "[1]"] by force
  then show ?thesis by (simp add: sample_group_def)
qed

text \<open>
  C27: \<open>node_ids\<close> of a joint configuration lists exactly the nodes that
  \<open>get_node\<close> finds, each once and in order.
\<close>

theorem node_ids_active:
  "btree_set_wf (jc_node_ids rids m) \<and> (nid \<in> set (jc_node_ids rids m) \<longleftrightarrow> jc_get_node rids m nid \<noteq> None)"
  by (simp add: jc_node_ids_active, simp add: jc_node_ids_def Let_def, simp add: btree_set_wf_def)

text \<open>
  C28: joining two configurations never panics, and the result gives every active node
  one metadata: the goal's when the goal knows the node, and else the current one.
\<close>

theorem joint_metadata:
  "\<exists>j. jc_joint_with rids m goal = Some j \<and>
    (\<forall>nid. jc_get_node rids j nid \<noteq> None \<longrightarrow>
       map_option nr_node (jc_get_node rids j nid) =
       (case jc_get_node rids goal nid of
          Some known \<Rightarrow> Some (nr_node known)
        | None \<Rightarrow> map_option nr_node (jc_get_node rids m nid)))"
proof -
  obtain j where "jc_joint_with rids m goal = Some j" using jc_joint_with_total by blast
  with jc_joint_with_node[OF this] show ?thesis unfolding known_node_def by blast
qed

definition sample_config :: "nat list \<Rightarrow> string \<Rightarrow> (nat, string, nat threshold_quorum_set) config" where
  "sample_config ids addr =
     \<lparr>cfg_read = threshold_new 2 ids, cfg_write = threshold_new 2 ids, cfg_nodes = map (\<lambda>i. (i, addr, None)) ids\<rparr>"

theorem joint_metadata_witness:
  "\<exists>j. jc_joint_with t_ids (Joint [sample_config [1, 2] ''a'']) (Joint [sample_config [2, 3] ''b'']) = Some j \<and>
     map_option nr_node (jc_get_node t_ids j 1) = Some ''a''"
proof -
  let ?m = "Joint [sample_config [1, 2] ''a'']" and ?goal = "Joint [sample_config [2, 3] ''b'']"
  obtain j where j: "jc_joint_with t_ids ?m ?goal = Some j" and
    node: "jc_get_node t_ids j 1 \<noteq> None \<longrightarrow> map_option nr_node (jc_get_node t_ids j 1) =
      (case jc_get_node t_ids ?goal 1 of Some known \<Rightarrow> Some (nr_node known)
       | None \<Rightarrow> map_option nr_node (jc_get_node t_ids ?m 1))"
    using joint_metadata[of t_ids ?m ?goal] by blast
  have "jc_get_node t_ids (the (jc_joint_with t_ids ?m ?goal)) 1 \<noteq> None" by code_simp
  with j have "jc_get_node t_ids j 1 \<noteq> None" by simp
  moreover have "jc_get_node t_ids ?goal 1 = None" "map_option nr_node (jc_get_node t_ids ?m 1) = Some ''a''"
    by code_simp+
  ultimately show ?thesis using j node by fastforce
qed

text \<open>
  C29: over every history of accepted weighted membership changes, commits and
  truncations, each of the committed and the effective membership's elections sees the other's commits.
\<close>

theorem weighted_history_safe:
  assumes "membership_run weighted_ops weighted_change_apply weighted_typed s0 s"
    and "run_inv weighted_ops (sound_membership weighted_wf weighted_intersects_with) s0"
  shows "safe_step weighted_ops (sm_membership (ms_committed s)) (sm_membership (ms_effective s)) \<and>
    sound_membership weighted_wf weighted_intersects_with (sm_membership (ms_effective s))"
  using weighted_edit.run_invariant[OF assms] by (simp add: run_inv_def)

definition sample_weighted_state :: "(nat, (nat, unit) weighted_membership) membership_state" where
  "sample_weighted_state =
     \<lparr>ms_committed = \<lparr>sm_log_id = Some (LogId 1 0), sm_membership = sample_weighted\<rparr>,
      ms_effective = \<lparr>sm_log_id = Some (LogId 1 0), sm_membership = sample_weighted\<rparr>\<rparr>"

lemma sample_weighted_sound: "sound_membership weighted_wf weighted_intersects_with sample_weighted"
proof -
  have "case weighted_membership_new [(1::nat, 2), (2, 1), (3, 1)] 3 [(1, ()), (2, ()), (3, ())] of Inr _ \<Rightarrow> True | _ \<Rightarrow> False"
    by code_simp
  then have "weighted_membership_new [(1, 2), (2, 1), (3, 1)] 3 [(1, ()), (2, ()), (3, ())] = Inr sample_weighted"
    by (simp add: sample_weighted_def split: sum.splits)
  then show ?thesis by (rule weighted_membership_new_sound) (simp add: bm_wf_def)
qed

theorem weighted_history_safe_witness:
  "\<exists>m'. next_membership weighted_ops (weighted_change_apply (weighted_change_weights [(1, 1), (2, 3), (3, 1)]))
     (\<lambda>e. e) sample_weighted_state False = Some (Inr (m', True)) \<and> safe_step weighted_ops sample_weighted m'"
proof -
  let ?ch = "weighted_change_weights [(1::nat, 1), (2, 3), (3, 1)] :: (nat, unit) weighted_change"
  let ?next = "next_membership weighted_ops (weighted_change_apply ?ch) (\<lambda>e. e) sample_weighted_state False"
  have "(case ?next of Some (Inr (_, b)) \<Rightarrow> b | _ \<Rightarrow> False)" by code_simp
  then obtain m' where m': "?next = Some (Inr (m', True))" by (auto split: option.splits sum.splits)
  have inv: "run_inv weighted_ops (sound_membership weighted_wf weighted_intersects_with) sample_weighted_state"
    using sample_weighted_sound weighted_edit.sound_consistent by (simp add: run_inv_def sample_weighted_state_def)
  have "membership_run weighted_ops weighted_change_apply weighted_typed sample_weighted_state
      (ms_append sample_weighted_state \<lparr>sm_log_id = Some (LogId 1 7), sm_membership = m'\<rparr>)"
    by (rule membership_run.propose[OF membership_run.start, where ch = ?ch and retain = False and is_joint = True])
      (simp add: weighted_typed_def weighted_change_weights_def bm_wf_def,
       simp add: sample_weighted_state_def, rule m')
  from weighted_history_safe[OF this inv] m' show ?thesis
    by (simp add: ms_append_def sample_weighted_state_def)
qed

section \<open>Votes, cursors and time\<close>

text \<open>
  C31: for both kinds of leader id, the order of votes is a partial order, and a vote of a
  later term is greater whatever node it is for.
\<close>

theorem vote_order:
  fixes u v w :: "('t::linorder, 'n) leader_id_std vote" and a b c :: "('t, 'm::linorder) leader_id_adv vote"
  shows "vote_ge std_ops v v \<and> (vote_ge std_ops u v \<and> vote_ge std_ops v w \<longrightarrow> vote_ge std_ops u w) \<and>
      (vote_ge std_ops v w \<and> vote_ge std_ops w v \<longrightarrow> v = w) \<and>
      (vote_term std_ops w < vote_term std_ops v \<longrightarrow> vote_gt std_ops v w) \<and>
      vote_ge adv_ops b b \<and> (vote_ge adv_ops a b \<and> vote_ge adv_ops b c \<longrightarrow> vote_ge adv_ops a c) \<and>
      (vote_ge adv_ops b c \<and> vote_ge adv_ops c b \<longrightarrow> b = c) \<and>
      (vote_term adv_ops c < vote_term adv_ops b \<longrightarrow> vote_gt adv_ops b c)"
  using std.vote_ge_trans std.vote_ge_antisym std.vote_later_term_gt
    adv.vote_ge_trans adv.vote_ge_antisym adv.vote_later_term_gt
  unfolding vote_term_def by (smt (verit) std.vote_ge_refl adv.vote_ge_refl)

theorem vote_order_witness:
  "vote_gt std_ops (vote_new std_ops 3 ''b'') (vote_new_committed std_ops (2::nat) ''a'')"
proof -
  let ?v = "vote_new std_ops 3 ''b''" and ?w = "vote_new_committed std_ops (2::nat) ''a''"
  have "vote_term std_ops ?w < vote_term std_ops ?v \<longrightarrow> vote_gt std_ops ?v ?w"
    using vote_order[where v = ?v and w = ?w] by blast
  then show ?thesis by (simp add: vote_term_def vote_new_def vote_new_committed_def std_ops_def)
qed

text \<open>
  C30: recording what the cluster has committed never moves the local committed
  log id back, and moves it only to a log id that the accepted log of a leader at least as late as
  that log id's own covers.
\<close>

theorem commit_within_accepted:
  "local_committed s \<le> local_committed (update_committed L s cc) \<and>
   (local_committed (update_committed L s cc) = local_committed s \<or>
    (\<exists>acc cv x. accepted_log_io s = Some acc \<and> io_to_committed_vote acc = Some cv \<and>
       local_committed (update_committed L s cc) = Some x \<and> Some x \<le> io_last_log_id acc \<and>
       clid x \<le> cv_committed_leader_id L cv))"
  using update_committed_mono update_committed_accepted by blast

text \<open>
  C32: a leader that lost its quorum and is told to stay quiet for a time is quiet for
  exactly that time and probes again when it is over, and within the lease it is never quiet.
\<close>

theorem quiet_period_ends:
  assumes "0 < qlp_interval q" "qlp_interval q \<le> u64_max" "quorum_acked_at q \<le> now"
    "quiet_for q now = Some (Some r)"
  shows "0 < r \<and> (\<forall>t < r. quiet_for q (now + t) = Some (Some (r - t))) \<and> quiet_for q (now + r) = Some None \<and>
    qlp_leader_lease q \<le> now - quorum_acked_at q"
  using quiet_for_ends[OF assms] quiet_for_within_lease[of now q] assms(4) by fastforce

theorem quiet_period_ends_witness:
  "quiet_for \<lparr>quorum_acked_at = 10, qlp_leader_lease = 5, qlp_interval = 4\<rparr> 19 = Some None"
proof -
  let ?q = "\<lparr>quorum_acked_at = 10, qlp_leader_lease = 5, qlp_interval = 4\<rparr>"
  have "quiet_for ?q 16 = Some (Some 3)" by (simp add: quiet_for_def phase_def Let_def u64_max_def)
  from quiet_period_ends[OF _ _ _ this] show ?thesis by (simp add: u64_max_def)
qed

text \<open>
  C33: the write rules and nodes of a sound threshold membership determine it:
  decoding what is persisted of it gives the membership back.
\<close>

theorem threshold_round_trip_ok:
  assumes "threshold_sound m" "threshold_voters_have_nodes m = Inr ()"
  shows "threshold_try_from (tm_write m) (tm_nodes m) = Some (Inr m)"
  by (rule threshold_round_trip[OF assms])

definition sample_threshold :: "(nat, unit) threshold_membership" where
  "sample_threshold =
     \<lparr>tm_read = Joint [threshold_new 2 [1, 2, 3]], tm_write = Joint [threshold_new 2 [1, 2, 3]],
      tm_nodes = [(1, ()), (2, ()), (3, ()), (4, ())]\<rparr>"

theorem threshold_round_trip_ok_witness:
  "threshold_try_from (tm_write sample_threshold) (tm_nodes sample_threshold) = Some (Inr sample_threshold)"
proof (rule threshold_round_trip_ok)
  show "threshold_sound sample_threshold"
    by (simp add: threshold_sound_def sample_threshold_def config_pair_def threshold_wf_def threshold_new_def
        btree_set_wf_def u64_max_def)
  have "(case threshold_voters_have_nodes sample_threshold of Inr _ \<Rightarrow> True | Inl _ \<Rightarrow> False)" by code_simp
  then show "threshold_voters_have_nodes sample_threshold = Inr ()" by (simp split: sum.splits)
qed

section \<open>Replication to a follower\<close>

text \<open>
  C34: whenever nothing is in flight to a follower, \<open>next_send\<close> produces a
  request and keeps the entry valid: a probe of entries that the leader still has, a stream from the
  matching log id when the search is over, or a snapshot when the logs to send are purged. As long as
  the counter does not overflow, the id of the request is greater than every id given out before, so
  that no response to an earlier request is taken for an answer to this one.
\<close>

theorem next_send_requests:
  assumes "can_send e s" "inflight_of e = InflightNone" "0 < max_entries" "last_inflight_id s < u64_max"
  shows "\<exists>fl e' s'. next_send e s max_entries = (Inr fl, e', s') \<and> request_ok e s fl \<and> inflight_of e' = fl \<and>
    matching e' = matching e \<and> progress_entry_validate e' \<and>
    inflight_id fl = last_inflight_id s + 1 \<and> last_inflight_id s' = inflight_id fl \<and> (\<forall>j \<le> last_inflight_id s. \<not> awaits e' j)"
proof -
  let ?fl = "next_request e s max_entries (fst (new_inflight_id s))"
  have ok: "request_ok e s ?fl" "inflight_id ?fl = fst (new_inflight_id s)" using next_request_ok[OF assms(1,3)] by blast+
  have "progress_entry_validate (e\<lparr>pe_data := (pe_data e)\<lparr>probe_start := None, pd_inflight := ?fl\<rparr>\<rparr>)"
    by (rule request_validate[OF assms(1) ok(1)]) simp_all
  moreover have "fst (new_inflight_id s) = last_inflight_id s + 1" by (rule new_inflight_id_fresh[OF assms(4)])
  ultimately show ?thesis using ok by (simp add: next_send_eq[OF assms(2)] Let_def new_inflight_id_def awaits_def)
qed

definition sample_state :: "((nat, nat) leader_id_std, nat, unit) raft_state" where
  "sample_state =
     \<lparr>st_vote = leased_without_last_update (vote_new std_ops 3 1),
      st_log_ids = sample_log,
      st_membership_state = \<lparr>ms_committed = \<lparr>sm_log_id = None, sm_membership = ()\<rparr>, ms_effective = \<lparr>sm_log_id = None, sm_membership = ()\<rparr>\<rparr>,
      st_snapshot_meta = \<lparr>snap_last_log_id = Some (LogId 1 2), snap_last_membership = \<lparr>sm_log_id = None, sm_membership = ()\<rparr>\<rparr>,
      last_inflight_id = 7, st_server_state = Leader, st_io_state = io_state_default,
      st_purge_upto = Some (LogId 1 2), progress_id_gen = 1\<rparr>"

lemma sample_can_send: "can_send (progress_entry_empty nid sid 9) sample_state"
  using sample_log_wf
  by (simp add: can_send_def sample_state_def progress_entry_empty_def progress_data_new_def matching_in_log_def
      last_log_id_def log_last_def sample_log_def first_index_def)

theorem next_send_requests_witness:
  "\<exists>fl e' s'. next_send (progress_entry_empty (2::nat) 5 9) sample_state 4 = (Inr fl, e', s') \<and> progress_entry_validate e' \<and>
     inflight_id fl = 8 \<and> \<not> awaits e' 7"
  using next_send_requests[OF sample_can_send[of 2 5], of 4]
  by (auto simp: progress_entry_empty_def progress_data_new_def sample_state_def u64_max_def)

text \<open>
  C35: a response to a request that is no longer the one in flight changes
  nothing of the follower's progress, whether it reports a match or a conflict.
\<close>

theorem stale_responses_ignored:
  assumes "inflight_of e = InflightNone \<or> inflight_id (inflight_of e) \<noteq> i"
  shows "pe_update_matching e m (Some i) = e \<and> pe_update_conflicting cfg e c (Some i) = Some (False, e)"
proof -
  have "\<not> awaits e i" using assms by (simp add: awaits_def)
  then show ?thesis by (simp add: stale_ack stale_conflict)
qed

theorem stale_responses_ignored_witness:
  "pe_update_matching (set_inflight (LogsSince None 8) (progress_entry_empty ''b'' 1 9)) (Some (LogId (1::nat) 4)) (Some 7) =
   set_inflight (LogsSince None 8) (progress_entry_empty ''b'' 1 9)"
  using stale_responses_ignored[of "set_inflight (LogsSince None 8) (progress_entry_empty ''b'' 1 9)" 7 "Some (LogId (1::nat) 4)"]
  by simp

text \<open>
  C36: the search for the matching log id of a follower that keeps its log ends.  A
  probe is acknowledged in full or in part, refused, or fails.  As long as the leader's log stays as it is, at most as many answers
  tell the leader something new as it has entries beyond the matching log id, plus the size of the search
  range.  A failed probe, and an acknowledgement of no more than what is known to match, leave the search
  range as it is.
\<close>

theorem probing_terminates:
  assumes "probing cfg max_entries (e, s) rounds" "can_send e s" "inflight_of e = InflightNone" "0 < max_entries"
  shows "length (filter (\<lambda>(a, y, z). informs a (fst y)) rounds) \<le>
      (next_index (last_log_id s) - matching_next e) + (search_end e - matching_next e) \<and>
    list_all (\<lambda>(a, y, z). informs a (fst y) \<or> search_range z = search_range y) rounds"
proof -
  have start: "can_send (fst (e, s)) (snd (e, s))" "inflight_of (fst (e, s)) = InflightNone" using assms(2,3) by simp_all
  have "informs a (fst y) \<or> search_range z = search_range y" if "(a, y, z) \<in> set rounds" for a y z
    using probing_bounded(2)[OF assms(1) start assms(4) that] by blast
  then have "list_all (\<lambda>(a, y, z). informs a (fst y) \<or> search_range z = search_range y) rounds"
    unfolding list_all_iff by blast
  then show ?thesis using probing_bounded(1)[OF assms(1) start assms(4)] by (simp add: probe_measure_def)
qed

theorem probing_terminates_witness:
  "\<exists>cfg rounds m. probing cfg 4 (progress_entry_empty (2::nat) 5 9, sample_state) rounds \<and>
     map fst rounds = [ProbeFailed, ProbeAcked m] \<and> map (search_range \<circ> fst \<circ> snd) rounds = [(0, 9), (0, 9)] \<and>
     length (filter (\<lambda>(a, y, z). informs a (fst y)) rounds) \<le> (next_index (last_log_id sample_state) - 0) + (9 - 0)"
proof -
  let ?e = "progress_entry_empty (2::nat) 5 9 :: (nat, nat) progress_entry" and ?e1 = "\<lambda>e. set_inflight InflightNone e"
  have "case next_send ?e sample_state 4 of (Inr (Probe r i), e', s') \<Rightarrow>
      (case next_send (?e1 e') s' 4 of
         (Inr (Probe r2 i2), _, _) \<Rightarrow> next_index (r_prev r2) \<le> next_index (r_last r2) \<and> search_range (?e1 e', s') = (0, 9)
       | _ \<Rightarrow> False) | _ \<Rightarrow> False"
    by code_simp
  then obtain r i e' s' r2 i2 e2 s2 where sent: "next_send ?e sample_state 4 = (Inr (Probe r i), e', s')"
      "next_send (?e1 e') s' 4 = (Inr (Probe r2 i2), e2, s2)" "next_index (r_prev r2) \<le> next_index (r_last r2)"
      "search_range (?e1 e', s') = (0, 9)"
    by (auto split: prod.splits sum.splits inflight.splits)
  define rounds where "rounds =
      [(ProbeFailed, (?e, sample_state), (?e1 e', s')),
       (ProbeAcked (prev_log_id s' (next_index (r_last r2))), (?e1 e', s'),
        (pe_update_matching e2 (prev_log_id s' (next_index (r_last r2))) (Some i2), s2))]"
  have run: "probing cfg 4 (?e, sample_state) rounds" for cfg
    unfolding rounds_def
    by (intro probing.intros probe_round.failed[OF sent(1)] probe_round.acked[OF sent(2,3)] refl order_refl)
  have "map fst rounds = [ProbeFailed, ProbeAcked (prev_log_id s' (next_index (r_last r2)))]"
    "map (search_range \<circ> fst \<circ> snd) rounds = [(0, 9), (0, 9)]"
    using sent(4) by (simp_all add: rounds_def search_range_def progress_entry_empty_def progress_data_new_def)
  moreover have "length (filter (\<lambda>(a, y, z). informs a (fst y)) rounds) \<le> (next_index (last_log_id sample_state) - 0) + (9 - 0)"
    using probing_terminates[OF run sample_can_send] by (simp add: progress_entry_empty_def progress_data_new_def)
  ultimately show ?thesis by - (intro exI conjI; (rule run | assumption))
qed

section \<open>The engine and the abstract node\<close>

text \<open>
  C1 Every step of the engine (a campaign, a request, a response, replicated entries, a snapshot, a proposal, an acknowledgement, a purge) is a run of the abstract node: its vote grows, it truncates only uncommitted entries and it extends its log in order. The step keeps the invariant of the node.
\<close>

theorem engine_refines_node:
  assumes "raft_leader_id (tc_lid C)" "node_inv (tc_lid C) (view e)" "engine_step C e e'"
  shows "node_run (tc_lid C) (view e) (view e') \<and> node_inv (tc_lid C) (view e')"
  using engine_step_refines[OF assms(1,3,2)] raft_leader_id.run_inv[OF assms(1)] assms(2) by blast

theorem engine_refines_node_witness:
  "engine_step sample_tc sample_node sample_next \<and> node_inv std_ops (view sample_node) \<and>
   node_run std_ops (view sample_node) (view sample_next) \<and> node_inv std_ops (view sample_next) \<and>
   key_log_ids (st_log_ids (en_state sample_next)) = [lid1 2, LogId (CommittedLeaderId 2) 4]"
proof -
  have "key_log_ids (st_log_ids (en_state sample_next)) = [lid1 2, LogId (CommittedLeaderId 2) 4]" by code_simp
  then show ?thesis
    using engine_refines_node[OF sample_leader_ids _ sample_step] sample_inv sample_step by simp
qed

text \<open>
  C2 Whatever sequence of engine steps a node takes, an entry it has committed stays committed, and as long as it is not purged it stays the same entry of the log.
\<close>

theorem committed_prefix_stable:
  assumes "raft_leader_id (tc_lid C)" "node_inv (tc_lid C) (view e)" "engine_run C e e'"
    "i < next_index (local_committed (en_state e))" "first_index (st_log_ids (en_state e')) \<le> i"
  shows "i < next_index (local_committed (en_state e')) \<and>
    log_view (st_log_ids (en_state e')) i = log_view (st_log_ids (en_state e)) i \<and>
    log_view (st_log_ids (en_state e')) i \<noteq> None"
proof -
  have run: "node_run (tc_lid C) (view e) (view e')" using engine_run_refines[OF assms(1,3,2)] .
  have inv: "node_inv (tc_lid C) (view e')" using raft_leader_id.run_inv[OF assms(1) run assms(2)] .
  have i: "i < next_index (local_committed (en_state e'))"
    using raft_leader_id.run_committed[OF assms(1) run] assms(4) by simp
  then have "i < next_index (nv_last (view e'))" using raft_leader_id.committed_in_log[OF assms(1) inv] by simp
  then have "log_view (st_log_ids (en_state e')) i \<noteq> None"
    using inv assms(5) log_view_dom[of "st_log_ids (en_state e')" i] by (simp add: node_inv_def log_inv_def)
  then show ?thesis using raft_leader_id.run_keeps[OF assms(1) run assms(2)] i assms(4,5) by (simp add: keeps_below_def)
qed

theorem committed_prefix_stable_witness:
  "engine_run sample_tc sample_node sample_leader \<and> local_committed (en_state sample_node) = Some (lid1 2) \<and>
   log_view (st_log_ids (en_state sample_leader)) 2 = Some (CommittedLeaderId 1)"
proof -
  have "local_committed (en_state sample_node) = Some (lid1 2)" "first_index (st_log_ids (en_state sample_leader)) = 0"
    "log_view (st_log_ids (en_state sample_node)) 2 = Some (CommittedLeaderId 1)"
    by code_simp+
  then show ?thesis
    using committed_prefix_stable[OF sample_leader_ids _ sample_runs(1), of 2] sample_inv sample_runs(1) by simp
qed

text \<open>
  C3 As long as a node keeps one vote of its own, whether it campaigns, leads or resigns, its log only grows: no entry it has is replaced or removed, except by purging.
\<close>

theorem leader_append_only:
  assumes "raft_leader_id (tc_lid C)" "node_inv (tc_lid C) (view e)" "engine_run C e e'"
    "leader_node_id (tc_lid C) (vote_ref (en_state e)) = own_id e" "vote_ref (en_state e') = vote_ref (en_state e)"
  shows "next_index (last_log_id (en_state e)) \<le> next_index (last_log_id (en_state e')) \<and>
    (\<forall>i < next_index (last_log_id (en_state e)). first_index (st_log_ids (en_state e')) \<le> i \<longrightarrow>
       log_view (st_log_ids (en_state e')) i = log_view (st_log_ids (en_state e)) i)"
  using raft_leader_id.run_own[OF assms(1) engine_run_refines[OF assms(1,3,2)] assms(2)] assms(4,5)
  by (simp add: own_vote_def keeps_below_def last_log_id_def)

theorem leader_append_only_witness:
  "last_log_id (en_state sample_leader) = Some (LogId (CommittedLeaderId 2) 4) \<and>
   5 \<le> next_index (last_log_id (en_state sample_proposed)) \<and>
   log_view (st_log_ids (en_state sample_proposed)) 4 = Some (CommittedLeaderId 2)"
proof -
  have "last_log_id (en_state sample_leader) = Some (LogId (CommittedLeaderId 2) 4)"
    "first_index (st_log_ids (en_state sample_proposed)) = 0"
    "log_view (st_log_ids (en_state sample_leader)) 4 = Some (CommittedLeaderId 2)"
    "leader_node_id std_ops (vote_ref (en_state sample_leader)) = own_id sample_leader"
    "vote_ref (en_state sample_proposed) = vote_ref (en_state sample_leader)"
    by code_simp+
  then show ?thesis
    using leader_append_only[OF sample_leader_ids _ sample_runs(2)] sample_leader_inv by simp
qed

text \<open>
  C4 With one leader in a term, a node grants its vote at most once per term: whatever happens between two grants, a second one in the same term is for the same vote.
\<close>

theorem single_grant_per_term:
  fixes e e1 e2 e3 :: "('n::linorder, 'nd, (nat, 'n) leader_id_std, nat committed_leader_id, 'm, 'd, 's, 'e, 'pp, 'cp, 'gp) engine"
  assumes C: "tc_lid C = std_ops" and inv: "node_inv (tc_lid C) (view e)"
    and first: "leader_node_id std_ops (vq_vote req) \<noteq> own_id e" "handle_vote_req C now req e = Some (resp, e1)"
      "vote_granted resp"
    and run: "engine_run C e1 e2"
    and second: "leader_node_id std_ops (vq_vote req') \<noteq> own_id e2" "handle_vote_req C now' req' e2 = Some (resp', e3)"
      "vote_granted resp'" "\<not> v_committed (vq_vote req')"
    and same_term: "vote_term std_ops (vq_vote req') = vote_term std_ops (vq_vote req)"
  shows "vq_vote req' = vq_vote req"
proof -
  have R: "raft_leader_id (tc_lid C)" using C std.raft_leader_id_axioms by simp
  have e1: "vote_ref (en_state e1) = vq_vote req"
    using handle_vote_req_foreign[OF R, of req e now] first C by auto
  have "engine_step C e e1" using step_vote_req[of C e req now resp e1] first C by (simp add: vote_heard_def)
  then have "node_inv (tc_lid C) (view e1)"
    using engine_step_refines[OF R _ inv] raft_leader_id.run_inv[OF R] inv by blast
  then have "vote_ge std_ops (vote_ref (en_state e2)) (vq_vote req)"
    using raft_leader_id.run_vote[OF R engine_run_refines[OF R run]] C e1 by simp
  moreover have "vote_ge std_ops (vq_vote req') (vote_ref (en_state e2))"
    using handle_vote_req_foreign[OF R, of req' e2 now'] second C by auto
  ultimately have "vote_ge std_ops (vq_vote req') (vq_vote req)" using std.vote_ge_trans by blast
  then show ?thesis using std_grant_unique same_term second(4) by blast
qed

theorem single_grant_per_term_witness:
  "\<exists>resp e1 resp' e2. handle_vote_req sample_tc 1000 sample_vote_request sample_node = Some (resp, e1) \<and> vote_granted resp \<and>
     handle_vote_req sample_tc 1001 sample_vote_request e1 = Some (resp', e2) \<and> vote_granted resp' \<and>
     vq_vote sample_vote_request = vote_new std_ops 2 3"
proof -
  obtain resp e1 where g: "handle_vote_req sample_tc 1000 sample_vote_request sample_node = Some (resp, e1)" "vote_granted resp"
    "own_id e1 = 1" "map_option (vote_granted \<circ> fst) (handle_vote_req sample_tc 1001 sample_vote_request e1) = Some True"
    by (rule sample_granted)
  then obtain resp' e2 where h: "handle_vote_req sample_tc 1001 sample_vote_request e1 = Some (resp', e2)" "vote_granted resp'"
    by auto
  have "vq_vote sample_vote_request = vq_vote sample_vote_request"
    by (rule single_grant_per_term[OF _ _ _ g(1,2) rtranclp.rtrancl_refl _ h])
      (use sample_inv sample_request_foreign g(3) in simp_all)
  moreover have "vq_vote sample_vote_request = vote_new std_ops 2 3" by code_simp
  ultimately show ?thesis using g h by blast
qed

text \<open>
  C7 A vote request from another node is always answered. It is granted exactly when its vote is not smaller, the log of the candidate is not behind, and neither the lease of a leader nor a quorum behind this node forbids it, unless the current leader has handed over its leadership. A refused request changes nothing.
\<close>

theorem vote_grant_rules:
  assumes "raft_leader_id (tc_lid C)" "leader_node_id (tc_lid C) (vq_vote req) \<noteq> own_id e"
  shows "\<exists>resp e'. handle_vote_req C now req e = Some (resp, e') \<and>
    (vote_granted resp \<longleftrightarrow>
       vote_ge (tc_lid C) (vq_vote req) (vote_ref (en_state e)) \<and>
       last_log_id (en_state e) \<le> vq_last_log_id req \<and>
       (leadership_transfer_from req = Some (vote_ref (en_state e)) \<or>
        (v_committed (vote_ref (en_state e)) \<longrightarrow> is_expired (st_vote (en_state e)) now 0) \<and>
        (case en_leader e of None \<Rightarrow> True
         | Some ld \<Rightarrow> \<not> ld_is_lease_valid C now ld (leader_lease (timer_config (en_config e)))))) \<and>
    vp_vote resp = vote_ref (en_state e') \<and>
    (if vote_granted resp then vote_ref (en_state e') = vq_vote req \<and> st_log_ids (en_state e') = st_log_ids (en_state e)
     else e' = e)"
  by (rule handle_vote_req_foreign[OF assms])

theorem vote_grant_rules_witness:
  "\<exists>resp e'. handle_vote_req sample_tc 1000 sample_vote_request sample_node = Some (resp, e') \<and> vote_granted resp \<and>
     last_log_id (en_state sample_node) \<le> vq_last_log_id sample_vote_request \<and>
     vote_ref (en_state e') = vq_vote sample_vote_request"
  using vote_grant_rules[OF sample_leader_ids, of sample_vote_request sample_node 1000] sample_request_foreign
  by (auto intro: sample_granted)

text \<open>
  C8 Entries replicated from another node are always answered, and after a success the log has every one of them that was not already committed at its index, so the leader may count this node.
\<close>

theorem accepted_append_stored:
  assumes "raft_leader_id (tc_lid C)" "node_inv (tc_lid C) (view e)" "segment_heard (tc_lid C) e v segment"
  shows "\<exists>res e'. append_entries C now v segment e = Some (res, e') \<and>
    (\<forall>last_id. res = Inr last_id \<longrightarrow> last_id = segment_last segment \<and>
      (\<forall>x \<in> set (map ent_log_id (seg_entries segment)).
         idx x < next_index (local_committed (en_state e)) \<or> get_log_id (en_state e') (idx x) = Some x))"
proof -
  have "leader_node_id (tc_lid C) v \<noteq> own_id e" using assms(3) by (simp add: segment_heard_def)
  then have "\<exists>r. append_entries C now v segment e = Some r"
    by (auto simp: append_entries_def Let_def update_vote_foreign[OF assms(1)] split: sum.splits prod.splits)
  then obtain res e' where ok: "append_entries C now v segment e = Some (res, e')" by auto
  show ?thesis
    using append_entries_run(2)[OF assms ok] ok
    by (auto simp: segment_in_log_def list_all_iff get_log_id_def ref_log_id_def log_get_def)
qed

theorem accepted_append_stored_witness:
  "\<exists>e'. append_entries sample_tc 10 (vote_new_committed std_ops 2 3) sample_segment sample_node =
      Some (Inr (Some (LogId (CommittedLeaderId 2) 4)), e') \<and>
    get_log_id (en_state e') 3 = Some (LogId (CommittedLeaderId 2) 3)"
proof -
  have acc: "map_option fst (append_entries sample_tc 10 (vote_new_committed std_ops 2 3) sample_segment sample_node) =
      Some (Inr (Some (LogId (CommittedLeaderId 2) 4)))"
    "LogId (CommittedLeaderId 2) 3 \<in> set (map ent_log_id (seg_entries sample_segment))"
    "next_index (local_committed (en_state sample_node)) = 3"
    by code_simp+
  then show ?thesis
    using accepted_append_stored[OF sample_leader_ids, of sample_node "vote_new_committed std_ops 2 3" sample_segment 10]
      sample_inv sample_heard
    by fastforce
qed

text \<open>
  C9 When a leader hears of the progress of a follower or of its own log, it
  moves the commit point, raises the committed log id of the cluster and announces it to the followers
  only for a log id that was proposed under its own vote and that the updated progress reports as
  accepted by a quorum. An accepted log id of an earlier leader changes none of the three.
\<close>

theorem commit_own_leader_only:
  assumes ld: "en_leader e = Some ld"
    and step: "update_progress C sid p iid e = Some e' \<and> reported = follower_report C (ld_progress ld) p iid \<or>
      update_local_progress C up_to e = Some e' \<and> reported = local_report C (ld_progress ld) (own_id e) up_to"
  shows "(local_committed (en_state e') = local_committed (en_state e) \<or>
      (\<exists>x. local_committed (en_state e') = Some x \<and> local_committed (en_state e) < Some x \<and> own_accepted C reported e e' x)) \<and>
    (cluster_committed (en_state e') \<in> {cluster_committed (en_state e), None} \<or>
      (\<exists>x. cluster_committed (en_state e') = Some x \<and> own_accepted C reported e e' x)) \<and>
    (\<exists>cmds. out_commands (en_output e') = out_commands (en_output e) @ cmds \<and>
      (\<forall>cc. ReplicateCommitted cc \<in> set cmds \<longrightarrow> (\<exists>x. cc = Some x \<and> own_accepted C reported e e' x)))"
  using step update_progress_own[OF _ ld] update_local_progress_own[OF _ ld] unfolding commits_own_def[symmetric] by blast

definition sample_followed where
  "sample_followed =
     (let ld = the (en_leader sample_leader);
          entry = (\<lambda>n m. (progress_entry_empty n n 5)\<lparr>matching := m\<rparr>)
      in set_leader (ld\<lparr>ld_progress := (fst (ld_progress ld), [entry 1 None, entry 2 (Some (LogId (CommittedLeaderId 2) 4)), entry 3 None])\<rparr>)
           sample_leader)"

theorem commit_own_leader_only_witness:
  "\<exists>e' x. update_local_progress sample_tc (Some (LogId (CommittedLeaderId 2) 4)) sample_followed = Some e' \<and>
     local_committed (en_state e') = Some x \<and> local_committed (en_state sample_followed) < Some x \<and> clid x = CommittedLeaderId 2"
proof -
  let ?up = "Some (LogId (CommittedLeaderId 2) 4)"
  have "case update_local_progress sample_tc ?up sample_followed of None \<Rightarrow> False
    | Some e' \<Rightarrow> local_committed (en_state e') \<noteq> local_committed (en_state sample_followed)"
    "en_leader sample_followed \<noteq> None" "std_to_committed (v_leader_id (vote_ref (en_state sample_followed))) = CommittedLeaderId 2"
    by code_simp+
  then obtain e' ld where e': "update_local_progress sample_tc ?up sample_followed = Some e'"
      "local_committed (en_state e') \<noteq> local_committed (en_state sample_followed)" "en_leader sample_followed = Some ld"
      "lid_to_committed (tc_lid sample_tc) (v_leader_id (vote_ref (en_state sample_followed))) = CommittedLeaderId 2"
    by (auto simp: std_ops_def split: option.splits)
  then show ?thesis
    using commit_own_leader_only[OF e'(3) disjI2, OF conjI, OF e'(1) refl] by (auto simp: own_accepted_def)
qed

text \<open>
  C10 What a tick does about an election, as long as the term does not overflow: it
  never panics. It does nothing on a node that leads and has not handed over in vain, that is no
  campaigner, whose elections are disabled, or that has heard of a leader or candidate less than the
  election timeout ago, with the added wait when another node has a greater log; the only campaigner
  waits for no timeout but only for its running campaign. Otherwise the node campaigns, or, with pre-vote enabled and no
  pre-vote pending, first asks the others without changing its state. A campaign is this node's own
  vote in the next term and a request with its last log id.
\<close>

theorem election_starts:
  assumes "raft_leader_id (tc_lid C)" "vote_term (tc_lid C) (vote_ref (rc_state c)) < 2 ^ 64 - 1"
    and "en_leader (rc_engine c) \<noteq> None \<longrightarrow> st_server_state (rc_state c) = Leader"
  shows "\<exists>c'. handle_tick_election C rng now c = Some c' \<and>
    (if \<not> election_due C now c then c' = c
     else if sole_campaigner C c \<or> \<not> enable_pre_vote c then campaigns C (rc_engine c) (rc_engine c')
     else if pre_vote_pending now (rc_engine c) then c' = c
     else campaigns C (rc_engine c) (rc_engine c') \<or> asks_pre_vote C now (rc_engine c) (rc_engine c')) \<and>
    vote_term (tc_lid C) (campaign_vote C (rc_engine c)) = vote_term (tc_lid C) (vote_ref (rc_state c)) + 1 \<and>
    leader_node_id (tc_lid C) (campaign_vote C (rc_engine c)) = own_id (rc_engine c)"
proof -
  have "term_next (vote_term (tc_lid C) (vote_ref (rc_state c))) = vote_term (tc_lid C) (vote_ref (rc_state c)) + 1"
    using assms(2) by (simp add: term_next_def wrapping_add_small)
  then show ?thesis
    using tick_elects[OF assms, of rng now] campaign_vote_frame(1,3)[OF assms(1), of "rc_engine c"] by simp
qed

theorem election_starts_witness:
  "\<exists>c'. handle_tick_election sample_tc (\<lambda>_ _. 200) 1000 (sample_core\<lparr>rc_engine := sample_node, enable_pre_vote := False\<rparr>) = Some c' \<and>
     vote_ref (rc_state c') = vote_new std_ops 2 1"
proof -
  let ?c = "sample_core\<lparr>rc_engine := sample_node, enable_pre_vote := False\<rparr>"
  have c: "rc_engine ?c = sample_node" "\<not> enable_pre_vote ?c" by simp_all
  have "vote_term std_ops (vote_ref (en_state sample_node)) = 1" "campaign_vote sample_tc sample_node = vote_new std_ops 2 1"
    "en_leader sample_node = None"
    by code_simp+
  moreover have "st_server_state (rc_state ?c) = Follower" "enable_elect ?c" "\<not> sole_campaigner sample_tc ?c"
    "is_campaigner_in_effective_or_committed weighted_ops (st_membership_state (rc_state ?c)) (rc_id ?c)"
    "is_expired (st_vote (rc_state ?c)) 1000 (election_wait (rc_engine ?c))"
    by code_simp+
  then have "election_due sample_tc 1000 ?c" by (simp add: election_due_def)
  ultimately show ?thesis
    using election_starts[OF sample_leader_ids, where c = ?c and rng = "\<lambda>_ _. 200" and now = 1000] c
    by (auto simp: campaigns_def)
qed

text \<open>
  C11 Initiating replication never panics on valid progress entries. For
  each follower that receives logs and has nothing in flight, and for no other, it puts a request that
  the leader can serve into the progress entry of that follower and pushes one command that sends
  exactly this request to it, in the order of the followers. No other command is pushed, no such follower is
  left without a request and every other entry stays as it was.
\<close>

theorem replication_round_complete:
  assumes "en_leader e = Some ld" "list_all (\<lambda>item. can_send item (en_state e)) (pp_iter (tc_progress C) (ld_progress ld))"
  shows "\<exists>e' items. initiate_replication C e = Some e' \<and>
    en_leader e' = Some (ld\<lparr>ld_progress := pp_write_back (tc_progress C) (ld_progress ld) items\<rparr>) \<and>
    list_all2 (round_entry (tc_mem C) (sm_membership (effective_membership e)) (own_id e) (en_state e))
      (pp_iter (tc_progress C) (ld_progress ld)) items \<and>
    map pe_id items = map pe_id (pp_iter (tc_progress C) (ld_progress ld)) \<and>
    list_all (\<lambda>item. \<not> awaits_send (tc_mem C) (sm_membership (effective_membership e)) (own_id e) item) items \<and>
    out_commands (en_output e') = out_commands (en_output e) @
      concat (map (\<lambda>(old, item). request_of (ld_committed_vote ld) item)
        (filter (\<lambda>(old, item). awaits_send (tc_mem C) (sm_membership (effective_membership e)) (own_id e) old)
          (zip (pp_iter (tc_progress C) (ld_progress ld)) items))) \<and>
    length (out_commands (en_output e')) = length (out_commands (en_output e)) +
      length (filter (awaits_send (tc_mem C) (sm_membership (effective_membership e)) (own_id e))
        (pp_iter (tc_progress C) (ld_progress ld)))"
proof -
  let ?M = "tc_mem C" and ?m = "sm_membership (effective_membership e)" and ?olds = "pp_iter (tc_progress C) (ld_progress ld)"
  obtain items s' out' where loop: "initiate_loop ?M ?m (own_id e) (ld_committed_vote ld) (en_state e) (en_output e) ?olds =
        Some (items, s', out')" "list_all2 (round_entry ?M ?m (own_id e) (en_state e)) ?olds items"
      and out: "out_commands out' = out_commands (en_output e) @ concat (map (\<lambda>(old, item). request_of (ld_committed_vote ld) item)
        (filter (\<lambda>(old, item). awaits_send ?M ?m (own_id e) old) (zip ?olds items)))"
    using initiate_loop_total[OF assms(2), of ?M ?m "own_id e" "ld_committed_vote ld" "en_output e"] by blast
  then show ?thesis
    using assms(1) round_entries[OF loop(2)]
    by (auto simp: initiate_replication_def set_leader_def simp del: length_concat)
qed

definition sample_idle_leader where
  "sample_idle_leader =
     (let ld = the (en_leader sample_leader)
      in set_leader (ld\<lparr>ld_progress := (fst (ld_progress ld), map (\<lambda>n. progress_entry_empty n n 5) [1, 2, 3])\<rparr>) sample_leader)"

lemma sample_idle_items:
  "map_option (snd \<circ> ld_progress) (en_leader sample_idle_leader) = Some (map (\<lambda>n. progress_entry_empty n n 5) [1, 2, 3])"
  "length (filter (awaits_send sample_membership_ops (sm_membership (effective_membership sample_idle_leader)) 1)
     (map (\<lambda>n. progress_entry_empty n n 5) [1, 2, 3] :: (nat, nat committed_leader_id) progress_entry list)) = 2"
  by code_simp+

lemma sample_idle_can_send: "can_send (progress_entry_empty nid nid 5) (en_state sample_idle_leader)"
proof -
  have "log_wf (st_log_ids (en_state sample_idle_leader))" "first_index (st_log_ids (en_state sample_idle_leader)) = 0"
    "st_purge_upto (en_state sample_idle_leader) = None" "next_index (last_log_id (en_state sample_idle_leader)) = 5"
    by code_simp+
  then show ?thesis by (simp add: can_send_def progress_entry_empty_def progress_data_new_def matching_in_log_def)
qed

theorem replication_round_complete_witness:
  "\<exists>e'. initiate_replication sample_tc sample_idle_leader = Some e' \<and>
     length (out_commands (en_output e')) = length (out_commands (en_output sample_idle_leader)) + 2"
proof -
  obtain ld where ld: "en_leader sample_idle_leader = Some ld"
    "snd (ld_progress ld) = map (\<lambda>n. progress_entry_empty n n 5) [1, 2, 3]"
    using sample_idle_items(1) by auto
  moreover have "own_id sample_idle_leader = 1" by code_simp
  ultimately show ?thesis
    using replication_round_complete[OF ld(1), of sample_tc] sample_idle_can_send sample_idle_items(2)
    by (auto simp: list_progress_def)
qed

text \<open>
  C12 A node that starts from a well-formed stored log comes up without a panic
  and in a state that satisfies the invariant of the node, also when it was the leader and campaigns
  at once.
\<close>

theorem startup_invariant:
  fixes e :: "('n, 'nd, 'l, 'c::linorder, 'm, 'd, 's, 'e, 'pp, 'cp, 'gp) engine"
  assumes R: "raft_leader_id (tc_lid C)" and t: "vote_term (tc_lid C) (vote_ref s) < 2 ^ 64 - 1"
    and e: "e = engine_new s cfg" and inv: "log_inv (tc_lid C) (view e)"
  shows "\<exists>e'. startup C rng now e = Some e' \<and> node_inv (tc_lid C) (view e')"
proof -
  have elect: "\<exists>e'. elect C rng now d = Some e'"
    if "en_leader d = None" "v_leader_id (leased_data (st_vote (en_state d))) = v_leader_id (leased_data (st_vote s))"
    for d :: "('n, 'nd, 'l, 'c, 'm, 'd, 's, 'e, 'pp, 'cp, 'gp) engine"
    using start_campaign_total[OF R, of "d\<lparr>en_pre_candidate := None\<rparr>" rng now None] that t
    by (auto simp: elect_def do_elect_def vote_term_def vote_ref_def)
  have "\<exists>e'. startup C rng now e = Some e'"
    unfolding startup_def Let_def
    by (auto simp: e engine_new_def set_state_def vote_ref_def leased_update_def to_non_committed_def uncommitted_into_vote_def
        intro!: elect)
  then show ?thesis using startup_inv[OF R e inv] by blast
qed

theorem startup_invariant_witness:
  "\<exists>e'. startup sample_tc (\<lambda>_ _. 200) 0 sample_node = Some e' \<and> node_inv std_ops (view e')"
proof -
  have "vote_term std_ops (vote_ref sample_node_state) = 1" by code_simp
  then show ?thesis
    using startup_invariant[OF sample_leader_ids _ sample_node_def, of "\<lambda>_ _. 200" 0] sample_inv
    by (simp add: node_inv_def)
qed

text \<open>
  C37 When each queue of waiting responses is in the order of the I/O that it waits
  for, draining ends and sends exactly the responses whose I/O is done, first those that wait for log
  writes, then for flushes, applied entries and snapshots, each queue in order, and keeps exactly the
  others in order.
\<close>

theorem responses_drained:
  assumes "raft_leader_id L" "in_order (io_ge L) (on_log_io p)" "in_order (\<ge>) (on_log_flush p)"
    "in_order (\<ge>) (on_apply p)" "in_order (\<ge>) (on_snapshot p)"
  shows "drain_all L io p DrainLogIO =
    (tag DrainLogIO (filter (is_due (io_ge L) (flushed (log_progress io))) (on_log_io p)) @
     tag DrainLogFlush (filter (is_due (\<ge>) (Option.bind (flushed (log_progress io)) io_last_log_id)) (on_log_flush p)) @
     tag DrainApply (filter (is_due (\<ge>) (flushed (apply_progress io))) (on_apply p)) @
     tag DrainSnapshot (filter (is_due (\<ge>) (flushed (snapshot_progress io))) (on_snapshot p)),
     \<lparr>on_log_io = filter (\<lambda>x. \<not> is_due (io_ge L) (flushed (log_progress io)) x) (on_log_io p),
      on_log_flush = filter (\<lambda>x. \<not> is_due (\<ge>) (Option.bind (flushed (log_progress io)) io_last_log_id) x) (on_log_flush p),
      on_apply = filter (\<lambda>x. \<not> is_due (\<ge>) (flushed (apply_progress io)) x) (on_apply p),
      on_snapshot = filter (\<lambda>x. \<not> is_due (\<ge>) (flushed (snapshot_progress io)) x) (on_snapshot p)\<rparr>)"
  using assms by (rule drain_in_order)

theorem responses_drained_witness:
  "\<exists>p :: (nat, (nat, nat) leader_id_std, nat committed_leader_id, unit, unit) pending_responds.
     p = pending_responds_new\<lparr>on_apply := map (\<lambda>i. (lid1 i, RespondInitialize (Inr ()) i)) [1, 2, 4]\<rparr> \<and>
     fst (drain_all std_ops (io_state_default\<lparr>apply_progress := io_flush (apply_progress io_state_default) (lid1 3)\<rparr>) p DrainLogIO) =
       map (\<lambda>i. (DrainApply, RespondInitialize (Inr ()) i)) [1, 2]"
  by (simp add: responses_drained[OF std.raft_leader_id_axioms] in_order_def pending_responds_new_def io_state_default_def
      io_progress_new_def io_flush_def is_due_def max_def)

text \<open>
  C38 Merging the writes at the front of the command queue loses, adds and
  reorders nothing: the entries with their votes and all other commands stay the same sequence.
\<close>

theorem batching_keeps_writes:
  "concat (map flat_command (out_commands (merge_front_append_entries n out))) = concat (map flat_command (out_commands out))"
  by (rule merge_front_flat)

section \<open>The core\<close>

text \<open>
  C5 A round of the main loop that does not stop adds the messages, snapshots
  and notifications it handles to the history, each with the engine before and after. When each of them
  is one that a correct node can hear in its state, the round - commands, batches and routine actions
  included - is a run of the abstract node and keeps the invariant of the node.
\<close>

theorem core_round_refines_node:
  assumes R: "raft_leader_id (tc_lid C)" and inv: "node_inv (tc_lid C) (core_view c)"
    and round: "runtime_round C change_apply wrap rng now sel ri b msgs c = Some (Inr (b', msgs'), c')"
    and heard: "list_all (\<lambda>(ev, e, e'). event_heard C ev e e') (drop (length (rc_handled c)) (rc_handled c'))"
  shows "take (length (rc_handled c)) (rc_handled c') = rc_handled c \<and>
    node_run (tc_lid C) (core_view c) (core_view c') \<and> node_inv (tc_lid C) (core_view c')"
proof -
  obtain evs where evs: "rc_handled c' = rc_handled c @ evs"
    "heard_all C evs \<longrightarrow> node_run (tc_lid C) (core_view c) (core_view c')"
    using rounds.runtime_round_T[OF round] R inv unfolding refines_heard_def snd_conv by blast
  then have "node_run (tc_lid C) (core_view c) (core_view c')" using heard by (simp add: heard_all_def)
  then show ?thesis using raft_leader_id.run_inv[OF R _ inv] evs(1) by simp
qed

theorem core_round_refines_node_witness:
  "\<exists>b msgs' c'. runtime_round sample_tc weighted_change_apply (\<lambda>_. ()) (\<lambda>_ _. 200) 1003 SelectNotification sample_inputs
      (balancer_new 10000) sample_msgs sample_core = Some (Inr (b, msgs'), c') \<and> rc_handled c' \<noteq> [] \<and>
    node_run std_ops (core_view sample_core) (core_view c') \<and> node_inv std_ops (core_view c')"
proof -
  obtain b c' where round: "runtime_round sample_tc weighted_change_apply (\<lambda>_. ()) (\<lambda>_ _. 200) 1003 SelectNotification
      sample_inputs (balancer_new 10000) sample_msgs sample_core = Some (Inr (b, []), c')"
    and heard: "heard_all sample_tc (rc_handled c')" "rc_handled c' \<noteq> []"
    by (rule sample_round_result)
  have "node_inv std_ops (core_view sample_core)" using sample_leader_inv by (simp add: sample_core_def)
  moreover have "rc_handled sample_core = []" by (simp add: sample_core_def)
  ultimately show ?thesis using core_round_refines_node[OF sample_leader_ids _ round] round heard by (auto simp: heard_all_def)
qed

text \<open>
  C6 No round of the loop loses a client or answers one twice. Every client of a message in the queue is still in the queue, waits in the core, or has been answered, exactly once. Every writer told that its entry is committed is handed to the state machine with its entry.
\<close>

theorem clients_accounted:
  assumes "list_all msg_wf msgs" "pending_reads_wf (pending_reads c)"
    "runtime_round C change_apply wrap rng now sel ri b msgs c = Some (Inr (b', msgs'), c')"
  shows "sum_list (map msg_clients msgs') + clients c' = sum_list (map msg_clients msgs) + clients c \<and>
    pending_reads_wf (pending_reads c') \<and> noticed c' + handed c \<subseteq># handed c' + noticed c"
  using ledger.runtime_round_T[OF assms(3)] assms(1,2) by (auto simp: loop_conserves_def conserves_def ac_simps)

theorem clients_accounted_witness:
  "\<exists>b c'. runtime_round sample_tc weighted_change_apply (\<lambda>_. ()) (\<lambda>_ _. 200) 1003 SelectNotification sample_inputs
      (balancer_new 10000) sample_msgs sample_core = Some (Inr (b, []), c') \<and>
    client_responders c' = [(5, 5)] \<and> clients c' = {#Writer 5#} \<and> pending_reads_wf (pending_reads c')"
proof -
  obtain b c' where round: "runtime_round sample_tc weighted_change_apply (\<lambda>_. ()) (\<lambda>_ _. 200) 1003 SelectNotification
      sample_inputs (balancer_new 10000) sample_msgs sample_core = Some (Inr (b, []), c')" and "client_responders c' = [(5, 5)]"
    by (rule sample_round_result)
  moreover have "list_all msg_wf sample_msgs" "sum_list (map msg_clients sample_msgs) = {#Writer 5#}" "clients sample_core = {#}"
    by (simp_all add: sample_msgs_def msg_wf_def msg_clients_def List.map_filter_def clients_def waiting_def answered_def
        sample_core_def pending_read_queue_new_def)
  moreover have "pending_reads_wf (pending_reads sample_core)" by (simp add: sample_core_def pending_read_queue_new_wf)
  ultimately show ?thesis using clients_accounted[OF _ _ round] by auto
qed

text \<open>
  C13 A change of the membership is written exactly when this node leads with a valid lease and no transfer, every precondition holds, the first entry of the leader is committed and the membership type accepts the change. Then one entry with that membership is proposed and the client waits for it. Otherwise the client gets one error and nothing else changes.
\<close>

theorem membership_change_guarded:
  assumes ok: "change_membership C now change_apply wrap retain preconditions payloads tx c = Some c'"
  defines "e \<equiv> rc_engine c"
  defines "allowed \<equiv> \<lambda>ld m. en_leader e = Some ld \<and> get_transfer_to ld = None \<and>
    ld_is_lease_valid C now ld (leader_lease (timer_config (en_config e))) \<and>
    list_all (\<lambda>p. ensure_satisfied (tc_lid C) (en_state e) p = Inr ()) preconditions \<and>
    Some (noop_log_id ld) \<le> cluster_committed (en_state e) \<and>
    (\<exists>joint. next_membership (tc_mem C) change_apply wrap (st_membership_state (en_state e)) retain = Some (Inr (m, joint)))"
  shows "(\<exists>ld m payload ids. allowed ld m \<and> get_membership payload = Some m \<and>
      leader_append_entries C [payload] e = Some (ids, rc_engine c') \<and>
      client_responders c' = client_responders c @ [(next_index (ld_last_log_id ld), tx)]) \<or>
    (\<forall>ld m. \<not> allowed ld m) \<and> (\<exists>err. c' = emit [AnswerWrite tx err] c)"
proof (cases "ensure_membership_changeable C now preconditions c")
  case (Inl err)
  then have "\<not> allowed ld m" for ld m
    using membership_changeable[of C now preconditions c ld] by (auto simp: allowed_def e_def writable_leader)
  then show ?thesis using ok Inl by (auto simp: change_membership_def)
next
  case (Inr ld)
  then have guards: "allowed ld' m \<longleftrightarrow> ld' = ld \<and>
      (\<exists>joint. next_membership (tc_mem C) change_apply wrap (st_membership_state (rc_state c)) retain = Some (Inr (m, joint)))" for ld' m
    using membership_changeable[of C now preconditions c ld] by (auto simp: allowed_def e_def writable_leader)
  consider err where "next_membership (tc_mem C) change_apply wrap (st_membership_state (rc_state c)) retain = Some (Inl err)"
    | m joint where "next_membership (tc_mem C) change_apply wrap (st_membership_state (rc_state c)) retain = Some (Inr (m, joint))"
    using ok Inr by (auto simp: change_membership_def apply_membership_to_payload_def split: option.split_asm sum.split_asm)
  then show ?thesis
  proof cases
    case (1 err)
    then show ?thesis using ok Inr guards by (auto simp: change_membership_def apply_membership_to_payload_def)
  next
    case (2 m joint)
    let ?p = "fst (payloads_select payloads m (\<not> joint))"
    obtain d ids where d: "write_entries C now [?p] [Some tx] d = Some (ids, c')" "rc_engine d = rc_engine c"
        "client_responders d = client_responders c"
      using ok Inr 2
      by (cases "payloads_select payloads m (\<not> joint)")
        (auto simp: change_membership_def apply_membership_to_payload_def Let_def split: option.split_asm)
    have "ensure_writable_leader_handler C now (rc_engine d) = Inr ld"
      using Inr membership_changeable[of C now preconditions c ld] by (simp add: d(2))
    from write_one[OF d(1) this] show ?thesis
      using guards 2 selected_membership[of payloads m "\<not> joint"] d(2,3) by (auto simp: e_def intro!: exI[of _ ?p])
  qed
qed

theorem membership_change_guarded_witness:
  "\<exists>c' ld ids payload m. change_membership sample_tc 1003 (weighted_change_apply (weighted_change_write_weight 3)) (\<lambda>_. ()) True []
      (UniformPayload Blank) 7 (set_engine sample_acked sample_core) = Some c' \<and>
    en_leader sample_acked = Some ld \<and> get_membership payload = Some m \<and>
    leader_append_entries sample_tc [payload] sample_acked = Some (ids, rc_engine c') \<and>
    client_responders c' = [(next_index (ld_last_log_id ld), 7)]"
proof -
  have "case change_membership sample_tc 1003 (weighted_change_apply (weighted_change_write_weight 3)) (\<lambda>_. ()) True []
      (UniformPayload Blank) 7 (set_engine sample_acked sample_core) of None \<Rightarrow> False
    | Some c \<Rightarrow> rc_effects c = []"
    by code_simp
  then obtain c' where c': "change_membership sample_tc 1003 (weighted_change_apply (weighted_change_write_weight 3)) (\<lambda>_. ()) True []
      (UniformPayload Blank) 7 (set_engine sample_acked sample_core) = Some c'" and fx: "rc_effects c' = []"
    by (auto split: option.splits)
  have "client_responders (set_engine sample_acked sample_core) = []" by (simp add: sample_core_def)
  then show ?thesis using membership_change_guarded[OF c'] c' fx by auto
qed

text \<open>
  C14 A read is answered with success only by a leader, and only when a quorum has
  acknowledged a message that is recent enough for the read: within the allowed age for one answered at
  once, later than the stamp it requires for one that waited. A read that is put to wait requires the
  stamp of the oldest allowed acknowledgement and the current heartbeat round. The read log id of both
  kinds is fixed when the request comes, at or after the first entry of the leader and the committed
  log id of that moment, and stays as it was when a waiting read is answered.
\<close>

theorem reads_are_fresh:
  assumes wf: "pending_reads_wf (pending_reads c)"
    and step: "handle_get_linearizer C now opt tx c = Some c' \<or> process_pending_reads C now c = Some c'"
    and age: "age = effective_max_quorum_ack_age opt (leader_lease (timer_config (en_config (rc_engine c))))"
  shows "(\<forall>t lin. AnswerRead t (Inr lin) \<in> set (drop (length (rc_effects c)) (rc_effects c')) \<longrightarrow>
      (\<exists>ld. en_leader (rc_engine c) = Some ld \<and>
        (t = tx \<and> noop_log_id ld \<le> lin_read_log_id lin \<and> local_committed (rc_state c) \<le> Some (lin_read_log_id lin) \<and>
           (self_quorum ld \<or> (\<exists>acked. last_quorum_acked_time C ld = Some acked \<and> now < acked + age)) \<or>
         (\<exists>key pr acked. (key, pr) \<in> set (pq_reads (pending_reads c)) \<and> pr_tx pr = t \<and>
            lin_read_log_id lin = lin_read_log_id (pr_linearizer pr) \<and>
            last_quorum_acked_stamp C ld = Some acked \<and> fst key < acked)))) \<and>
    (\<forall>key pr. (key, pr) \<in> set (pq_reads (pending_reads c')) \<longrightarrow>
      (key, pr) \<in> set (pq_reads (pending_reads c)) \<or>
      (\<exists>ld. en_leader (rc_engine c) = Some ld \<and> pr_tx pr = tx \<and> age \<le> now \<and>
        fst key = SendStamp (now - age) (ld_heartbeat_round ld) \<and>
        noop_log_id ld \<le> lin_read_log_id (pr_linearizer pr) \<and>
        local_committed (rc_state c) \<le> Some (lin_read_log_id (pr_linearizer pr))))"
    (is "(\<forall>t lin. ?answers t lin) \<and> (\<forall>key pr. ?waits key pr)")
  using step
proof
  assume "handle_get_linearizer C now opt tx c = Some c'"
  then show ?thesis
  proof (cases rule: get_linearizer_cases)
    case (ready ld read_log_id)
    then show ?thesis by (auto simp: get_read_log_id_def age split: option.split_asm)
  next
    case (queued ld read_log_id)
    then have "noop_log_id ld \<le> read_log_id" "local_committed (rc_state c) \<le> Some read_log_id"
      by (auto simp: get_read_log_id_def split: option.split_asm)
    moreover have "?answers t lin" for t lin using queued by simp
    ultimately show ?thesis using queued age push_read_keeps[OF wf queued(6)] by fastforce
  qed auto
next
  assume ok: "process_pending_reads C now c = Some c'"
  have "?answers t lin" for t lin using process_pending_reads_answers[OF wf ok, of t lin] by metis
  then show ?thesis using process_pending_reads_keeps[OF wf ok] by blast
qed

theorem reads_are_fresh_witness:
  "\<exists>c' lin ld. handle_get_linearizer sample_tc 1003 sample_reader 9 (set_engine sample_acked sample_core) = Some c' \<and>
    AnswerRead 9 (Inr lin) \<in> set (rc_effects c') \<and> en_leader sample_acked = Some ld \<and> noop_log_id ld \<le> lin_read_log_id lin"
proof -
  let ?c = "set_engine sample_acked sample_core"
  have "case handle_get_linearizer sample_tc 1003 sample_reader 9 ?c of None \<Rightarrow> False
    | Some c \<Rightarrow> (case rc_effects c of [AnswerRead t (Inr lin)] \<Rightarrow> t = 9 | _ \<Rightarrow> False)"
    by code_simp
  then obtain c' lin where c': "handle_get_linearizer sample_tc 1003 sample_reader 9 ?c = Some c'" and
      fx: "rc_effects c' = [AnswerRead 9 (Inr lin)]"
    by (auto split: option.splits list.splits core_effect.splits sum.splits)
  have c: "pending_reads ?c = pending_read_queue_new" "rc_effects ?c = []" "rc_engine ?c = sample_acked"
    by (simp_all add: sample_core_def)
  have "\<exists>ld. en_leader sample_acked = Some ld \<and> noop_log_id ld \<le> lin_read_log_id lin"
    using reads_are_fresh[OF _ disjI1, OF _ c' refl] c fx
    by (auto simp: pending_read_queue_new_wf) (simp add: pending_read_queue_new_def)
  then show ?thesis using c' fx by auto
qed

text \<open>
  C15 When the engine has entries to apply, the core applies them without a panic, as
  long as the storage takes the committed log id, the state machine takes the command at once, the last
  submitted entry is in the log and the log is not purged past the last entry that was handed to the state machine. They
  start right after that entry and end at a committed one, all of them are in the log, each client that
  waits for one of them is told its log id exactly once, in order, and exactly these clients go with the
  one command to the state machine. The next batch starts after them.
\<close>

theorem applies_in_order:
  fixes c :: "('n::linorder, 'nd, 'l, 'c::linorder, 'm, 'd, 's, 'e, 'pp, 'cp, 'gp) raft_core"
  assumes cmd: "next_progress_driven_command (rc_engine c) = Some (SaveCommittedAndApply a up_to)"
    and inp: "ci_storage inp = None" "ci_send inp = SmSent" "ci_received inp = 0"
    and log: "log_inv (tc_lid C) (view (rc_engine c))" "submitted_in_log (rc_state c)" "first_index (st_log_ids (rc_state c)) \<le> next_index a"
    and queue: "responders_wf (client_responders c)" "list_all (\<lambda>x. next_index a \<le> fst x) (client_responders c)"
    and due: "due = filter (\<lambda>x. fst x \<le> idx up_to) (client_responders c)"
  shows "\<exists>c' first. run_command C rng now inp (SaveCommittedAndApply a up_to) c = Some (Inr None, c') \<and>
    a = submitted (apply_progress (st_io_state (rc_state c))) \<and> next_index a \<le> idx up_to \<and>
    Some up_to \<le> local_committed (rc_state c) \<and>
    (\<forall>i. next_index a \<le> i \<and> i \<le> idx up_to \<longrightarrow> (\<exists>x. get_log_id (rc_state c) i = Some x \<and> idx x = i)) \<and>
    get_log_id (rc_state c) (next_index a) = Some first \<and>
    rc_effects c' = rc_effects c @ StoreCommitted (Some up_to) #
      map (\<lambda>(index, tx). CommitNotice tx (the (get_log_id (rc_state c) index))) due @
      [SmSend (ApplyLogs first up_to due)] \<and>
    client_responders c' = filter (\<lambda>x. idx up_to < fst x) (client_responders c) \<and>
    submitted (apply_progress (st_io_state (rc_state c'))) = Some up_to"
proof -
  have a: "a = submitted (apply_progress (st_io_state (rc_state c)))" "Some up_to \<le> local_committed (rc_state c)"
      "next_index a < next_index (Some up_to)"
    by (rule progress_driven_apply[OF cmd], simp)+
  then have le: "next_index a \<le> idx up_to" by (simp add: next_index_def[of "Some _"])
  note held = applied_in_log[OF cmd log]
  obtain first where first: "get_log_id (rc_state c) (next_index a) = Some first" using held[OF order_refl le] by blast
  let ?notices = "map (\<lambda>(index, tx). CommitNotice tx (the (get_log_id (rc_state c) index))) due
    :: ('n, 'nd, 'l, 'c, 'm, 'd, 's, 'e) core_effect list"
  have "get_log_id (rc_state c) (fst x) \<noteq> None" if "x \<in> set due" for x
    using that queue(2) held[of "fst x"] by (auto simp: list_all_iff due)
  then have notices: "commit_notices (rc_state c) due = Some ?notices" by (simp add: commit_notices_total)
  let ?c1 = "emit [StoreCommitted (Some up_to)] (update_io (\<lambda>io. io\<lparr>apply_progress := io_submit (apply_progress io) up_to\<rparr>) c)"
  let ?c2 = "?c1\<lparr>client_responders := filter (\<lambda>x. idx up_to < fst x) (client_responders c)\<rparr>"
  let ?c' = "emit [SmSend (ApplyLogs first up_to due)] (emit ?notices ?c2)"
  have "apply_to_state_machine C rng now inp first up_to ?c1 = Some (Inr (), ?c')"
    using inp drain_upto_spec[OF queue(1), of "idx up_to"] notices
    by (simp add: apply_to_state_machine_def send_sm_command_def core_then_def core_ok_def due)
  then have "run_command C rng now inp (SaveCommittedAndApply a up_to) c = Some (Inr None, ?c')"
    using inp(1) first
    by (simp add: run_command_def command_condition_def core_async_def run_save_committed_and_apply_def Let_def
        storage_result_def core_then_def core_ok_def)
  moreover have "rc_effects ?c' = rc_effects c @ StoreCommitted (Some up_to) # ?notices @ [SmSend (ApplyLogs first up_to due)]"
      "client_responders ?c' = filter (\<lambda>x. idx up_to < fst x) (client_responders c)"
      "submitted (apply_progress (st_io_state (rc_state ?c'))) = Some up_to"
    by (simp_all add: update_io_def set_state_def io_submit_def)
  ultimately show ?thesis using first le a(1,2) held by (intro exI[of _ ?c'] exI[of _ first]) blast
qed

theorem applies_in_order_witness:
  "\<exists>c'. run_command sample_tc (\<lambda>_ _. 200) 1003 quiet_input (SaveCommittedAndApply (Some (lid1 0)) (lid1 2)) sample_applier =
      Some (Inr None, c') \<and>
    rc_effects c' = [StoreCommitted (Some (lid1 2)), CommitNotice 11 (lid1 2), SmSend (ApplyLogs (lid1 1) (lid1 2) [(2, 11)])] \<and>
    client_responders c' = [(3, 12)]"
proof -
  have "(case next_progress_driven_command (rc_engine sample_applier) of
      Some (SaveCommittedAndApply a up_to) \<Rightarrow> a = Some (lid1 0) \<and> up_to = lid1 2 | _ \<Rightarrow> False)"
    by code_simp
  then have cmd: "next_progress_driven_command (rc_engine sample_applier) = Some (SaveCommittedAndApply (Some (lid1 0)) (lid1 2))"
    by (auto split: option.splits command.splits)
  have "view (rc_engine sample_applier) = view sample_node"
    by (simp add: sample_applier_def Let_def view_def set_state_def vote_ref_def local_committed_def snapshot_last_log_id_def)
  then have log: "log_inv (tc_lid sample_tc) (view (rc_engine sample_applier))" using sample_inv by (simp add: node_inv_def)
  have held: "submitted_in_log (rc_state sample_applier)" "first_index (st_log_ids (rc_state sample_applier)) \<le> next_index (Some (lid1 0))"
    "get_log_id (rc_state sample_applier) 1 = Some (lid1 1)" "get_log_id (rc_state sample_applier) 2 = Some (lid1 2)"
    by code_simp+
  have queue: "responders_wf (client_responders sample_applier)" "client_responders sample_applier = [(2, 11), (3, 12)]"
    "rc_effects sample_applier = []"
    by (simp_all add: sample_applier_def sample_core_def responders_wf_def Let_def)
  have "ci_storage quiet_input = None" "ci_send quiet_input = SmSent" "ci_received quiet_input = 0" by (simp_all add: quiet_input_def)
  from applies_in_order[OF cmd this log held(1,2) queue(1) _ refl, of "\<lambda>_ _. 200" 1003] show ?thesis
    using queue(2,3) held(3,4) by (auto simp: next_index_def)
qed

text \<open>
  C39 For a configuration that passes validation, and whose longest election timeout can be doubled without overflow, the timers of the engine are in order: a heartbeat comes before an election timeout, an election timeout within the leader lease, and the lease is shorter than the timeout of a node with a smaller log. A node that skips heartbeats still sends one before its followers elect, and a quiet period lasts at least two leases.
\<close>

theorem valid_config_timers:
  fixes nid :: 'n
  assumes ok: "config_validate parse_backoff c = Inr c'" and fits: "cf_election_timeout_max c < 2 ^ 63"
    and rng: "rng (cf_election_timeout_min c) (cf_election_timeout_max c) \<in> {cf_election_timeout_min c ..< cf_election_timeout_max c}"
    and gap: "unwrap_or 0 (cf_heartbeat_min_interval c) + heartbeat_interval c + tick_interval c < 2 ^ 64"
  defines "ec \<equiv> engine_config_new rng nid c"
  shows "from_millis (heartbeat_interval c) < election_timeout (timer_config ec) \<and>
    election_timeout (timer_config ec) < leader_lease (timer_config ec) \<and>
    leader_lease (timer_config ec) < smaller_log_timeout (timer_config ec) \<and>
    (0 < unwrap_or 0 (cf_heartbeat_min_interval c) \<longrightarrow>
      from_millis (unwrap_or 0 (cf_heartbeat_min_interval c) + heartbeat_interval c + tick_interval c)
        < election_timeout (timer_config ec)) \<and>
    (case quorum_loss_probe_interval ec of None \<Rightarrow> True | Some i \<Rightarrow> 2 * leader_lease (timer_config ec) \<le> i)"
proof -
  have timers: "from_millis (heartbeat_interval c) < election_timeout (timer_config ec)"
      "election_timeout (timer_config ec) < leader_lease (timer_config ec)"
      "leader_lease (timer_config ec) < smaller_log_timeout (timer_config ec)"
    using engine_config_timers[where rr = rng and nid = nid, OF ok fits rng] unfolding ec_def by blast+
  have timeout: "from_millis (cf_election_timeout_min c) \<le> election_timeout (timer_config ec)"
    using rng by (simp add: ec_def engine_config_new_def resample_election_timeout_def Let_def from_millis_def)
  have "from_millis (unwrap_or 0 (cf_heartbeat_min_interval c) + heartbeat_interval c + tick_interval c)
      < election_timeout (timer_config ec)" if "0 < unwrap_or 0 (cf_heartbeat_min_interval c)"
    using config_validate_Inr(6)[OF ok that] gap timeout by (simp add: wrapping_add_def from_millis_def)
  moreover have "case quorum_loss_probe_interval ec of None \<Rightarrow> True | Some i \<Rightarrow> 2 * leader_lease (timer_config ec) \<le> i"
    using config_validate_Inr(5)[OF ok]
    by (auto simp: ec_def engine_config_new_def resample_election_timeout_def Let_def from_millis_def split: option.split)
  ultimately show ?thesis using timers by blast
qed

theorem valid_config_timers_witness:
  "\<exists>ec :: nat engine_config. ec = engine_config_new (\<lambda>_ _. 200) 1 (config_default\<lparr>cf_heartbeat_min_interval := Some 20\<rparr>) \<and>
    from_millis 50 < election_timeout (timer_config ec) \<and> from_millis 80 < election_timeout (timer_config ec) \<and>
    election_timeout (timer_config ec) < leader_lease (timer_config ec)"
  using valid_config_timers[of "\<lambda>_. None" "config_default\<lparr>cf_heartbeat_min_interval := Some 20\<rparr>" _ "\<lambda>_ _. 200" "1::nat"]
  by (simp add: config_validate_def config_default_def unwrap_or_def tick_interval_def wrapping_add_def)

text \<open>
  C40 However the loop adjusts the budgets of a round, both stay positive, notifications keep at least half of the total, and together they are the total. Once the budget for messages is below sixteen it never grows again.
\<close>

theorem budgets_bounded:
  assumes "10 \<le> total_budget" "balancer_run (balancer_new total_budget) b"
  shows "0 < bal_raft_msg b \<and> total_budget div 2 \<le> bal_notification b \<and> bal_raft_msg b + bal_notification b = total_budget \<and>
    balancer_run (balancer_new total_budget) (rebalance i j b) \<and>
    (bal_raft_msg b < 16 \<longrightarrow> bal_raft_msg (rebalance i j b) \<le> bal_raft_msg b)"
proof -
  have ok: "budgets_ok b" "bal_total b = total_budget"
    using balancer_run_ok[OF assms(2) balancer_new_ok[OF assms(1)]] by (simp_all add: balancer_new_def)
  then have "0 < bal_raft_msg b" "bal_raft_msg b \<le> total_budget div 2" by (simp_all add: budgets_ok_def)
  moreover have "balancer_run (balancer_new total_budget) (rebalance i j b)"
    using assms(2) by (auto simp: rebalance_def intro: balancer_run.intros)
  moreover have "bal_raft_msg (rebalance i j b) \<le> bal_raft_msg b" if "bal_raft_msg b < 16"
    using increase_raft_msg_stuck[OF that] increase_notification_le[of b] calculation(1) by (simp add: rebalance_def)
  ultimately show ?thesis using ok(2) by (auto simp: bal_notification_def)
qed

theorem budgets_bounded_witness:
  "balancer_run (balancer_new 100) (increase_raft_msg (balancer_new 100)) \<and>
   bal_raft_msg (increase_raft_msg (balancer_new 100)) = 10 \<and> 50 \<le> bal_notification (increase_raft_msg (balancer_new 100))"
proof -
  have "balancer_run (balancer_new 100) (increase_raft_msg (balancer_new 100))" by (intro balancer_run.intros)
  then show ?thesis using budgets_bounded[of 100 "increase_raft_msg (balancer_new 100)"]
    by (auto simp: balancer_new_def increase_raft_msg_def)
qed

end
